(* ===== verification/Prelude.thy ===== *)
theory Prelude
  imports
    Main
    "HOL-Library.Finite_Map"
    "HOL-Library.Word"
    "HOL-Library.Sublist"
    "HOL-Library.Multiset"
    "HOL-Library.Char_ord"
    "HOL-Library.List_Lexorder"
begin

text \<open>
  Shared vocabulary of the development: the Go language and standard-library notions the
  components use. Machine integers are words at their Go width, maps are finite maps (with
  \<open>None\<close> for the nil map where nil can occur), an error value is an \<open>error\<close>, a function that
  returns a value or an error returns a sum, and a function that can panic returns a \<open>go\<close>
  value. The string functions are those of the packages \<open>strings\<close>, \<open>strconv\<close> and \<open>fmt\<close> that
  the sources call. The lemmas are the generic facts on strings, finite maps and words that
  the component theories share.
\<close>

named_theorems go_simps \<open>unfolding rules for Go library helpers\<close>

section \<open>Types\<close>

type_synonym gint = "64 word"
  \<comment> \<open>Go \<open>int\<close>, \<open>int64\<close> and \<open>time.Duration\<close> on a 64-bit platform: two's complement\<close>

type_synonym i32 = "32 word"
  \<comment> \<open>Go \<open>int32\<close>\<close>

type_synonym gotime = int
  \<comment> \<open>\<open>time.Time\<close> as nanoseconds on an unbounded axis\<close>

type_synonym 'v smap = "(string, 'v) fmap"
  \<comment> \<open>a Go map with string keys that is not nil\<close>

type_synonym 'v gomap = "(string, 'v) fmap option"
  \<comment> \<open>a Go map with string keys; \<open>None\<close> is the nil map\<close>

datatype error =
    Errorf string                \<comment> \<open>\<open>fmt.Errorf\<close> or \<open>errors.New\<close>, by its text\<close>
  | Wrap error string            \<comment> \<open>\<open>errors.Wrap\<close>: a cause and a message\<close>
  | ErrTargetNotFound            \<comment> \<open>\<open>pkg/routing/target.go:11\<close>\<close>
  | StatusNotFound string        \<comment> \<open>a Kubernetes API status error with reason NotFound\<close>
  | StatusAlreadyExists string   \<comment> \<open>a Kubernetes API status error with reason AlreadyExists\<close>
  | ContextCanceled
  | DeadlineExceeded
  | External string              \<comment> \<open>any other error of the network, the API server or a library\<close>

datatype 'a go = Ret 'a | Panic string
  \<comment> \<open>a call that returns, or panics with a message\<close>

primrec error_text :: "error \<Rightarrow> string" where
  "error_text (Errorf s) = s"
| "error_text (Wrap e s) = s @ '': '' @ error_text e"
| "error_text ErrTargetNotFound = ''Target not found''"
| "error_text (StatusNotFound s) = s @ '' not found''"
| "error_text (StatusAlreadyExists s) = s @ '' already exists''"
| "error_text ContextCanceled = ''context canceled''"
| "error_text DeadlineExceeded = ''context deadline exceeded''"
| "error_text (External s) = s"

text \<open>\<open>errors.Wrap\<close> of package \<open>github.com/pkg/errors\<close> returns nil for a nil cause.\<close>

definition wrap :: "error option \<Rightarrow> string \<Rightarrow> error option" where
  "wrap e msg = map_option (\<lambda>e. Wrap e msg) e"

primrec bind_go :: "'a go \<Rightarrow> ('a \<Rightarrow> 'b go) \<Rightarrow> 'b go" where
  "bind_go (Ret x) f = f x"
| "bind_go (Panic s) f = Panic s"

primrec returns :: "'a go \<Rightarrow> bool" where
  "returns (Ret x) = True"
| "returns (Panic s) = False"

section \<open>Maps\<close>

text \<open>Reading a nil map gives the zero value; writing to one panics; deleting from one is a
  no-op.\<close>

definition map_get :: "'v gomap \<Rightarrow> string \<Rightarrow> 'v option" where
  "map_get m k = (case m of None \<Rightarrow> None | Some f \<Rightarrow> fmlookup f k)"

definition map_set :: "'v gomap \<Rightarrow> string \<Rightarrow> 'v \<Rightarrow> 'v gomap go" where
  "map_set m k v =
     (case m of None \<Rightarrow> Panic ''assignment to entry in nil map''
      | Some f \<Rightarrow> Ret (Some (fmupd k v f)))"

definition map_del :: "'v gomap \<Rightarrow> string \<Rightarrow> 'v gomap" where
  "map_del m k = map_option (fmdrop k) m"

text \<open>
  The order in which Go ranges over a map is unspecified. A loop over a map is a function on a
  list of its entries; where the model needs one order it takes the sorted one, and the
  theorems about such loops say that the order does not matter: they hold for every
  enumeration of the map.
\<close>

definition entries :: "'v gomap \<Rightarrow> (string \<times> 'v) list" where
  "entries m = (case m of None \<Rightarrow> [] | Some f \<Rightarrow> sorted_list_of_fmap f)"

definition enumerates :: "('k \<times> 'v) list \<Rightarrow> ('k, 'v) fmap \<Rightarrow> bool" where
  "enumerates xs m \<longleftrightarrow> distinct (map fst xs) \<and> map_of xs = fmlookup m"

lemma map_get_simps [simp]:
  "map_get None k = None"
  "map_get (Some f) k = fmlookup f k"
  by (simp_all add: map_get_def)

lemma map_set_simps [simp]:
  "map_set None k v = Panic ''assignment to entry in nil map''"
  "map_set (Some f) k v = Ret (Some (fmupd k v f))"
  by (simp_all add: map_set_def)

lemma map_get_del [simp]: "map_get (map_del m k) k' = (if k = k' then None else map_get m k')"
  by (cases m) (auto simp: map_del_def)

lemma map_del_simps [simp]:
  "map_del None k = None"
  "map_del (Some f) k = Some (fmdrop k f)"
  by (simp_all add: map_del_def)

lemma entries_simps [simp]:
  "entries None = []"
  "entries (Some f) = sorted_list_of_fmap f"
  by (simp_all add: entries_def)

lemma fst_sorted_list_of_fmap: "map fst (sorted_list_of_fmap m) = sorted_list_of_fset (fmdom m)"
  by (simp add: sorted_list_of_fmap_def comp_def)

lemma map_of_sorted_list_of_fmap: "map_of (sorted_list_of_fmap m) = fmlookup m"
proof
  fix k
  have *: "map_of (map (\<lambda>k. (k, f k)) xs) k = (if k \<in> set xs then Some (f k) else None)" for f :: "'a \<Rightarrow> 'b" and xs
    by (induction xs) auto
  show "map_of (sorted_list_of_fmap m) k = fmlookup m k"
    by (cases "fmlookup m k") (auto simp: sorted_list_of_fmap_def * fmlookup_dom_iff)
qed

lemma enumerates_sorted [simp]: "enumerates (sorted_list_of_fmap m) m"
  by (simp add: enumerates_def fst_sorted_list_of_fmap map_of_sorted_list_of_fmap
        sorted_list_of_fset.rep_eq)

lemma set_sorted_list_of_fmap: "(k, v) \<in> set (sorted_list_of_fmap m) \<longleftrightarrow> fmlookup m k = Some v"
  using enumerates_sorted [of m] unfolding enumerates_def by (metis map_of_eq_Some_iff)

lemma fmap_of_sorted_list [simp]: "fmap_of_list (sorted_list_of_fmap m) = m"
  by (rule fmap_ext) (simp add: fmlookup_of_list map_of_sorted_list_of_fmap)

lemma enumerates_mset:
  assumes "enumerates xs m" and "enumerates ys m"
  shows "mset xs = mset ys"
proof (rule set_eq_iff_mset_eq_distinct [THEN iffD1])
  from assms show "distinct xs" "distinct ys"
    by (auto simp: enumerates_def distinct_map)
  from assms show "set xs = set ys"
    by (metis enumerates_def map_of_inject_set)
qed

section \<open>Strings\<close>

text \<open>\<open>strings.Index(s, c)\<close> and \<open>strings.LastIndex(s, c)\<close> for a one-byte separator; \<open>None\<close> is
  the result -1.\<close>

fun Index :: "string \<Rightarrow> char \<Rightarrow> nat option" where
  "Index [] c = None"
| "Index (x # xs) c = (if x = c then Some 0 else map_option Suc (Index xs c))"

fun LastIndex :: "string \<Rightarrow> char \<Rightarrow> nat option" where
  "LastIndex [] c = None"
| "LastIndex (x # xs) c =
     (case LastIndex xs c of Some i \<Rightarrow> Some (Suc i) | None \<Rightarrow> if x = c then Some 0 else None)"

text \<open>\<open>strings.Split(s, c)\<close> and \<open>strings.Join(xs, c)\<close> for a one-byte separator.\<close>

fun Split :: "string \<Rightarrow> char \<Rightarrow> string list" where
  "Split [] c = [[]]"
| "Split (x # xs) c =
     (if x = c then [] # Split xs c
      else case Split xs c of [] \<Rightarrow> [[x]] | p # ps \<Rightarrow> (x # p) # ps)"

fun Join :: "string list \<Rightarrow> char \<Rightarrow> string" where
  "Join [] c = []"
| "Join [s] c = s"
| "Join (s # t # ss) c = s @ c # Join (t # ss) c"

text \<open>Decimal printing, as \<open>%d\<close> and \<open>strconv.Itoa\<close> do, and parsing, as \<open>strconv.ParseInt(s, 10,
  bits)\<close> does: an optional sign, at least one digit, the value in range.\<close>

definition digit :: "nat \<Rightarrow> char" where
  "digit n = char_of (48 + n)"

definition is_digit :: "char \<Rightarrow> bool" where
  "is_digit c \<longleftrightarrow> 48 \<le> (of_char c :: nat) \<and> (of_char c :: nat) \<le> 57"

definition digit_val :: "char \<Rightarrow> nat" where
  "digit_val c = of_char c - 48"

fun show_nat :: "nat \<Rightarrow> string" where
  "show_nat n = (if n < 10 then [digit n] else show_nat (n div 10) @ [digit (n mod 10)])"

declare show_nat.simps [simp del]

definition show_int :: "int \<Rightarrow> string" where
  "show_int i = (if i < 0 then CHR ''-'' # show_nat (nat (- i)) else show_nat (nat i))"

fun digits_val :: "nat \<Rightarrow> string \<Rightarrow> nat option" where
  "digits_val acc [] = Some acc"
| "digits_val acc (c # cs) =
     (if is_digit c then digits_val (10 * acc + digit_val c) cs else None)"

definition read_nat :: "string \<Rightarrow> nat option" where
  "read_nat s = (if s = [] then None else digits_val 0 s)"

definition read_int :: "string \<Rightarrow> int option" where
  "read_int s =
     (case s of
        [] \<Rightarrow> None
      | c # cs \<Rightarrow>
          if c = CHR ''-'' then map_option (\<lambda>n. - int n) (read_nat cs)
          else if c = CHR ''+'' then map_option int (read_nat cs)
          else map_option int (read_nat s))"

definition ParseInt :: "string \<Rightarrow> nat \<Rightarrow> int option" where
  "ParseInt s bits =
     (case read_int s of
        None \<Rightarrow> None
      | Some i \<Rightarrow> if - (2 ^ (bits - 1)) \<le> i \<and> i < 2 ^ (bits - 1) then Some i else None)"

text \<open>\<open>%d\<close> of an \<open>int\<close> and of an \<open>int32\<close>.\<close>

definition fmt_d :: "gint \<Rightarrow> string" where
  "fmt_d n = show_int (sint n)"

definition fmt_d32 :: "i32 \<Rightarrow> string" where
  "fmt_d32 n = show_int (sint n)"

subsection \<open>Splitting and joining\<close>

lemma Split_not_Nil [simp]: "Split s c \<noteq> []"
  by (induction s c rule: Split.induct) (auto split: list.splits)

lemma Split_no_sep: "c \<notin> set s \<Longrightarrow> Split s c = [s]"
  by (induction s) auto

lemma Split_append_sep: "c \<notin> set s \<Longrightarrow> Split (s @ c # t) c = s # Split t c"
  by (induction s) auto

lemma Split_Join:
  "ss \<noteq> [] \<Longrightarrow> \<forall>s \<in> set ss. c \<notin> set s \<Longrightarrow> Split (Join ss c) c = ss"
  by (induction ss c rule: Join.induct) (auto simp: Split_no_sep Split_append_sep)

lemma Join_Cons: "ss \<noteq> [] \<Longrightarrow> Join (s # ss) c = s @ c # Join ss c"
  by (cases ss) auto

lemma Join_Cons_Cons: "Join ((x # p) # ps) c = x # Join (p # ps) c"
  by (cases ps) auto

lemma Join_Split [simp]: "Join (Split s c) c = s"
proof (induction s)
  case Nil
  then show ?case by simp
next
  case (Cons x xs)
  then show ?case
    by (cases "Split xs c") (auto simp: Join_Cons Join_Cons_Cons)
qed

lemma Split_parts: "p \<in> set (Split s c) \<Longrightarrow> c \<notin> set p"
  by (induction s c arbitrary: p rule: Split.induct) (auto split: list.splits if_splits)

lemma Index_None [simp]: "Index s c = None \<longleftrightarrow> c \<notin> set s"
  by (induction s) auto

lemma Index_append: "c \<notin> set s \<Longrightarrow> Index (s @ c # t) c = Some (length s)"
  by (induction s) auto

lemma Index_SomeD: "Index s c = Some i \<Longrightarrow> i < length s \<and> s ! i = c \<and> c \<notin> set (take i s)"
  by (induction s arbitrary: i) (auto split: if_splits)

lemma LastIndex_None [simp]: "LastIndex s c = None \<longleftrightarrow> c \<notin> set s"
  by (induction s) (auto split: option.splits)

lemma LastIndex_append: "c \<notin> set t \<Longrightarrow> LastIndex (s @ c # t) c = Some (length s)"
proof (induction s)
  case Nil
  then show ?case by (simp add: option.case_eq_if)
next
  case (Cons x s)
  then show ?case by simp
qed

subsection \<open>Printing and reading integers\<close>

lemma of_char_digit: "n < 10 \<Longrightarrow> (of_char (digit n) :: nat) = 48 + n"
  by (simp add: digit_def)

lemma is_digit_digit [simp]: "n < 10 \<Longrightarrow> is_digit (digit n)"
  by (simp add: is_digit_def of_char_digit)

lemma digit_val_digit [simp]: "n < 10 \<Longrightarrow> digit_val (digit n) = n"
  by (simp add: digit_val_def of_char_digit)

lemma digits_val_append:
  "digits_val acc (xs @ ys) =
     (case digits_val acc xs of None \<Rightarrow> None | Some a \<Rightarrow> digits_val a ys)"
  by (induction acc xs rule: digits_val.induct) auto

lemma show_nat_not_Nil [simp]: "show_nat n \<noteq> []"
  by (subst show_nat.simps) simp

lemma digits_val_show_nat: "digits_val 0 (show_nat n) = Some n"
proof (induction n rule: show_nat.induct)
  case (1 n)
  show ?case
  proof (cases "n < 10")
    case True
    then show ?thesis by (simp add: show_nat.simps [of n])
  next
    case False
    with "1.IH" show ?thesis
      by (simp add: show_nat.simps [of n] digits_val_append)
  qed
qed

lemma show_nat_digits: "c \<in> set (show_nat n) \<Longrightarrow> is_digit c"
proof (induction n rule: show_nat.induct)
  case (1 n)
  then show ?case
    by (cases "n < 10") (auto simp: show_nat.simps [of n])
qed

lemma read_nat_show_nat [simp]: "read_nat (show_nat n) = Some n"
  by (simp add: read_nat_def digits_val_show_nat)

lemma is_digit_not_sign [simp]: "\<not> is_digit (CHR ''-'')" "\<not> is_digit (CHR ''+'')"
  by (simp_all add: is_digit_def)

lemma show_nat_Cons:
  obtains c cs where "show_nat n = c # cs" and "c \<noteq> CHR ''-''" and "c \<noteq> CHR ''+''"
proof (cases "show_nat n")
  case Nil
  then show ?thesis by simp
next
  case (Cons c cs)
  then have "is_digit c" using show_nat_digits [of c n] by simp
  then have "c \<noteq> CHR ''-''" "c \<noteq> CHR ''+''" by auto
  with Cons show ?thesis by (rule that)
qed

lemma read_int_show_nat: "read_int (show_nat n) = Some (int n)"
proof -
  obtain c cs where *: "show_nat n = c # cs" "c \<noteq> CHR ''-''" "c \<noteq> CHR ''+''"
    by (rule show_nat_Cons)
  have "read_nat (c # cs) = Some n"
    using read_nat_show_nat [of n] * by simp
  with * show ?thesis
    unfolding read_int_def by simp
qed

lemma read_int_show_int [simp]: "read_int (show_int i) = Some i"
proof (cases "i < 0")
  case True
  then show ?thesis by (simp add: show_int_def read_int_def)
next
  case False
  then show ?thesis by (simp add: show_int_def read_int_show_nat)
qed

lemma ParseInt_show_int:
  "- (2 ^ (bits - 1)) \<le> i \<Longrightarrow> i < 2 ^ (bits - 1) \<Longrightarrow> ParseInt (show_int i) bits = Some i"
  by (simp add: ParseInt_def)

lemma show_int_inject: "show_int i = show_int j \<longleftrightarrow> i = j"
  by (metis option.inject read_int_show_int)

lemma ParseInt_fmt_d [simp]: "ParseInt (fmt_d n) 64 = Some (sint n)"
  unfolding fmt_d_def
  by (rule ParseInt_show_int)
    (use sint_range_size [of n] in \<open>simp_all add: word_size\<close>)

lemma ParseInt_fmt_d32 [simp]: "ParseInt (fmt_d32 n) 32 = Some (sint n)"
  unfolding fmt_d32_def
  by (rule ParseInt_show_int)
    (use sint_range_size [of n] in \<open>simp_all add: word_size\<close>)

lemma ParseInt_range:
  "ParseInt s bits = Some i \<Longrightarrow> - (2 ^ (bits - 1)) \<le> i \<and> i < 2 ^ (bits - 1)"
  by (auto simp: ParseInt_def split: option.splits if_splits)

section \<open>Words\<close>

lemma sint_of_int_64: "- (2 ^ 63) \<le> i \<Longrightarrow> i < 2 ^ 63 \<Longrightarrow> sint (word_of_int i :: gint) = i"
  by (simp add: signed_of_int signed_take_bit_int_eq_self)

lemma sint_of_nat_64: "n < 2 ^ 63 \<Longrightarrow> sint (of_nat n :: gint) = int n"
  using sint_of_int_64 [of "int n"] by simp

lemma sint_scast_32: "sint (scast (n :: i32) :: gint) = sint n"
  by (rule sint_up_scast) (simp add: is_up)

end
