(* ===== verification/Json.thy ===== *)
theory Json
  imports Prelude
begin

text \<open>
  The part of the Go package \<open>encoding/json\<close> that the sources use: the compact encoder with
  HTML escaping, the decoder's scanner and string unquoting, and the decoding of strings,
  integers and maps into Go variables. A JSON number is kept as its literal, as the decoder
  does before it knows the target type. The parser recurses on fuel; \<open>json_parse\<close> gives it
  one unit more than twice the length of the text, and \<open>parse_value_fuel\<close> shows that more fuel never
  changes the result. The decoder's nesting limit (10000) is not modelled. The main fact is
  \<open>json_parse_print\<close>: what the encoder prints for a well-formed value, the parser reads back.
\<close>

section \<open>Values and UTF-8\<close>

datatype json =
    JNull
  | JBool bool
  | JNum string
  | JStr string
  | JArr "json list"
  | JObj "(string \<times> json) list"

definition byte :: "char \<Rightarrow> nat" where
  "byte c = of_char c"

definition cont :: "char \<Rightarrow> bool" where
  "cont c \<longleftrightarrow> 128 \<le> byte c \<and> byte c \<le> 191"

text \<open>The length of the valid UTF-8 sequence at the head of a string, 0 if there is none
  (\<open>utf8.DecodeRuneInString\<close>).\<close>

definition utf8_len2 :: "string \<Rightarrow> nat" where
  "utf8_len2 s = (case s of b # _ \<Rightarrow> if cont b then 2 else 0 | _ \<Rightarrow> 0)"

definition utf8_len3 :: "nat \<Rightarrow> string \<Rightarrow> nat" where
  "utf8_len3 a s =
     (case s of
        b # c # _ \<Rightarrow>
          if cont b \<and> cont c \<and> (a = 224 \<longrightarrow> 160 \<le> byte b) \<and> (a = 237 \<longrightarrow> byte b \<le> 159)
          then 3 else 0
      | _ \<Rightarrow> 0)"

definition utf8_len4 :: "nat \<Rightarrow> string \<Rightarrow> nat" where
  "utf8_len4 a s =
     (case s of
        b # c # d # _ \<Rightarrow>
          if cont b \<and> cont c \<and> cont d \<and> (a = 240 \<longrightarrow> 144 \<le> byte b) \<and> (a = 244 \<longrightarrow> byte b \<le> 143)
          then 4 else 0
      | _ \<Rightarrow> 0)"

definition utf8_len :: "string \<Rightarrow> nat" where
  "utf8_len s =
     (case s of
        [] \<Rightarrow> 0
      | a # t \<Rightarrow>
          if byte a < 128 then 1
          else if 194 \<le> byte a \<and> byte a \<le> 223 then utf8_len2 t
          else if 224 \<le> byte a \<and> byte a \<le> 239 then utf8_len3 (byte a) t
          else if 240 \<le> byte a \<and> byte a \<le> 244 then utf8_len4 (byte a) t
          else 0)"

definition utf8_encode :: "nat \<Rightarrow> string" where
  "utf8_encode r =
     (if r < 128 then [char_of r]
      else if r < 2048 then [char_of (192 + r div 64), char_of (128 + r mod 64)]
      else if r < 65536 then
        [char_of (224 + r div 4096), char_of (128 + (r div 64) mod 64), char_of (128 + r mod 64)]
      else
        [char_of (240 + r div 262144), char_of (128 + (r div 4096) mod 64),
         char_of (128 + (r div 64) mod 64), char_of (128 + r mod 64)])"

fun valid_utf8_fuel :: "nat \<Rightarrow> string \<Rightarrow> bool" where
  "valid_utf8_fuel n [] = True"
| "valid_utf8_fuel 0 (c # cs) = False"
| "valid_utf8_fuel (Suc n) (c # cs) =
     (utf8_len (c # cs) \<noteq> 0 \<and> valid_utf8_fuel n (drop (utf8_len (c # cs) - 1) cs))"

definition valid_utf8 :: "string \<Rightarrow> bool" where
  "valid_utf8 s = valid_utf8_fuel (length s) s"

section \<open>Encoding\<close>

definition hex_digit :: "nat \<Rightarrow> char" where
  "hex_digit n = (if n < 10 then char_of (48 + n) else char_of (87 + n))"

definition bslash :: char where
  "bslash = CHR 0x5C"

definition dquote :: char where
  "dquote = CHR 0x22"

definition esc_ascii :: "char \<Rightarrow> string" where
  "esc_ascii c =
     (if c = dquote \<or> c = bslash then [bslash, c]
      else if byte c = 10 then [bslash, CHR ''n'']
      else if byte c = 13 then [bslash, CHR ''r'']
      else if byte c = 9 then [bslash, CHR ''t'']
      else if byte c < 32 \<or> c = CHR ''<'' \<or> c = CHR ''>'' \<or> c = CHR ''&'' then
        [bslash, CHR ''u'', CHR ''0'', CHR ''0'', hex_digit (byte c div 16), hex_digit (byte c mod 16)]
      else [c])"

definition line_sep :: "string \<Rightarrow> bool" where
  "line_sep s \<longleftrightarrow> map byte (take 2 s) = [226, 128] \<and> 2 < length s \<and>
     (byte (s ! 2) = 168 \<or> byte (s ! 2) = 169)"

function esc :: "string \<Rightarrow> string" where
  "esc [] = []"
| "esc (c # cs) =
     (if byte c < 128 then esc_ascii c @ esc cs
      else
        (let n = utf8_len (c # cs) in
         if n = 0 then [bslash, CHR ''u'', CHR ''f'', CHR ''f'', CHR ''f'', CHR ''d''] @ esc cs
         else if line_sep (c # cs) then
           [bslash, CHR ''u'', CHR ''2'', CHR ''0'', CHR ''2'', hex_digit (byte ((c # cs) ! 2) mod 16)]
             @ esc (drop 2 cs)
         else take n (c # cs) @ esc (drop (n - 1) cs)))"
  by pat_completeness auto
termination
  by (relation "measure length") auto

declare esc.simps(2) [simp del]

definition json_string :: "string \<Rightarrow> string" where
  "json_string s = dquote # esc s @ [dquote]"

fun json_print :: "json \<Rightarrow> string"
  and json_elems :: "json list \<Rightarrow> string"
  and json_members :: "(string \<times> json) list \<Rightarrow> string" where
  "json_print JNull = ''null''"
| "json_print (JBool b) = (if b then ''true'' else ''false'')"
| "json_print (JNum lit) = lit"
| "json_print (JStr s) = json_string s"
| "json_print (JArr js) = CHR ''['' # json_elems js @ '']''"
| "json_print (JObj kvs) = CHR ''{'' # json_members kvs @ ''}''"
| "json_elems [] = []"
| "json_elems [j] = json_print j"
| "json_elems (j # j' # js) = json_print j @ '','' @ json_elems (j' # js)"
| "json_members [] = []"
| "json_members [(k, v)] = json_string k @ '':'' @ json_print v"
| "json_members ((k, v) # kv # kvs) =
     json_string k @ '':'' @ json_print v @ '','' @ json_members (kv # kvs)"

section \<open>Parsing\<close>

definition hex_val :: "char \<Rightarrow> nat option" where
  "hex_val c =
     (if 48 \<le> byte c \<and> byte c \<le> 57 then Some (byte c - 48)
      else if 97 \<le> byte c \<and> byte c \<le> 102 then Some (byte c - 87)
      else if 65 \<le> byte c \<and> byte c \<le> 70 then Some (byte c - 55)
      else None)"

text \<open>\<open>getu4\<close>: four hex digits after backslash and u.\<close>

fun hex4 :: "string \<Rightarrow> (nat \<times> string) option" where
  "hex4 (a # b # c # d # s) =
     (case (hex_val a, hex_val b, hex_val c, hex_val d) of
        (Some w, Some x, Some y, Some z) \<Rightarrow> Some (4096 * w + 256 * x + 16 * y + z, s)
      | _ \<Rightarrow> None)"
| "hex4 _ = None"

definition surrogate_pair :: "nat \<Rightarrow> string \<Rightarrow> (nat \<times> string) option" where
  "surrogate_pair r s =
     (case s of
        a # b # t \<Rightarrow>
          if a = bslash \<and> b = CHR ''u'' then
            (case hex4 t of
               Some (r', u) \<Rightarrow>
                 if 55296 \<le> r \<and> r < 56320 \<and> 56320 \<le> r' \<and> r' < 57344
                 then Some (65536 + (r - 55296) * 1024 + (r' - 56320), u) else None
             | None \<Rightarrow> None)
          else None
      | _ \<Rightarrow> None)"

definition unescape_u :: "string \<Rightarrow> (string \<times> string) option" where
  "unescape_u s =
     (case hex4 s of
        None \<Rightarrow> None
      | Some (r, t) \<Rightarrow>
          if 55296 \<le> r \<and> r < 57344 then
            (case surrogate_pair r t of
               Some (r', u) \<Rightarrow> Some (utf8_encode r', u)
             | None \<Rightarrow> Some (utf8_encode 65533, t))
          else Some (utf8_encode r, t))"

definition unescape1 :: "char \<Rightarrow> char option" where
  "unescape1 c =
     (if c = dquote \<or> c = bslash \<or> c = CHR ''/'' then Some c
      else if c = CHR ''b'' then Some (char_of (8::nat))
      else if c = CHR ''f'' then Some (char_of (12::nat))
      else if c = CHR ''n'' then Some (char_of (10::nat))
      else if c = CHR ''r'' then Some (char_of (13::nat))
      else if c = CHR ''t'' then Some (char_of (9::nat))
      else None)"

definition cons_fst :: "string \<Rightarrow> (string \<times> string) option \<Rightarrow> (string \<times> string) option" where
  "cons_fst p r = map_option (\<lambda>(s, t). (p @ s, t)) r"

text \<open>One step of unquoting: the end of the string (the rest of the text), or a piece of the
  result and the text after it.\<close>

definition unquote_step :: "string \<Rightarrow> (string \<times> string + string) option" where
  "unquote_step s =
     (case s of
        [] \<Rightarrow> None
      | c # cs \<Rightarrow>
          if c = dquote then Some (Inr cs)
          else if c = bslash then
            (case cs of
               [] \<Rightarrow> None
             | d # ds \<Rightarrow>
                 if d = CHR ''u'' then map_option Inl (unescape_u ds)
                 else map_option (\<lambda>x. Inl ([x], ds)) (unescape1 d))
          else if byte c < 32 then None
          else if utf8_len s = 0 then Some (Inl (utf8_encode 65533, cs))
          else Some (Inl (take (utf8_len s) s, drop (utf8_len s - 1) cs)))"

fun unquote :: "nat \<Rightarrow> string \<Rightarrow> (string \<times> string) option" where
  "unquote 0 s = None"
| "unquote (Suc n) s =
     (case unquote_step s of
        None \<Rightarrow> None
      | Some (Inr t) \<Rightarrow> Some ([], t)
      | Some (Inl (p, t)) \<Rightarrow> cons_fst p (unquote n t))"

declare unquote.simps(2) [simp del]

fun skip_ws :: "string \<Rightarrow> string" where
  "skip_ws [] = []"
| "skip_ws (c # cs) = (if byte c \<in> {9, 10, 13, 32} then skip_ws cs else c # cs)"

text \<open>The JSON number grammar: sign, integer part without a leading zero, fraction, exponent.\<close>

definition lex_digits1 :: "string \<Rightarrow> (string \<times> string) option" where
  "lex_digits1 s = (case takeWhile is_digit s of [] \<Rightarrow> None | ds \<Rightarrow> Some (ds, dropWhile is_digit s))"

definition lex_intpart :: "string \<Rightarrow> (string \<times> string) option" where
  "lex_intpart s =
     (case s of
        [] \<Rightarrow> None
      | c # cs \<Rightarrow> if c = CHR ''0'' then Some ([c], cs) else lex_digits1 s)"

definition lex_frac :: "string \<Rightarrow> (string \<times> string) option" where
  "lex_frac s =
     (case s of
        c # cs \<Rightarrow>
          if c = CHR ''.'' then map_option (\<lambda>(d, r). (c # d, r)) (lex_digits1 cs) else Some ([], s)
      | [] \<Rightarrow> Some ([], s))"

definition lex_exp :: "string \<Rightarrow> (string \<times> string) option" where
  "lex_exp s =
     (case s of
        c # cs \<Rightarrow>
          if c = CHR ''e'' \<or> c = CHR ''E'' then
            (case cs of
               d # ds \<Rightarrow>
                 if d = CHR ''+'' \<or> d = CHR ''-''
                 then map_option (\<lambda>(x, r). (c # d # x, r)) (lex_digits1 ds)
                 else map_option (\<lambda>(x, r). (c # x, r)) (lex_digits1 cs)
             | [] \<Rightarrow> None)
          else Some ([], s)
      | [] \<Rightarrow> Some ([], s))"

definition lex_number :: "string \<Rightarrow> (string \<times> string) option" where
  "lex_number s =
     (let (sg, s1) = (case s of c # cs \<Rightarrow> if c = CHR ''-'' then ([c], cs) else ([], s) | [] \<Rightarrow> ([], s))
      in case lex_intpart s1 of
           None \<Rightarrow> None
         | Some (ip, s2) \<Rightarrow>
             (case lex_frac s2 of
                None \<Rightarrow> None
              | Some (fp, s3) \<Rightarrow>
                  (case lex_exp s3 of
                     None \<Rightarrow> None
                   | Some (ep, s4) \<Rightarrow> Some (sg @ ip @ fp @ ep, s4))))"

definition lex_keyword :: "string \<Rightarrow> string \<Rightarrow> json \<Rightarrow> (json \<times> string) option" where
  "lex_keyword w s j = (if take (length w) s = w then Some (j, drop (length w) s) else None)"

definition lex_scalar :: "string \<Rightarrow> (json \<times> string) option" where
  "lex_scalar s =
     (case s of
        [] \<Rightarrow> None
      | c # cs \<Rightarrow>
          if c = dquote then map_option (\<lambda>(x, r). (JStr x, r)) (unquote (Suc (length cs)) cs)
          else if c = CHR ''n'' then lex_keyword ''null'' s JNull
          else if c = CHR ''t'' then lex_keyword ''true'' s (JBool True)
          else if c = CHR ''f'' then lex_keyword ''false'' s (JBool False)
          else map_option (\<lambda>(x, r). (JNum x, r)) (lex_number s))"

fun parse_value :: "nat \<Rightarrow> string \<Rightarrow> (json \<times> string) option"
  and parse_elems :: "nat \<Rightarrow> string \<Rightarrow> (json list \<times> string) option"
  and parse_members :: "nat \<Rightarrow> string \<Rightarrow> ((string \<times> json) list \<times> string) option" where
  "parse_value 0 s = None"
| "parse_value (Suc n) s =
     (case skip_ws s of
        [] \<Rightarrow> None
      | c # cs \<Rightarrow>
          if c = CHR ''{'' then
            (case skip_ws cs of
               [] \<Rightarrow> None
             | d # ds \<Rightarrow>
                 if d = CHR ''}'' then Some (JObj [], ds)
                 else map_option (\<lambda>(m, r). (JObj m, r)) (parse_members n (d # ds)))
          else if c = CHR ''['' then
            (case skip_ws cs of
               [] \<Rightarrow> None
             | d # ds \<Rightarrow>
                 if d = CHR '']'' then Some (JArr [], ds)
                 else map_option (\<lambda>(m, r). (JArr m, r)) (parse_elems n (d # ds)))
          else lex_scalar (c # cs))"
| "parse_elems 0 s = None"
| "parse_elems (Suc n) s =
     (case parse_value n s of
        None \<Rightarrow> None
      | Some (j, r) \<Rightarrow>
          (case skip_ws r of
             [] \<Rightarrow> None
           | c # cs \<Rightarrow>
               if c = CHR '']'' then Some ([j], cs)
               else if c = CHR '','' then map_option (\<lambda>(js, t). (j # js, t)) (parse_elems n cs)
               else None))"
| "parse_members 0 s = None"
| "parse_members (Suc n) s =
     (case skip_ws s of
        [] \<Rightarrow> None
      | q # s1 \<Rightarrow>
          if q \<noteq> dquote then None
          else (case unquote (Suc (length s1)) s1 of
             None \<Rightarrow> None
           | Some (k, s2) \<Rightarrow>
               (case skip_ws s2 of
                  [] \<Rightarrow> None
                | e # s3 \<Rightarrow>
                    if e \<noteq> CHR '':'' then None
                    else (case parse_value n s3 of
                       None \<Rightarrow> None
                     | Some (v, r) \<Rightarrow>
                         (case skip_ws r of
                            [] \<Rightarrow> None
                          | c # cs \<Rightarrow>
                              if c = CHR ''}'' then Some ([(k, v)], cs)
                              else if c = CHR '','' then
                                map_option (\<lambda>(m, t). ((k, v) # m, t)) (parse_members n cs)
                              else None)))))"

declare parse_value.simps(2) [simp del] parse_elems.simps(2) [simp del]
  parse_members.simps(2) [simp del]

text \<open>\<open>json.Decoder.Decode\<close> reads one value and leaves what follows it.\<close>

definition json_parse :: "string \<Rightarrow> (json \<times> string) option" where
  "json_parse s = parse_value (Suc (2 * length s)) s"


section \<open>Decoding into Go variables\<close>

text \<open>
  Decoding a value of the wrong kind is an error that the decoder remembers and goes on from,
  so a decoder returns the variable's new value together with the first error. Null leaves a
  string or an integer unchanged and makes a map nil.
\<close>

definition type_error :: error where
  "type_error = External ''json: cannot unmarshal value into Go value''"

definition syntax_error :: error where
  "syntax_error = External ''json: invalid syntax''"

definition first_error :: "error option \<Rightarrow> error option \<Rightarrow> error option" where
  "first_error e f = (case e of None \<Rightarrow> f | Some _ \<Rightarrow> e)"

definition decode_string :: "string \<Rightarrow> json \<Rightarrow> string \<times> error option" where
  "decode_string cur j =
     (case j of JStr s \<Rightarrow> (s, None) | JNull \<Rightarrow> (cur, None) | _ \<Rightarrow> (cur, Some type_error))"

definition decode_int :: "gint \<Rightarrow> json \<Rightarrow> gint \<times> error option" where
  "decode_int cur j =
     (case j of
        JNum lit \<Rightarrow>
          (case ParseInt lit 64 of Some i \<Rightarrow> (word_of_int i, None) | None \<Rightarrow> (cur, Some type_error))
      | JNull \<Rightarrow> (cur, None)
      | _ \<Rightarrow> (cur, Some type_error))"

definition decode_int32 :: "i32 \<Rightarrow> json \<Rightarrow> i32 \<times> error option" where
  "decode_int32 cur j =
     (case j of
        JNum lit \<Rightarrow>
          (case ParseInt lit 32 of Some i \<Rightarrow> (word_of_int i, None) | None \<Rightarrow> (cur, Some type_error))
      | JNull \<Rightarrow> (cur, None)
      | _ \<Rightarrow> (cur, Some type_error))"

fun decode_entries ::
    "(json \<Rightarrow> 'v \<times> error option) \<Rightarrow> 'v smap \<Rightarrow> error option \<Rightarrow> (string \<times> json) list \<Rightarrow>
     'v smap \<times> error option" where
  "decode_entries dec m e [] = (m, e)"
| "decode_entries dec m e ((k, j) # kvs) =
     (let (v, e') = dec j in decode_entries dec (fmupd k v m) (first_error e e') kvs)"

definition decode_map ::
    "(json \<Rightarrow> 'v \<times> error option) \<Rightarrow> 'v gomap \<Rightarrow> json \<Rightarrow> 'v gomap \<times> error option" where
  "decode_map dec cur j =
     (case j of
        JObj kvs \<Rightarrow>
          apfst Some (decode_entries dec (case cur of None \<Rightarrow> fmempty | Some m \<Rightarrow> m) None kvs)
      | JNull \<Rightarrow> (None, None)
      | _ \<Rightarrow> (cur, Some type_error))"

text \<open>A map is encoded with its keys sorted; the nil map is null.\<close>

definition encode_map :: "('v \<Rightarrow> json) \<Rightarrow> 'v gomap \<Rightarrow> json" where
  "encode_map enc m =
     (case m of
        None \<Rightarrow> JNull
      | Some f \<Rightarrow> JObj (map (\<lambda>(k, v). (k, enc v)) (sorted_list_of_fmap f)))"

definition json_int :: "gint \<Rightarrow> json" where
  "json_int n = JNum (fmt_d n)"

definition json_int32 :: "i32 \<Rightarrow> json" where
  "json_int32 n = JNum (fmt_d32 n)"

section \<open>Unquoting what the encoder escapes\<close>

lemma byte_inject: "byte c = byte d \<longleftrightarrow> c = d"
  by (simp add: byte_def)

lemma char_of_byte [simp]: "char_of (byte c) = c"
  by (simp add: byte_def)

lemma byte_char_of [simp]: "n < 256 \<Longrightarrow> byte (char_of n) = n"
  by (simp add: byte_def)

lemma byte_dquote [simp]: "byte dquote = 34"
  by (simp add: byte_def dquote_def)

lemma byte_bslash [simp]: "byte bslash = 92"
  by (simp add: byte_def bslash_def)

lemma dquote_bslash [simp]: "dquote \<noteq> bslash" "bslash \<noteq> dquote"
  by (simp_all add: dquote_def bslash_def)

lemma hex_val_hex_digit [simp]: "n < 16 \<Longrightarrow> hex_val (hex_digit n) = Some n"
  by (simp add: hex_val_def hex_digit_def)

lemma utf8_len_ascii: "byte c < 128 \<Longrightarrow> utf8_len (c # cs) = 1"
  by (simp add: utf8_len_def)

lemma utf8_len2_prefix: "utf8_len2 s \<noteq> 0 \<Longrightarrow> utf8_len2 s = 2 \<and> 1 \<le> length s \<and> utf8_len2 (take 1 s @ t) = 2"
  by (cases s) (simp_all add: utf8_len2_def split: if_splits)

lemma utf8_len3_prefix:
  assumes "utf8_len3 a s \<noteq> 0"
  shows "utf8_len3 a s = 3 \<and> 2 \<le> length s \<and> utf8_len3 a (take 2 s @ t) = 3"
proof -
  from assms obtain b c u where "s = b # c # u"
    by (simp add: utf8_len3_def split: list.splits)
  with assms show ?thesis by (simp add: utf8_len3_def split: if_splits)
qed

lemma utf8_len4_prefix:
  assumes "utf8_len4 a s \<noteq> 0"
  shows "utf8_len4 a s = 4 \<and> 3 \<le> length s \<and> utf8_len4 a (take 3 s @ t) = 4"
proof -
  from assms obtain b c d u where "s = b # c # d # u"
    by (simp add: utf8_len4_def split: list.splits)
  with assms show ?thesis by (simp add: utf8_len4_def split: if_splits)
qed

lemma utf8_len_prefix:
  assumes n: "utf8_len s = n" and "n \<noteq> 0"
  shows "utf8_len (take n s @ t) = n \<and> n \<le> length s"
proof -
  from assms obtain a u where s: "s = a # u" by (cases s) (auto simp: utf8_len_def)
  consider (1) "byte a < 128"
    | (2) "194 \<le> byte a" "byte a \<le> 223" "n = utf8_len2 u"
    | (3) "224 \<le> byte a" "byte a \<le> 239" "n = utf8_len3 (byte a) u"
    | (4) "240 \<le> byte a" "byte a \<le> 244" "n = utf8_len4 (byte a) u"
    using assms unfolding s utf8_len_def by (force split: if_splits)
  then show ?thesis
  proof cases
    case 1
    with n s have "n = 1" by (simp add: utf8_len_def)
    with 1 s show ?thesis by (simp add: utf8_len_def)
  next
    case 2
    with assms utf8_len2_prefix [of u t] have "n = 2" "1 \<le> length u" "utf8_len2 (take 1 u @ t) = 2"
      by auto
    moreover have "take 2 (a # u) = a # take 1 u" by (simp add: numeral_2_eq_2)
    ultimately show ?thesis using 2(1,2) s by (simp add: utf8_len_def)
  next
    case 3
    with assms utf8_len3_prefix [of "byte a" u t]
    have "n = 3" "2 \<le> length u" "utf8_len3 (byte a) (take 2 u @ t) = 3" by auto
    moreover have "take 3 (a # u) = a # take 2 u" by (simp add: numeral_3_eq_3 numeral_2_eq_2)
    ultimately show ?thesis using 3(1,2) s by (simp add: utf8_len_def)
  next
    case 4
    with assms utf8_len4_prefix [of "byte a" u t]
    have "n = 4" "3 \<le> length u" "utf8_len4 (byte a) (take 3 u @ t) = 4" by auto
    moreover have "take 4 (a # u) = a # take 3 u" by simp
    ultimately show ?thesis using 4(1,2) s by (simp add: utf8_len_def)
  qed
qed

lemma cons_fst_Some [simp]: "cons_fst p (Some (s, t)) = Some (p @ s, t)"
  by (simp add: cons_fst_def)

lemma cons_fst_None [simp]: "cons_fst p None = None"
  by (simp add: cons_fst_def)

lemma unescape_u_ascii:
  assumes "n < 128"
  shows "unescape_u (CHR ''0'' # CHR ''0'' # hex_digit (n div 16) # hex_digit (n mod 16) # t)
      = Some ([char_of n], t)"
proof -
  have "hex_val (CHR ''0'') = Some 0" by (simp add: hex_val_def byte_def)
  moreover have "16 * (n div 16) + n mod 16 = n" by simp
  ultimately show ?thesis using assms by (simp add: unescape_u_def utf8_encode_def)
qed

lemma unquote_bslash1:
  "unescape1 d = Some x \<Longrightarrow> d \<noteq> CHR ''u'' \<Longrightarrow>
   unquote (Suc n) (bslash # d # t) = cons_fst [x] (unquote n t)"
  by (simp add: unquote.simps(2) unquote_step_def)

lemma unquote_bslash_u:
  "unescape_u s = Some (p, t) \<Longrightarrow>
   unquote (Suc n) (bslash # CHR ''u'' # s) = cons_fst p (unquote n t)"
  by (simp add: unquote.simps(2) unquote_step_def)

lemma unquote_plain:
  "c \<noteq> dquote \<Longrightarrow> c \<noteq> bslash \<Longrightarrow> 32 \<le> byte c \<Longrightarrow> utf8_len (c # cs) = Suc k \<Longrightarrow>
   unquote (Suc n) (c # cs) = cons_fst (take (Suc k) (c # cs)) (unquote n (drop k cs))"
  by (simp add: unquote.simps(2) unquote_step_def)

lemma char_eq_char_of: "byte c = k \<Longrightarrow> c = char_of k"
  using char_of_byte [of c] by simp

lemma unescape1_simps:
  "unescape1 dquote = Some dquote" "unescape1 bslash = Some bslash"
  "unescape1 (CHR ''n'') = Some (char_of (10::nat))"
  "unescape1 (CHR ''r'') = Some (char_of (13::nat))"
  "unescape1 (CHR ''t'') = Some (char_of (9::nat))"
  by (simp_all add: unescape1_def dquote_def bslash_def)

lemma esc_ascii_cases:
  obtains (short) d where "esc_ascii c = [bslash, d]" "unescape1 d = Some c" "d \<noteq> CHR ''u''"
  | (u) "esc_ascii c = [bslash, CHR ''u'', CHR ''0'', CHR ''0'', hex_digit (byte c div 16),
        hex_digit (byte c mod 16)]"
  | (plain) "esc_ascii c = [c]" "c \<noteq> dquote" "c \<noteq> bslash" "32 \<le> byte c"
proof -
  consider (q) "c = dquote \<or> c = bslash" | (n) "byte c = 10" | (r) "byte c = 13" | (t) "byte c = 9"
    | (other) "\<not> (c = dquote \<or> c = bslash)" "byte c \<noteq> 10" "byte c \<noteq> 13" "byte c \<noteq> 9"
    by blast
  then show thesis
  proof cases
    case q
    then show thesis
      by (intro short [of c]) (auto simp: esc_ascii_def unescape1_simps, auto simp: dquote_def bslash_def)
  next
    case n
    then have "byte c \<noteq> byte dquote" "byte c \<noteq> byte bslash" by simp_all
    then have "c \<noteq> dquote" "c \<noteq> bslash" by auto
    moreover have "c = char_of (10::nat)" by (rule char_eq_char_of [OF n])
    ultimately show thesis
      using n by (intro short [of "CHR ''n''"]) (auto simp: esc_ascii_def unescape1_simps)
  next
    case r
    then have "byte c \<noteq> byte dquote" "byte c \<noteq> byte bslash" by simp_all
    then have "c \<noteq> dquote" "c \<noteq> bslash" by auto
    moreover have "c = char_of (13::nat)" by (rule char_eq_char_of [OF r])
    ultimately show thesis
      using r by (intro short [of "CHR ''r''"]) (auto simp: esc_ascii_def unescape1_simps)
  next
    case t
    then have "byte c \<noteq> byte dquote" "byte c \<noteq> byte bslash" by simp_all
    then have "c \<noteq> dquote" "c \<noteq> bslash" by auto
    moreover have "c = char_of (9::nat)" by (rule char_eq_char_of [OF t])
    ultimately show thesis
      using t by (intro short [of "CHR ''t''"]) (auto simp: esc_ascii_def unescape1_simps)
  next
    case other
    show thesis
    proof (cases "byte c < 32 \<or> c = CHR ''<'' \<or> c = CHR ''>'' \<or> c = CHR ''&''")
      case True
      with other show thesis by (intro u) (simp add: esc_ascii_def)
    next
      case False
      with other show thesis by (intro plain) (simp_all add: esc_ascii_def)
    qed
  qed
qed

lemma unquote_esc_ascii:
  assumes "byte c < 128"
  shows "unquote (Suc n) (esc_ascii c @ t) = cons_fst [c] (unquote n t)"
proof (cases c rule: esc_ascii_cases)
  case (short d)
  then show ?thesis using unquote_bslash1 [OF short(2,3), of n t] by (simp only: append.simps)
next
  case u
  have "unquote (Suc n) (bslash # CHR ''u'' # CHR ''0'' # CHR ''0'' # hex_digit (byte c div 16) #
      hex_digit (byte c mod 16) # t) = cons_fst [char_of (byte c)] (unquote n t)"
    by (rule unquote_bslash_u [OF unescape_u_ascii [OF assms]])
  with u show ?thesis by (simp only: append.simps char_of_byte)
next
  case plain
  have "unquote (Suc n) (c # t) = cons_fst (take (Suc 0) (c # t)) (unquote n (drop 0 t))"
    using plain assms by (intro unquote_plain) (simp_all add: utf8_len_ascii)
  with plain show ?thesis by (simp only: append.simps take_Suc_Cons take_0 drop_0)
qed

lemma esc_ascii_length: "0 < length (esc_ascii c)"
  by (simp add: esc_ascii_def)

lemma valid_utf8_fuel_enough: "length s \<le> n \<Longrightarrow> valid_utf8_fuel n s = valid_utf8_fuel (length s) s"
proof (induction n arbitrary: s rule: less_induct)
  case (less n)
  show ?case
  proof (cases s)
    case Nil
    then show ?thesis by (cases n) simp_all
  next
    case (Cons c cs)
    with less.prems obtain m where m: "n = Suc m" "length cs \<le> m" by (cases n) auto
    let ?r = "drop (utf8_len s - 1) cs"
    have "valid_utf8_fuel m ?r = valid_utf8_fuel (length ?r) ?r"
      using m by (intro less.IH) auto
    moreover have "valid_utf8_fuel (length cs) ?r = valid_utf8_fuel (length ?r) ?r"
      using m by (intro less.IH) auto
    ultimately show ?thesis using Cons m by simp
  qed
qed

lemma valid_utf8_Nil [simp]: "valid_utf8 []"
  by (simp add: valid_utf8_def)

lemma valid_utf8_Cons:
  "valid_utf8 (c # cs) \<longleftrightarrow> utf8_len (c # cs) \<noteq> 0 \<and> valid_utf8 (drop (utf8_len (c # cs) - 1) cs)"
  using valid_utf8_fuel_enough [of "drop (utf8_len (c # cs) - 1) cs" "length cs"]
  by (simp add: valid_utf8_def)

lemma valid_utf8_ascii: "\<forall>c \<in> set s. byte c < 128 \<Longrightarrow> valid_utf8 s"
  by (induction s) (auto simp: valid_utf8_Cons utf8_len_ascii)

lemma line_sep_Cons:
  assumes "line_sep (c # cs)"
  obtains d r where "cs = char_of (128::nat) # d # r" "c = char_of (226::nat)" "byte d = 168 \<or> byte d = 169"
proof -
  from assms obtain b d r where cs: "cs = b # d # r"
    by (cases cs; cases "tl cs") (auto simp: line_sep_def)
  with assms have "byte c = 226" "byte b = 128" "byte d = 168 \<or> byte d = 169"
    by (auto simp: line_sep_def numeral_2_eq_2)
  with cs show thesis using char_eq_char_of [of c 226] char_eq_char_of [of b 128]
    by (intro that [of d r]) simp_all
qed

lemma unescape_line_sep:
  assumes "byte d = 168 \<or> byte d = 169"
  shows "unescape_u (CHR ''2'' # CHR ''0'' # CHR ''2'' # hex_digit (byte d mod 16) # t)
    = Some ([char_of (226::nat), char_of (128::nat), d], t)"
proof -
  have "hex_val (CHR ''2'') = Some 2" "hex_val (CHR ''0'') = Some 0"
    by (simp_all add: hex_val_def byte_def)
  then show ?thesis
    using assms char_eq_char_of [of d 168] char_eq_char_of [of d 169]
    by (auto simp: unescape_u_def utf8_encode_def)
qed

lemma unquote_esc:
  "valid_utf8 s \<Longrightarrow> length (esc s) < n \<Longrightarrow> unquote n (esc s @ dquote # r) = Some (s, r)"
proof (induction s arbitrary: n rule: esc.induct)
  case 1
  then show ?case by (cases n) (simp_all add: unquote.simps(2) unquote_step_def)
next
  case (2 c cs)
  from "2.prems" obtain m where n: "n = Suc m" by (cases n) auto
  let ?k = "utf8_len (c # cs)"
  from "2.prems" have k: "?k \<noteq> 0" and valid: "valid_utf8 (drop (?k - 1) cs)"
    by (simp_all add: valid_utf8_Cons)
  show ?case
  proof (cases "byte c < 128")
    case True
    have "length (esc_ascii c) + length (esc cs) < Suc m"
      using "2.prems" n True by (simp add: esc.simps(2))
    then have "length (esc cs) < m" using esc_ascii_length [of c] by linarith
    then have "unquote m (esc cs @ dquote # r) = Some (cs, r)"
      using "2.IH"(1) True valid by (simp add: utf8_len_ascii)
    with True n show ?thesis
      using unquote_esc_ascii [OF True, of m "esc cs @ dquote # r"] by (simp add: esc.simps(2))
  next
    case False
    show ?thesis
    proof (cases "line_sep (c # cs)")
      case True
      then obtain d t where cs: "cs = char_of (128::nat) # d # t" and c: "c = char_of (226::nat)"
        and d: "byte d = 168 \<or> byte d = 169"
        by (rule line_sep_Cons)
      have "?k = 3"
        using d by (auto simp: utf8_len_def utf8_len3_def cont_def c cs)
      then have e: "esc (c # cs) = bslash # CHR ''u'' # CHR ''2'' # CHR ''0'' # CHR ''2'' #
          hex_digit (byte d mod 16) # esc t"
        using False True by (simp add: esc.simps(2) cs)
      have "unquote m (esc t @ dquote # r) = Some (t, r)"
        using "2.IH"(3) [OF False refl k True, of m] "2.prems" e n valid \<open>?k = 3\<close> by (simp add: cs)
      with e n show ?thesis
        using unquote_bslash_u [OF unescape_line_sep [OF d, of "esc t @ dquote # r"], of m]
        by (simp add: c cs)
    next
      case sep: False
      let ?t = "drop (?k - 1) cs"
      have e: "esc (c # cs) = take ?k (c # cs) @ esc ?t"
        using False sep k by (simp add: esc.simps(2) Let_def)
      have IH: "unquote m (esc ?t @ dquote # r) = Some (?t, r)"
        using "2.IH"(4) [OF False refl k sep, of m] "2.prems" e n valid k by (cases ?k) simp_all
      from k obtain j where j: "?k = Suc j" by (cases ?k) auto
      have p: "utf8_len (take ?k (c # cs) @ esc ?t @ dquote # r) = ?k" "?k \<le> length (c # cs)"
        using utf8_len_prefix [OF refl k] by auto
      have "byte c \<noteq> byte dquote" "byte c \<noteq> byte bslash" using False by simp_all
      then have "c \<noteq> dquote" "c \<noteq> bslash" by auto
      then have "unquote (Suc m) (c # take j cs @ esc ?t @ dquote # r) =
          cons_fst (take (Suc j) (c # take j cs @ esc ?t @ dquote # r))
            (unquote m (drop j (take j cs @ esc ?t @ dquote # r)))"
        using False p j by (intro unquote_plain) simp_all
      then show ?thesis using IH e n p j by simp
    qed
  qed
qed


section \<open>Numbers\<close>

definition num_end :: "string \<Rightarrow> bool" where
  "num_end r \<longleftrightarrow> (case r of [] \<Rightarrow> True
     | c # _ \<Rightarrow> \<not> is_digit c \<and> c \<noteq> CHR ''.'' \<and> c \<noteq> CHR ''e'' \<and> c \<noteq> CHR ''E'')"

lemma show_nat_lead:
  "show_nat n = ''0'' \<or> (\<exists>c cs. show_nat n = c # cs \<and> c \<noteq> CHR ''0'' \<and> is_digit c)"
proof (induction n rule: show_nat.induct)
  case (1 n)
  show ?case
  proof (cases "n < 10")
    case True
    have "digit n \<noteq> CHR ''0''" if "n \<noteq> 0"
    proof
      assume "digit n = CHR ''0''"
      then have "digit_val (digit n) = digit_val (CHR ''0'')" by simp
      with True that show False by (simp add: digit_val_def [of "CHR ''0''"])
    qed
    moreover have "digit 0 = CHR ''0''" by code_simp
    moreover have "show_nat n = [digit n]" using True by (simp add: show_nat.simps [of n])
    ultimately show ?thesis using True by (cases "n = 0") auto
  next
    case False
    then have "show_nat (n div 10) \<noteq> ''0''"
      using read_nat_show_nat [of "n div 10"] by (auto simp: read_nat_def is_digit_def digit_val_def)
    with False "1.IH" show ?thesis by (auto simp: show_nat.simps [of n])
  qed
qed

lemma lex_digits1_show:
  assumes "ds \<noteq> []" and "\<forall>c \<in> set ds. is_digit c" and "num_end r"
  shows "lex_digits1 (ds @ r) = Some (ds, r)"
proof -
  have "takeWhile is_digit r = []" "dropWhile is_digit r = r"
    using assms(3) by (cases r; simp add: num_end_def)+
  then show ?thesis using assms(1,2)
    by (cases ds) (simp_all add: lex_digits1_def takeWhile_append2 dropWhile_append2)
qed

lemma lex_intpart_show_nat: "num_end r \<Longrightarrow> lex_intpart (show_nat n @ r) = Some (show_nat n, r)"
  using show_nat_lead [of n] lex_digits1_show [of "show_nat n" r] show_nat_digits
  by (auto simp: lex_intpart_def)

lemma lex_frac_exp_end: "num_end r \<Longrightarrow> lex_frac r = Some ([], r) \<and> lex_exp r = Some ([], r)"
  by (cases r) (auto simp: lex_frac_def lex_exp_def num_end_def)

lemma lex_number_show_int:
  assumes "num_end r"
  shows "lex_number (show_int i @ r) = Some (show_int i, r)"
proof (cases "i < 0")
  case True
  then show ?thesis
    using assms by (simp add: lex_number_def show_int_def lex_intpart_show_nat lex_frac_exp_end)
next
  case False
  obtain c cs where "show_nat (nat i) = c # cs" "c \<noteq> CHR ''-''" by (rule show_nat_Cons)
  then have "lex_number (c # cs @ r) = Some (c # cs, r)"
    using assms lex_intpart_show_nat [OF assms, of "nat i"]
    by (simp add: lex_number_def lex_frac_exp_end)
  with False \<open>show_nat (nat i) = c # cs\<close> show ?thesis by (simp add: show_int_def)
qed

lemma show_int_head:
  obtains c cs where "show_int i = c # cs" and "is_digit c \<or> c = CHR ''-''"
proof (cases "i < 0")
  case True
  then show ?thesis using that by (simp add: show_int_def)
next
  case False
  moreover obtain c cs where *: "show_nat (nat i) = c # cs" by (rule show_nat_Cons)
  moreover have "is_digit c" using show_nat_digits [of c "nat i"] * by simp
  ultimately show ?thesis using that by (simp add: show_int_def)
qed

section \<open>Parsing what the encoder prints\<close>

text \<open>The values the encoder produces here: valid UTF-8 strings and integer literals.\<close>

fun json_wf :: "json \<Rightarrow> bool" where
  "json_wf (JNum lit) \<longleftrightarrow> (\<exists>i. lit = show_int i)"
| "json_wf (JStr s) \<longleftrightarrow> valid_utf8 s"
| "json_wf (JArr js) \<longleftrightarrow> (\<forall>j \<in> set js. json_wf j)"
| "json_wf (JObj kvs) \<longleftrightarrow> (\<forall>(k, v) \<in> set kvs. valid_utf8 k \<and> json_wf v)"
| "json_wf _ \<longleftrightarrow> True"

definition scalar_head :: "char \<Rightarrow> bool" where
  "scalar_head c \<longleftrightarrow> c = dquote \<or> c = CHR ''n'' \<or> c = CHR ''t'' \<or> c = CHR ''f'' \<or> is_digit c \<or> c = CHR ''-''"

lemma scalar_headD:
  assumes "scalar_head c"
  shows "byte c \<notin> {9, 10, 13, 32}" "c \<noteq> CHR ''{''" "c \<noteq> CHR ''[''" "c \<noteq> CHR ''}''" "c \<noteq> CHR '']''"
  using assms by (auto simp: scalar_head_def is_digit_def byte_def dquote_def)

lemma skip_ws_head [simp]: "byte c \<notin> {9, 10, 13, 32} \<Longrightarrow> skip_ws (c # cs) = c # cs"
  by simp

lemma lex_scalar_string:
  "valid_utf8 s \<Longrightarrow> lex_scalar (json_string s @ r) = Some (JStr s, r)"
  using unquote_esc [of s "Suc (length (esc s @ dquote # r))" r]
  by (simp add: lex_scalar_def json_string_def)

lemma lex_scalar_num:
  assumes "num_end r"
  shows "lex_scalar (show_int i @ r) = Some (JNum (show_int i), r)"
proof -
  obtain c cs where c: "show_int i = c # cs" "is_digit c \<or> c = CHR ''-''" by (rule show_int_head)
  then have "c \<noteq> dquote" "c \<noteq> CHR ''n''" "c \<noteq> CHR ''t''" "c \<noteq> CHR ''f''"
    by (auto simp: is_digit_def dquote_def)
  then show ?thesis
    using c lex_number_show_int [OF assms, of i] by (simp add: lex_scalar_def)
qed

lemma parse_value_scalar:
  "scalar_head c \<Longrightarrow> parse_value (Suc n) (c # cs) = lex_scalar (c # cs)"
  using scalar_headD [of c] by (simp add: parse_value.simps(2))

lemma json_print_head:
  assumes "json_wf j"
  obtains c cs where "json_print j = c # cs" "byte c \<notin> {9, 10, 13, 32}" "c \<noteq> CHR ''}''" "c \<noteq> CHR '']''"
proof (cases j)
  case (JNum lit)
  with assms obtain i where "lit = show_int i" by auto
  moreover obtain c cs where c: "show_int i = c # cs" "is_digit c \<or> c = CHR ''-''" by (rule show_int_head)
  moreover have "scalar_head c" using c by (auto simp: scalar_head_def)
  ultimately show thesis using that JNum scalar_headD by simp
next
  case (JBool b)
  then show thesis using that by (cases b) (simp_all add: byte_def)
qed (use that in \<open>simp_all add: json_string_def byte_def dquote_def\<close>)

lemma skip_ws_json_print: "json_wf j \<Longrightarrow> skip_ws (json_print j @ r) = json_print j @ r"
  by (rule json_print_head) auto

lemma num_end_simps [simp]:
  "num_end []" "num_end (CHR ''}'' # r)" "num_end (CHR '']'' # r)" "num_end (CHR '','' # r)"
  by (simp_all add: num_end_def is_digit_def)

lemma not_ws [simp]:
  "byte (CHR '','') = 44" "byte (CHR '':'') = 58" "byte (CHR ''}'') = 125" "byte (CHR '']'') = 93"
  "byte (CHR ''{'') = 123" "byte (CHR ''['') = 91"
  by (simp_all add: byte_def)

lemma dquote_not_struct [simp]:
  "dquote \<noteq> CHR ''{''" "dquote \<noteq> CHR ''[''" "dquote \<noteq> CHR ''}''" "dquote \<noteq> CHR '']''"
  by (simp_all add: dquote_def)

lemma parse_members_step:
  assumes "valid_utf8 k"
  shows "parse_members (Suc n) (json_string k @ CHR '':'' # t) =
     (case parse_value n t of
        None \<Rightarrow> None
      | Some (v, r) \<Rightarrow>
          (case skip_ws r of
             [] \<Rightarrow> None
           | c # cs \<Rightarrow>
               if c = CHR ''}'' then Some ([(k, v)], cs)
               else if c = CHR '','' then
                 map_option (\<lambda>(m, t). ((k, v) # m, t)) (parse_members n cs)
               else None))"
  using unquote_esc [OF assms, of "Suc (length (esc k @ dquote # CHR '':'' # t))" "CHR '':'' # t"]
  by (simp add: parse_members.simps(2) json_string_def)

lemma json_string_length: "2 \<le> length (json_string k)"
  by (simp add: json_string_def)

lemma parse_print_mutual:
  shows parse_value_print: "json_wf j \<Longrightarrow> num_end r \<Longrightarrow> length (json_print j) < n \<Longrightarrow>
      parse_value n (json_print j @ r) = Some (j, r)"
    and parse_elems_print: "js \<noteq> [] \<Longrightarrow> \<forall>j \<in> set js. json_wf j \<Longrightarrow> length (json_elems js) < n \<Longrightarrow>
      parse_elems (Suc n) (json_elems js @ CHR '']'' # r) = Some (js, r)"
    and parse_members_print: "kvs \<noteq> [] \<Longrightarrow> \<forall>(k, v) \<in> set kvs. valid_utf8 k \<and> json_wf v \<Longrightarrow>
      length (json_members kvs) < n \<Longrightarrow>
      parse_members n (json_members kvs @ CHR ''}'' # r) = Some (kvs, r)"
proof (induction j and js and kvs arbitrary: n r and n r and n r
    rule: json_print_json_elems_json_members.induct)
  case 1
  then show ?case
    using parse_value_scalar [of "CHR ''n''"]
    by (cases n) (simp_all add: scalar_head_def lex_scalar_def lex_keyword_def dquote_def)
next
  case (2 b)
  then show ?case
    using parse_value_scalar [of "CHR ''t''"] parse_value_scalar [of "CHR ''f''"]
    by (cases n; cases b) (simp_all add: scalar_head_def lex_scalar_def lex_keyword_def dquote_def)
next
  case (3 lit)
  then obtain i c cs m where "lit = show_int i" "show_int i = c # cs" "is_digit c \<or> c = CHR ''-''" "n = Suc m"
    by (metis json_wf.simps(1) show_int_head less_imp_Suc_add)
  then show ?case
    using parse_value_scalar [of c m "cs @ r"] lex_scalar_num [OF "3.prems"(2), of i]
    by (simp add: scalar_head_def)
next
  case (4 s)
  then obtain m where "n = Suc m" by (cases n) auto
  then show ?case
    using parse_value_scalar [of dquote m] lex_scalar_string [of s r] "4.prems"
    by (simp add: scalar_head_def json_string_def)
next
  case (5 js)
  then obtain m where n: "n = Suc (Suc m)" "length (json_elems js) < m"
    by (cases n; cases "n - 1") auto
  show ?case
  proof (cases js)
    case Nil
    with n show ?thesis by (simp add: parse_value.simps(2))
  next
    case (Cons j ks)
    then have "json_wf j" using "5.prems" by simp
    then obtain c cs where c: "json_print j = c # cs" "byte c \<notin> {9, 10, 13, 32}" "c \<noteq> CHR '']''"
      by (rule json_print_head)
    moreover from Cons obtain t where "json_elems js = json_print j @ t"
      by (cases ks) auto
    ultimately obtain d where d: "json_elems js = c # d" by simp
    have "parse_elems (Suc m) (json_elems js @ CHR '']'' # r) = Some (js, r)"
      using "5.IH" [of m r] "5.prems" Cons n by simp
    with n c d show ?thesis by (simp add: parse_value.simps(2))
  qed
next
  case (6 kvs)
  then obtain m where n: "n = Suc m" "length (json_members kvs) < m"
    by (cases n) auto
  show ?case
  proof (cases kvs)
    case Nil
    with n show ?thesis by (simp add: parse_value.simps(2))
  next
    case (Cons kv ks)
    then obtain d where d: "json_members kvs = dquote # d"
      by (cases kv; cases ks) (simp_all add: json_string_def)
    have "parse_members m (json_members kvs @ CHR ''}'' # r) = Some (kvs, r)"
      using "6.IH" [of m r] "6.prems" Cons n by simp
    with n d show ?thesis by (simp add: parse_value.simps(2))
  qed
next
  case 7
  then show ?case by simp
next
  case (8 j)
  then show ?case by (simp add: parse_elems.simps(2))
next
  case (9 j j' js)
  then obtain m where n: "n = Suc m" by (cases n) auto
  have "parse_value n (json_print j @ CHR '','' # json_elems (j' # js) @ CHR '']'' # r) =
      Some (j, CHR '','' # json_elems (j' # js) @ CHR '']'' # r)"
    using "9.prems" by (intro "9.IH"(1)) simp_all
  moreover have "parse_elems (Suc m) (json_elems (j' # js) @ CHR '']'' # r) = Some (j' # js, r)"
    using "9.prems" n by (intro "9.IH"(2)) simp_all
  ultimately show ?case using n by (simp add: parse_elems.simps(2) [of "Suc m"])
next
  case 10
  then show ?case by simp
next
  case (11 k v)
  then obtain m where n: "n = Suc m" by (cases n) auto
  have "parse_value m (json_print v @ CHR ''}'' # r) = Some (v, CHR ''}'' # r)"
    using "11.prems" n by (intro "11.IH") simp_all
  then show ?case
    using parse_members_step [of k m "json_print v @ CHR ''}'' # r"] "11.prems" n by simp
next
  case (12 k v kv kvs)
  then obtain m where n: "n = Suc m" by (cases n) auto
  have "parse_value m (json_print v @ CHR '','' # json_members (kv # kvs) @ CHR ''}'' # r) =
      Some (v, CHR '','' # json_members (kv # kvs) @ CHR ''}'' # r)"
    using "12.prems" n by (intro "12.IH"(1)) simp_all
  moreover have "parse_members m (json_members (kv # kvs) @ CHR ''}'' # r) = Some (kv # kvs, r)"
    using "12.prems" n by (intro "12.IH"(2)) simp_all
  ultimately show ?case
    using parse_members_step [of k m "json_print v @ CHR '','' # json_members (kv # kvs) @ CHR ''}'' # r"]
      "12.prems" n by simp
qed

theorem json_parse_print:
  assumes "json_wf j" and "num_end r"
  shows "json_parse (json_print j @ r) = Some (j, r)"
  unfolding json_parse_def by (rule parse_value_print [OF assms]) simp


section \<open>The fuel is enough\<close>

lemma skip_ws_length: "length (skip_ws s) \<le> length s"
  by (induction s) auto

lemma hex4_length: "hex4 s = Some (r, t) \<Longrightarrow> length t < length s"
  by (induction s rule: hex4.induct) (auto split: option.splits)

lemma surrogate_pair_length: "surrogate_pair r s = Some (r', t) \<Longrightarrow> length t < length s"
  by (auto simp: surrogate_pair_def split: list.splits if_splits option.splits dest!: hex4_length)

lemma unescape_u_length: "unescape_u s = Some (p, t) \<Longrightarrow> length t < length s"
  by (auto simp: unescape_u_def split: option.splits if_splits
      dest!: hex4_length surrogate_pair_length)

lemma unquote_step_length:
  "unquote_step s = Some (Inl (p, t)) \<Longrightarrow> length t < length s"
  "unquote_step s = Some (Inr t) \<Longrightarrow> length t < length s"
  by (auto simp: unquote_step_def split: list.splits if_splits dest!: unescape_u_length)

lemma unquote_length: "unquote n s = Some (x, t) \<Longrightarrow> length t < length s"
proof (induction n arbitrary: s x)
  case (Suc n)
  then show ?case
    by (fastforce simp: unquote.simps(2) cons_fst_def split: option.splits sum.splits
        dest: unquote_step_length Suc.IH)
qed simp

lemma unquote_fuel: "length s < n \<Longrightarrow> unquote (Suc n) s = unquote n s"
proof (induction n arbitrary: s)
  case (Suc n)
  have "unquote (Suc n) t = unquote n t" if "unquote_step s = Some (Inl (p, t))" for p t
    using Suc.prems unquote_step_length(1) [OF that] by (intro Suc.IH) simp
  then show ?case
    by (simp add: unquote.simps(2) [of "Suc n"] unquote.simps(2) [of n] split: option.split sum.split)
qed simp

lemma lex_digits1_length: "lex_digits1 s = Some (d, t) \<Longrightarrow> length t < length s"
proof -
  assume a: "lex_digits1 s = Some (d, t)"
  then have "length s = length (takeWhile is_digit s) + length t" "takeWhile is_digit s \<noteq> []"
    by (auto simp: lex_digits1_def length_append [symmetric] simp del: length_append split: list.splits)
  then show ?thesis by simp
qed

lemma lex_number_length: "lex_number s = Some (x, t) \<Longrightarrow> length t < length s"
proof -
  have i: "lex_intpart u = Some (x, v) \<Longrightarrow> length v < length u" for u x v
    by (auto simp: lex_intpart_def split: list.splits if_splits dest: lex_digits1_length)
  have f: "lex_frac u = Some (x, v) \<Longrightarrow> length v \<le> length u" for u x v
    by (auto simp: lex_frac_def split: list.splits if_splits dest!: lex_digits1_length)
  have e: "lex_exp u = Some (x, v) \<Longrightarrow> length v \<le> length u" for u x v
    by (auto simp: lex_exp_def split: list.splits if_splits dest!: lex_digits1_length)
  assume "lex_number s = Some (x, t)"
  then show ?thesis
    by (auto simp: lex_number_def split: list.splits if_splits option.splits dest!: i f e)
qed

lemma lex_scalar_length: "lex_scalar s = Some (j, t) \<Longrightarrow> length t < length s"
  by (auto simp: lex_scalar_def lex_keyword_def split: list.splits if_splits
      dest!: unquote_length lex_number_length)

lemma skip_ws_Cons: "skip_ws s = c # cs \<Longrightarrow> length cs < length s"
  using skip_ws_length [of s] by simp

lemma parse_value_length: "parse_value n s = Some (j, t) \<Longrightarrow> length t < length s"
  and parse_elems_length: "parse_elems n s = Some (js, t) \<Longrightarrow> length t < length s"
  and parse_members_length: "parse_members n s = Some (kvs, t) \<Longrightarrow> length t < length s"
proof (induction n arbitrary: s j js kvs t)
  case (Suc n)
  {
    case 1
    then obtain c cs where c: "skip_ws s = c # cs" by (auto simp: parse_value.simps(2) split: list.splits)
    have "length t < length (c # cs)"
    proof (cases "c = CHR ''{'' \<or> c = CHR ''[''")
      case True
      then obtain d ds where d: "skip_ws cs = d # ds"
        using 1 c by (auto simp: parse_value.simps(2) split: list.splits if_splits)
      with True 1 c have "length t < length (d # ds) \<or> t = ds"
        by (auto simp: parse_value.simps(2) split: if_splits dest!: Suc.IH(2,3))
      then show ?thesis using skip_ws_Cons [OF d] by auto
    next
      case False
      with 1 c show ?thesis by (auto simp: parse_value.simps(2) dest: lex_scalar_length)
    qed
    then show ?case using skip_ws_length [of s] c by simp
  next
    case 2
    then show ?case
      by (auto simp: parse_elems.simps(2) split: option.splits list.splits if_splits
          dest!: Suc.IH(1,2) skip_ws_Cons)
  next
    case 3
    then show ?case
      by (auto simp: parse_members.simps(2) split: option.splits list.splits if_splits
          dest!: Suc.IH(1,3) skip_ws_Cons unquote_length)
  }
qed simp_all

lemma parse_value_fuel_step: "2 * length s + 1 \<le> n \<Longrightarrow> parse_value (Suc n) s = parse_value n s"
  and parse_elems_fuel_step: "2 * length s + 2 \<le> n \<Longrightarrow> parse_elems (Suc n) s = parse_elems n s"
  and parse_members_fuel_step: "2 * length s + 2 \<le> n \<Longrightarrow> parse_members (Suc n) s = parse_members n s"
proof (induction n arbitrary: s)
  case (Suc n)
  {
    case 1
    have inner: "parse_members (Suc n) (d # ds) = parse_members n (d # ds)"
        "parse_elems (Suc n) (d # ds) = parse_elems n (d # ds)"
      if "skip_ws s = c # cs" "skip_ws cs = d # ds" for c cs d ds
    proof -
      have "2 * length (d # ds) + 2 \<le> n"
        using 1 skip_ws_Cons [OF that(1)] skip_ws_length [of cs] that(2) by simp
      then show "parse_members (Suc n) (d # ds) = parse_members n (d # ds)"
        "parse_elems (Suc n) (d # ds) = parse_elems n (d # ds)"
        by (rule Suc.IH(3), rule Suc.IH(2))
    qed
    then show ?case
      by (simp add: parse_value.simps(2) [of "Suc n"] parse_value.simps(2) [of n] split: list.split)
  next
    case 2
    then have v: "parse_value (Suc n) s = parse_value n s" by (intro Suc.IH(1)) simp
    have "parse_elems (Suc n) cs = parse_elems n cs"
      if "parse_value n s = Some (j, r)" "skip_ws r = c # cs" for j r c cs
      using 2 parse_value_length [OF that(1)] skip_ws_Cons [OF that(2)] by (intro Suc.IH(2)) simp
    then show ?case
      by (simp add: parse_elems.simps(2) [of "Suc n"] parse_elems.simps(2) [of n] v
          split: option.split list.split)
  next
    case 3
    have v: "parse_value (Suc n) s3 = parse_value n s3"
      if "skip_ws s = q # s1" "unquote (Suc (length s1)) s1 = Some (k, s2)" "skip_ws s2 = e # s3"
      for q s1 k s2 e s3
      using 3 skip_ws_Cons [OF that(1)] unquote_length [OF that(2)] skip_ws_Cons [OF that(3)]
      by (intro Suc.IH(1)) simp
    have "parse_members (Suc n) cs = parse_members n cs"
      if "skip_ws s = q # s1" "unquote (Suc (length s1)) s1 = Some (k, s2)" "skip_ws s2 = e # s3"
        "parse_value n s3 = Some (j, r)" "skip_ws r = c # cs" for q s1 k s2 e s3 j r c cs
      using 3 skip_ws_Cons [OF that(1)] unquote_length [OF that(2)] skip_ws_Cons [OF that(3)]
        parse_value_length [OF that(4)] skip_ws_Cons [OF that(5)] by (intro Suc.IH(3)) simp
    with v show ?case
      by (simp add: parse_members.simps(2) [of "Suc n"] parse_members.simps(2) [of n]
          split: option.split list.split)
  }
qed simp_all

lemma parse_value_fuel: "Suc (2 * length s) \<le> n \<Longrightarrow> parse_value n s = json_parse s"
proof (induction n rule: dec_induct)
  case base
  show ?case by (simp add: json_parse_def)
next
  case (step n)
  then show ?case by (simp add: parse_value_fuel_step)
qed

section \<open>Decoding what was encoded\<close>

lemma decode_int_json_int [simp]: "decode_int cur (json_int n) = (n, None)"
  by (simp add: decode_int_def json_int_def)

lemma decode_int32_json_int32 [simp]: "decode_int32 cur (json_int32 n) = (n, None)"
  by (simp add: decode_int32_def json_int32_def)

lemma decode_string_JStr [simp]: "decode_string cur (JStr s) = (s, None)"
  by (simp add: decode_string_def)

lemma decode_entries_encoded:
  assumes "\<And>v. v \<in> snd ` set xs \<Longrightarrow> dec (enc v) = (v, None)" and "distinct (map fst xs)"
  shows "\<exists>f. decode_entries dec m None (map (\<lambda>(k, v). (k, enc v)) xs) = (f, None) \<and>
    fmlookup f = fmlookup m ++ map_of xs"
  using assms
proof (induction xs arbitrary: m)
  case (Cons x xs)
  obtain k v where x: "x = (k, v)" by (cases x)
  have "\<exists>f. decode_entries dec (fmupd k v m) None (map (\<lambda>(k, v). (k, enc v)) xs) = (f, None) \<and>
      fmlookup f = fmlookup (fmupd k v m) ++ map_of xs"
    by (rule Cons.IH) (use Cons.prems in auto)
  then obtain f where
    f: "decode_entries dec (fmupd k v m) None (map (\<lambda>(k, v). (k, enc v)) xs) = (f, None)"
    "fmlookup f = fmlookup (fmupd k v m) ++ map_of xs" by blast
  have "map_of xs k = None" using Cons.prems x by (simp add: map_of_eq_None_iff)
  then have "fmlookup f = fmlookup m ++ map_of (x # xs)"
    using f(2) x by (auto simp: map_add_def fun_eq_iff split: option.split)
  moreover have "decode_entries dec m None (map (\<lambda>(k, v). (k, enc v)) (x # xs)) = (f, None)"
    using f(1) x Cons.prems(1) by (simp add: first_error_def)
  ultimately show ?case by blast
qed simp

lemma decode_encode_map:
  assumes "\<And>k v. fmlookup f k = Some v \<Longrightarrow> dec (enc v) = (v, None)"
  shows "decode_map dec (Some fmempty) (encode_map enc (Some f)) = (Some f, None)"
proof -
  have "dec (enc v) = (v, None)" if "v \<in> snd ` set (sorted_list_of_fmap f)" for v
    using that assms by (auto simp: set_sorted_list_of_fmap)
  moreover have "distinct (map fst (sorted_list_of_fmap f))"
    using enumerates_sorted [of f] by (simp add: enumerates_def)
  ultimately obtain g where g: "decode_entries dec fmempty None
      (map (\<lambda>(k, v). (k, enc v)) (sorted_list_of_fmap f)) = (g, None)"
    "fmlookup g = fmlookup fmempty ++ map_of (sorted_list_of_fmap f)"
    using decode_entries_encoded [of "sorted_list_of_fmap f" dec enc fmempty] by blast
  then have "g = f"
    by (intro fmap_ext) (simp add: map_of_sorted_list_of_fmap map_add_def split: option.split)
  with g(1) show ?thesis by (simp add: decode_map_def encode_map_def)
qed

lemma json_wf_encode_map:
  assumes "\<And>k v. map_get m k = Some v \<Longrightarrow> valid_utf8 k \<and> json_wf (enc v)"
  shows "json_wf (encode_map enc m)"
  using assms
  by (cases m) (auto simp: encode_map_def set_sorted_list_of_fmap)

lemma json_wf_int [simp]: "json_wf (json_int n)" "json_wf (json_int32 m)"
  by (auto simp: json_int_def json_int32_def fmt_d_def fmt_d32_def)

end
