(* ===== verification/Http.thy ===== *)
theory Http
  imports Json
begin

text \<open>
  The parts of \<open>net/http\<close>, \<open>net/url\<close> and \<open>time\<close> that the sources use: a response writer (a
  header map, the first status written, the bytes written, and whether the connection is
  broken), the JSON encoder on a response writer, the registration table of a \<open>ServeMux\<close>,
  \<open>url.Parse\<close> and \<open>URL.String\<close>, and the text of a duration. The lemmas show what a handler's
  response is after a sequence of writes, and that \<open>url.Parse\<close> reads back the host of a URL
  made of host-name characters and a decimal port.
\<close>

section \<open>Response writers\<close>

record ResponseWriter =
  rw_header :: "string list smap"        \<comment> \<open>the map \<open>w.Header()\<close> returns\<close>
  rw_sent :: "string list smap option"   \<comment> \<open>the headers sent, once a status is written\<close>
  rw_code :: "nat option"                \<comment> \<open>the status code sent\<close>
  rw_body :: string
  rw_broken :: bool                      \<comment> \<open>writes of body bytes fail\<close>

definition NewRecorder :: ResponseWriter where
  "NewRecorder = \<lparr>rw_header = fmempty, rw_sent = None, rw_code = None, rw_body = [], rw_broken = False\<rparr>"

text \<open>Only the first status code counts; a later \<open>WriteHeader\<close> is superfluous.\<close>

definition WriteHeader :: "nat \<Rightarrow> ResponseWriter \<Rightarrow> ResponseWriter" where
  "WriteHeader c w =
     (if rw_code w = None then w\<lparr>rw_code := Some c, rw_sent := Some (rw_header w)\<rparr> else w)"

definition write_error :: error where
  "write_error = External ''write: broken pipe''"

definition Write :: "string \<Rightarrow> ResponseWriter \<Rightarrow> ResponseWriter \<times> error option" where
  "Write bs w =
     (let w' = WriteHeader 200 w in
      if rw_broken w then (w', Some write_error)
      else (w'\<lparr>rw_body := rw_body w' @ bs\<rparr>, None))"

definition SetHeader :: "string \<Rightarrow> string \<Rightarrow> ResponseWriter \<Rightarrow> ResponseWriter" where
  "SetHeader k v w = w\<lparr>rw_header := fmupd k [v] (rw_header w)\<rparr>"

definition newline :: char where
  "newline = CHR 0x0A"

text \<open>
  \<open>json.NewEncoder(w).Encode(v)\<close>: the encoding is made in a buffer first, so a response is
  touched by one write only, which carries the text and a line feed.
\<close>

definition EncodeTo :: "json \<Rightarrow> ResponseWriter \<Rightarrow> ResponseWriter \<times> error option" where
  "EncodeTo j w = Write (json_print j @ [newline]) w"

lemmas rw_defs = WriteHeader_def Write_def SetHeader_def EncodeTo_def NewRecorder_def Let_def

lemma WriteHeader_first [simp]: "rw_code w = Some c \<Longrightarrow> WriteHeader d w = w"
  by (simp add: WriteHeader_def)

lemma rw_code_WriteHeader [simp]:
  "rw_code (WriteHeader c w) = (case rw_code w of None \<Rightarrow> Some c | Some d \<Rightarrow> Some d)"
  by (auto simp: WriteHeader_def split: option.split)

lemma rw_code_Write [simp]:
  "rw_code (fst (Write bs w)) = (case rw_code w of None \<Rightarrow> Some 200 | Some d \<Rightarrow> Some d)"
  by (simp add: Write_def Let_def)

lemma rw_body_WriteHeader [simp]:
  "rw_body (WriteHeader c w) = rw_body w" "rw_broken (WriteHeader c w) = rw_broken w"
  "rw_header (WriteHeader c w) = rw_header w"
  by (simp_all add: WriteHeader_def)

lemma Write_body [simp]:
  "rw_body (fst (Write bs w)) = (if rw_broken w then rw_body w else rw_body w @ bs)"
  "rw_broken (fst (Write bs w)) = rw_broken w"
  "rw_header (fst (Write bs w)) = rw_header w"
  "snd (Write bs w) = (if rw_broken w then Some write_error else None)"
  by (simp_all add: Write_def Let_def)

section \<open>ServeMux\<close>

type_synonym 'h ServeMux = "(string \<times> 'h) list"

text \<open>Registering a pattern twice panics.\<close>

definition Handle :: "string \<Rightarrow> 'h \<Rightarrow> 'h ServeMux \<Rightarrow> 'h ServeMux go" where
  "Handle pattern h mux =
     (if pattern \<in> fst ` set mux then Panic (''http: multiple registrations for '' @ pattern)
      else Ret (mux @ [(pattern, h)]))"

text \<open>
  The handler of a (clean) request path: an exact match, else the longest registered pattern
  that ends in a slash and is a prefix of the path.
\<close>

definition mux_match :: "string \<Rightarrow> 'h ServeMux \<Rightarrow> 'h option" where
  "mux_match path mux =
     (case map_of mux path of
        Some h \<Rightarrow> Some h
      | None \<Rightarrow>
          (case filter (\<lambda>(p, h). p \<noteq> [] \<and> last p = CHR ''/'' \<and> prefix p path)
                  (sort_key (\<lambda>(p, h). length p) mux) of
             [] \<Rightarrow> None
           | xs \<Rightarrow> Some (snd (last xs))))"

lemma mux_match_registered:
  assumes "Handle p h mux = Ret mux'"
  shows "mux_match p mux' = Some h"
proof -
  have "map_of (mux @ [(p, h)]) p = Some h"
    using assms by (auto simp: Handle_def map_add_def map_of_eq_None_iff split: if_splits option.split
        dest: map_of_SomeD intro: rev_image_eqI)
  moreover have "mux' = mux @ [(p, h)]" using assms by (auto simp: Handle_def split: if_splits)
  ultimately show ?thesis by (simp add: mux_match_def del: map_of_append)
qed

section \<open>Durations as text\<close>

definition second :: gint where
  "second = 1000000000"

definition millisecond :: gint where
  "millisecond = 1000000"

fun strip_zeros :: "string \<Rightarrow> string" where
  "strip_zeros s = (if s \<noteq> [] \<and> last s = CHR ''0'' then strip_zeros (butlast s) else s)"

declare strip_zeros.simps [simp del]

text \<open>The number \<open>v / 10 ^ prec\<close> with the trailing zeros of its fraction dropped.\<close>

definition fmt_frac :: "nat \<Rightarrow> nat \<Rightarrow> string" where
  "fmt_frac v prec =
     (let fr = strip_zeros (drop 1 (show_nat (10 ^ prec + v mod 10 ^ prec))) in
      show_nat (v div 10 ^ prec) @ (if fr = [] then [] else CHR ''.'' # fr))"

definition Duration_String :: "gint \<Rightarrow> string" where
  "Duration_String d =
     (let u = nat \<bar>sint d\<bar>; sign = (if sint d < 0 then ''-'' else '''') in
      if u = 0 then ''0s''
      else if u < 1000 then sign @ show_nat u @ ''ns''
      else if u < 1000000 then sign @ fmt_frac u 3 @ [CHR 0xC2, CHR 0xB5, CHR ''s'']
      else if u < 1000000000 then sign @ fmt_frac u 6 @ ''ms''
      else
        (let m = u div 60000000000; h = m div 60 in
         sign @ (if h > 0 then show_nat h @ ''h'' else []) @
         (if m > 0 then show_nat (m mod 60) @ ''m'' else []) @
         fmt_frac (u mod 60000000000) 9 @ ''s''))"

section \<open>URLs\<close>

record URL =
  Scheme :: string
  User :: "(string \<times> string option) option"
  Host :: string
  Path :: string
  RawQuery :: string
  Fragment :: string

definition http_url :: "string \<Rightarrow> URL" where
  "http_url h = \<lparr>Scheme = ''http'', User = None, Host = h, Path = [], RawQuery = [], Fragment = []\<rparr>"

definition url_error :: "string \<Rightarrow> error" where
  "url_error msg = External (''parse: '' @ msg)"

definition is_lower :: "char \<Rightarrow> bool" where
  "is_lower c \<longleftrightarrow> 97 \<le> byte c \<and> byte c \<le> 122"

definition is_upper :: "char \<Rightarrow> bool" where
  "is_upper c \<longleftrightarrow> 65 \<le> byte c \<and> byte c \<le> 90"

definition is_alpha :: "char \<Rightarrow> bool" where
  "is_alpha c \<longleftrightarrow> is_lower c \<or> is_upper c"

text \<open>Characters that may stand unescaped in the host part of a URL.\<close>

definition host_char :: "char \<Rightarrow> bool" where
  "host_char c \<longleftrightarrow>
     is_alpha c \<or> is_digit c \<or> c \<in> set ''-_.~!$&()*+,;=:[]<>'' \<or> byte c = 34 \<or> byte c = 39"

datatype enc_mode = encodePath | encodeHost | encodeZone | encodeOther

text \<open>\<open>url.unescape\<close>: undo percent escapes; in a host only a few escapes and characters are allowed.\<close>

fun url_unescape :: "enc_mode \<Rightarrow> string \<Rightarrow> string option" where
  "url_unescape mode [] = Some []"
| "url_unescape mode (c # s) =
     (if c = CHR ''%'' then
        (case s of
           h1 # h2 # t \<Rightarrow>
             (case (hex_val h1, hex_val h2) of
                (Some a, Some b) \<Rightarrow>
                  (let v = 16 * a + b in
                   if mode = encodeHost \<and> a < 8 \<and> v \<noteq> 37 then None
                   else if mode = encodeZone \<and> v \<noteq> 37 \<and> v \<noteq> 32 \<and> \<not> host_char (char_of v) then None
                   else map_option ((#) (char_of v)) (url_unescape mode t))
              | _ \<Rightarrow> None)
         | _ \<Rightarrow> None)
      else if (mode = encodeHost \<or> mode = encodeZone) \<and> byte c < 128 \<and> \<not> host_char c then None
      else map_option ((#) c) (url_unescape mode s))"

definition validOptionalPort :: "string \<Rightarrow> bool" where
  "validOptionalPort p \<longleftrightarrow> p = [] \<or> (hd p = CHR '':'' \<and> list_all is_digit (tl p))"

fun find_sub :: "string \<Rightarrow> string \<Rightarrow> nat option" where
  "find_sub pat s =
     (if prefix pat s then Some 0
      else case s of [] \<Rightarrow> None | _ # t \<Rightarrow> map_option Suc (find_sub pat t))"

declare find_sub.simps [simp del]

definition parseHost :: "string \<Rightarrow> error + string" where
  "parseHost host =
     (if host \<noteq> [] \<and> hd host = CHR ''['' then
        (case LastIndex host CHR '']'' of
           None \<Rightarrow> Inl (url_error ''missing ']' in host'')
         | Some i \<Rightarrow>
             if \<not> validOptionalPort (drop (Suc i) host) then Inl (url_error ''invalid port after host'')
             else
               (let z = (case find_sub ''%25'' (take i host) of None \<Rightarrow> i | Some z \<Rightarrow> z) in
                case (url_unescape encodeHost (take z host), url_unescape encodeZone (drop z (take i host)),
                      url_unescape encodeHost (drop i host)) of
                  (Some a, Some b, Some c) \<Rightarrow> Inr (a @ b @ c)
                | _ \<Rightarrow> Inl (url_error ''invalid character in host name'')))
      else if (case LastIndex host CHR '':'' of None \<Rightarrow> False
               | Some i \<Rightarrow> \<not> validOptionalPort (drop i host)) then Inl (url_error ''invalid port after host'')
      else
        (case url_unescape encodeHost host of
           None \<Rightarrow> Inl (url_error ''invalid character in host name'')
         | Some h \<Rightarrow> Inr h))"

definition userinfo_char :: "char \<Rightarrow> bool" where
  "userinfo_char c \<longleftrightarrow> is_alpha c \<or> is_digit c \<or> c \<in> set ''-._:~!$&()*+,;=%@'' \<or> byte c = 39"

definition cut :: "char \<Rightarrow> string \<Rightarrow> string \<times> string option" where
  "cut c s = (case Index s c of None \<Rightarrow> (s, None) | Some i \<Rightarrow> (take i s, Some (drop (Suc i) s)))"

definition parseUserinfo :: "string \<Rightarrow> error + string \<times> string option" where
  "parseUserinfo ui =
     (if \<not> list_all userinfo_char ui then Inl (url_error ''net/url: invalid userinfo'')
      else
        (case cut CHR '':'' ui of
           (u, None) \<Rightarrow>
             (case url_unescape encodeOther u of None \<Rightarrow> Inl (url_error ''invalid URL escape'')
              | Some n \<Rightarrow> Inr (n, None))
         | (u, Some p) \<Rightarrow>
             (case (url_unescape encodeOther u, url_unescape encodeOther p) of
                (Some n, Some q) \<Rightarrow> Inr (n, Some q)
              | _ \<Rightarrow> Inl (url_error ''invalid URL escape''))))"

definition parseAuthority :: "string \<Rightarrow> error + (string \<times> string option) option \<times> string" where
  "parseAuthority a =
     (case LastIndex a CHR ''@'' of
        None \<Rightarrow> (case parseHost a of Inl e \<Rightarrow> Inl e | Inr h \<Rightarrow> Inr (None, h))
      | Some i \<Rightarrow>
          (case parseHost (drop (Suc i) a) of
             Inl e \<Rightarrow> Inl e
           | Inr h \<Rightarrow>
               (case parseUserinfo (take i a) of Inl e \<Rightarrow> Inl e | Inr u \<Rightarrow> Inr (Some u, h))))"

text \<open>
  \<open>url.Parse\<close> of a string that starts with \<open>http://\<close>, the only prefix the sources build:
  control characters are refused, the fragment and the query are cut off, the authority ends
  at the first slash and the rest is the path.
\<close>

definition parse_http :: "string \<Rightarrow> error + URL" where
  "parse_http rest =
     (if list_ex (\<lambda>c. byte c < 32 \<or> byte c = 127) rest then
        Inl (url_error ''net/url: invalid control character in URL'')
      else
        (let (u, frag) = cut CHR ''#'' rest;
             (v, query) = cut CHR ''?'' u;
             (auth, path) = (case Index v CHR ''/'' of None \<Rightarrow> (v, []) | Some i \<Rightarrow> (take i v, drop i v)) in
         case parseAuthority auth of
           Inl e \<Rightarrow> Inl e
         | Inr (ui, h) \<Rightarrow>
             (case (url_unescape encodePath path, url_unescape encodeOther (case frag of None \<Rightarrow> [] | Some f \<Rightarrow> f)) of
                (Some p, Some f) \<Rightarrow>
                  Inr \<lparr>Scheme = ''http'', User = ui, Host = h, Path = p,
                       RawQuery = (case query of None \<Rightarrow> [] | Some q \<Rightarrow> q), Fragment = f\<rparr>
              | _ \<Rightarrow> Inl (url_error ''invalid URL escape''))))"

text \<open>\<open>URL.String\<close>, with the characters escaped that the part does not allow.\<close>

definition unreserved :: "char \<Rightarrow> bool" where
  "unreserved c \<longleftrightarrow> is_alpha c \<or> is_digit c \<or> c \<in> set ''-_.~''"

definition path_char :: "char \<Rightarrow> bool" where
  "path_char c \<longleftrightarrow> unreserved c \<or> c \<in> set ''$&+,/:;=@''"

definition user_char :: "char \<Rightarrow> bool" where
  "user_char c \<longleftrightarrow> unreserved c \<or> c \<in> set ''$&+,;=''"

definition fragment_char :: "char \<Rightarrow> bool" where
  "fragment_char c \<longleftrightarrow> unreserved c \<or> c \<in> set ''$&+,/:;=?@!()*''"

definition upper_hex :: "nat \<Rightarrow> char" where
  "upper_hex n = (if n < 10 then char_of (48 + n) else char_of (55 + n))"

definition url_escape :: "(char \<Rightarrow> bool) \<Rightarrow> string \<Rightarrow> string" where
  "url_escape ok s =
     concat (map (\<lambda>c. if ok c then [c]
                      else [CHR ''%'', upper_hex (byte c div 16), upper_hex (byte c mod 16)]) s)"

definition URL_String :: "URL \<Rightarrow> string" where
  "URL_String u =
     (let path = (if Path u = ''*'' then ''*'' else url_escape path_char (Path u)) in
      (if Scheme u \<noteq> [] then Scheme u @ '':'' else []) @
      (if (Scheme u \<noteq> [] \<or> Host u \<noteq> [] \<or> User u \<noteq> None) \<and> (Host u \<noteq> [] \<or> Path u \<noteq> [] \<or> User u \<noteq> None)
       then ''//'' else []) @
      (case User u of None \<Rightarrow> []
       | Some (n, None) \<Rightarrow> url_escape user_char n @ ''@''
       | Some (n, Some q) \<Rightarrow> url_escape user_char n @ '':'' @ url_escape user_char q @ ''@'') @
      url_escape host_char (Host u) @
      (if path \<noteq> [] \<and> hd path \<noteq> CHR ''/'' \<and> Host u \<noteq> [] then ''/'' else []) @ path @
      (if RawQuery u \<noteq> [] then ''?'' @ RawQuery u else []) @
      (if Fragment u \<noteq> [] then ''#'' @ url_escape fragment_char (Fragment u) else []))"

lemma url_escape_id: "list_all ok s \<Longrightarrow> url_escape ok s = s"
  by (induction s) (auto simp: url_escape_def)

text \<open>Host names as Kubernetes and DNS write them, and IPv4 addresses.\<close>

definition dns_char :: "char \<Rightarrow> bool" where
  "dns_char c \<longleftrightarrow> is_alpha c \<or> is_digit c \<or> c = CHR ''-'' \<or> c = CHR ''.''"

lemma dns_char_facts:
  assumes "dns_char c"
  shows "c \<noteq> CHR ''%''" "host_char c" "\<not> byte c < 32" "byte c \<noteq> 127"
    "c \<noteq> CHR '':''" "c \<noteq> CHR ''['' " "c \<noteq> CHR ''@''" "c \<noteq> CHR ''/''" "c \<noteq> CHR ''#''" "c \<noteq> CHR ''?''"
  using assms
  by (auto simp: dns_char_def host_char_def is_alpha_def is_lower_def is_upper_def is_digit_def byte_def)

lemma is_digit_facts:
  assumes "is_digit c"
  shows "dns_char c"
  using assms by (simp add: dns_char_def)

lemma url_unescape_host:
  "list_all (\<lambda>c. host_char c \<and> c \<noteq> CHR ''%'') h \<Longrightarrow> url_unescape encodeHost h = Some h"
  by (induction h) auto

definition authority_char :: "char \<Rightarrow> bool" where
  "authority_char c \<longleftrightarrow> dns_char c \<or> c = CHR '':''"

lemma authority_char_facts:
  assumes "authority_char c"
  shows "c \<noteq> CHR ''%''" "host_char c" "\<not> byte c < 32" "byte c \<noteq> 127"
    "c \<noteq> CHR ''[''" "c \<noteq> CHR ''@''" "c \<noteq> CHR ''/''" "c \<noteq> CHR ''#''" "c \<noteq> CHR ''?''"
proof -
  have "host_char CHR '':''" by code_simp
  moreover have "\<not> authority_char CHR ''%''" "\<not> authority_char CHR ''[''" "\<not> authority_char CHR ''@''"
    "\<not> authority_char CHR ''/''" "\<not> authority_char CHR ''#''" "\<not> authority_char CHR ''?''"
    by code_simp+
  moreover have "\<not> byte CHR '':'' < 32" "byte CHR '':'' \<noteq> 127" by (simp_all add: byte_def)
  ultimately show "c \<noteq> CHR ''%''" "host_char c" "\<not> byte c < 32" "byte c \<noteq> 127"
    "c \<noteq> CHR ''[''" "c \<noteq> CHR ''@''" "c \<noteq> CHR ''/''" "c \<noteq> CHR ''#''" "c \<noteq> CHR ''?''"
    using assms dns_char_facts(2-4) [of c] by (auto simp: authority_char_def)
qed

lemma authority_list:
  assumes "list_all authority_char a"
  shows "LastIndex a CHR ''@'' = None" "Index a CHR ''/'' = None" "Index a CHR ''#'' = None"
    "Index a CHR ''?'' = None" "\<not> list_ex (\<lambda>c. byte c < 32 \<or> byte c = 127) a" "url_unescape encodeHost a = Some a"
    "a \<noteq> [] \<Longrightarrow> hd a \<noteq> CHR ''[''"
proof -
  have a: "authority_char c" if "c \<in> set a" for c using assms that by (simp add: list_all_iff)
  note facts = authority_char_facts [OF a]
  show "LastIndex a CHR ''@'' = None" "Index a CHR ''/'' = None" "Index a CHR ''#'' = None"
    "Index a CHR ''?'' = None"
    using facts(6-9) by auto
  show "\<not> list_ex (\<lambda>c. byte c < 32 \<or> byte c = 127) a" using facts(3,4) by (auto simp: list_ex_iff)
  show "url_unescape encodeHost a = Some a"
    using facts(1,2) by (intro url_unescape_host) (auto simp: list_all_iff)
  show "hd a \<noteq> CHR ''[''" if "a \<noteq> []" using facts(5) hd_in_set [OF that] by blast
qed

lemma parse_http_authority:
  assumes "list_all authority_char a"
  shows "parse_http a = (case parseHost a of Inl e \<Rightarrow> Inl e | Inr h \<Rightarrow> Inr (http_url h))"
  by (simp add: authority_list(1-5) [OF assms] parse_http_def cut_def parseAuthority_def http_url_def
      del: Index_None LastIndex_None split: sum.split)

lemma list_all_authority:
  "list_all dns_char h \<Longrightarrow> list_all authority_char (h @ CHR '':'' # show_int i)"
  using show_nat_digits
  by (auto simp: list_all_iff authority_char_def show_int_def dns_char_def)

lemma validOptionalPort_show_int: "validOptionalPort (CHR '':'' # show_int i) \<longleftrightarrow> 0 \<le> i"
  using show_nat_digits by (auto simp: validOptionalPort_def show_int_def list_all_iff)

lemma parseHost_port:
  assumes "list_all dns_char h"
  shows "parseHost (h @ CHR '':'' # show_int i) =
    (if 0 \<le> i then Inr (h @ CHR '':'' # show_int i) else Inl (url_error ''invalid port after host''))"
proof -
  have "CHR '':'' \<notin> set (show_int i)"
    using show_nat_digits is_digit_facts dns_char_facts(5) by (auto simp: show_int_def)
  then have "LastIndex (h @ CHR '':'' # show_int i) CHR '':'' = Some (length h)"
    by (rule LastIndex_append)
  then show ?thesis
    using authority_list(6,7) [OF list_all_authority [OF assms]]
    by (simp add: parseHost_def validOptionalPort_show_int)
qed

lemma parse_http_port:
  assumes "list_all dns_char h"
  shows "parse_http (h @ CHR '':'' # show_int i) =
    (if 0 \<le> i then Inr (http_url (h @ CHR '':'' # show_int i))
     else Inl (url_error ''invalid port after host''))"
  using parse_http_authority [OF list_all_authority [OF assms]] parseHost_port [OF assms] by simp

end
