(* ===== verification/Queue.thy ===== *)
theory Queue
  imports Http
begin

text \<open>
  The pending-request queue of \<open>pkg/queue\<close>: the snapshot type \<open>Counts\<close> with its JSON form, the
  in-memory counter \<open>Memory\<close> with its postponed resizes, the fakes the tests use, and the RPC
  by which the scaler reads an interceptor's counts. The interface \<open>Counter\<close> is a record of
  operations; the locale \<open>counter\<close> states the contract written in \<open>queue.go\<close> and is
  interpreted on \<open>Memory\<close>.
\<close>

section \<open>Counts\<close>

record Counts =
  Counts_m :: "gint gomap"   \<comment> \<open>field \<open>Counts\<close>\<close>

definition NewCounts :: Counts where
  "NewCounts = \<lparr>Counts_m = Some fmempty\<rparr>"

text \<open>The loop over the map, on the entries in some order.\<close>

definition aggregate_loop :: "(string \<times> gint) list \<Rightarrow> gint" where
  "aggregate_loop xs = foldl (\<lambda>agg (_, n). agg + n) 0 xs"

definition Counts_Aggregate :: "Counts \<Rightarrow> gint" where
  "Counts_Aggregate q = aggregate_loop (entries (Counts_m q))"

definition Counts_MarshalJSON :: "Counts \<Rightarrow> json" where
  "Counts_MarshalJSON q = encode_map json_int (Counts_m q)"

text \<open>\<open>json.Unmarshal\<close> of a text that holds one value (and white space) into \<open>q.Counts\<close>.\<close>

definition Counts_UnmarshalJSON :: "Counts \<Rightarrow> json \<Rightarrow> Counts \<times> error option" where
  "Counts_UnmarshalJSON q j =
     (let (m, err) = decode_map (decode_int 0) (Counts_m q) j in (q\<lparr>Counts_m := m\<rparr>, err))"

definition Counts_String :: "Counts \<Rightarrow> string" where
  "Counts_String q =
     ''map['' @ Join (map (\<lambda>(k, v). k @ '':'' @ fmt_d v) (entries (Counts_m q))) CHR '' '' @ '']''"

section \<open>Memory\<close>

record Memory =
  countMap :: "gint smap"
  postponedResizes :: "gotime smap"
  postponeDuration :: gint
  shouldPostpone :: bool

definition NewMemory :: "gint \<Rightarrow> bool \<Rightarrow> Memory" where
  "NewMemory d b =
     \<lparr>countMap = fmempty, postponedResizes = fmempty, postponeDuration = d, shouldPostpone = b\<rparr>"

text \<open>A map read yields the zero value for a missing key.\<close>

definition count_of :: "gint smap \<Rightarrow> string \<Rightarrow> gint" where
  "count_of m host = (case fmlookup m host of None \<Rightarrow> 0 | Some n \<Rightarrow> n)"

definition Memory_Resize :: "string \<Rightarrow> gint \<Rightarrow> Memory \<Rightarrow> Memory \<times> error option" where
  "Memory_Resize host delta r =
     (r\<lparr>countMap := fmupd host (count_of (countMap r) host + delta) (countMap r)\<rparr>, None)"

definition Memory_Ensure :: "string \<Rightarrow> Memory \<Rightarrow> Memory" where
  "Memory_Ensure host r =
     (case fmlookup (countMap r) host of
        None \<Rightarrow> r\<lparr>countMap := fmupd host 0 (countMap r)\<rparr>
      | Some _ \<Rightarrow> r)"

definition Memory_Remove :: "string \<Rightarrow> Memory \<Rightarrow> Memory \<times> bool" where
  "Memory_Remove host r =
     (r\<lparr>countMap := fmdrop host (countMap r)\<rparr>, fmlookup (countMap r) host \<noteq> None)"

definition Memory_Current :: "Memory \<Rightarrow> error + Counts" where
  "Memory_Current r = Inr (NewCounts\<lparr>Counts_m := Some (countMap r)\<rparr>)"

definition Memory_Count :: "string \<Rightarrow> Memory \<Rightarrow> gint" where
  "Memory_Count host r = (case fmlookup (countMap r) host of None \<Rightarrow> 0 | Some n \<Rightarrow> n)"

definition Memory_PostponeResize :: "string \<Rightarrow> gotime \<Rightarrow> Memory \<Rightarrow> Memory" where
  "Memory_PostponeResize host time r = r\<lparr>postponedResizes := fmupd host time (postponedResizes r)\<rparr>"

definition Memory_PostponeDuration :: "Memory \<Rightarrow> gint" where
  "Memory_PostponeDuration r = postponeDuration r"

definition Memory_ShouldPostponeResize :: "Memory \<Rightarrow> bool" where
  "Memory_ShouldPostponeResize r = shouldPostpone r"

text \<open>
  One turn of the loop of \<open>ProcessPostponedResizes\<close> after its sleep. The first lock section
  reads the entries of the map in some order, with a clock reading per entry; the second
  resets the hosts the first selected. Other goroutines can run between the two.
\<close>

fun collect_due :: "Memory \<Rightarrow> (string \<times> gotime) list \<Rightarrow> gotime list \<Rightarrow> string list" where
  "collect_due r ((host, resizeTime) # es) (now # nows) =
     (if resizeTime < now \<and> count_of (countMap r) host = 1 then host # collect_due r es nows
      else collect_due r es nows)"
| "collect_due r _ _ = []"

definition reset_host :: "string \<Rightarrow> Memory \<Rightarrow> Memory" where
  "reset_host host r =
     r\<lparr>countMap := fmupd host 0 (countMap r), postponedResizes := fmdrop host (postponedResizes r)\<rparr>"

definition reset_hosts :: "string list \<Rightarrow> Memory \<Rightarrow> Memory" where
  "reset_hosts hostsToModify r = fold reset_host hostsToModify r"

text \<open>The turn with nothing running between the two sections.\<close>

definition process_turn :: "(string \<times> gotime) list \<Rightarrow> gotime list \<Rightarrow> Memory \<Rightarrow> Memory" where
  "process_turn es nows r = reset_hosts (collect_due r es nows) r"

section \<open>The Counter interface\<close>

record 's Counter =
  c_Current :: "'s \<Rightarrow> (error + Counts) go"
  c_Count :: "string \<Rightarrow> 's \<Rightarrow> gint go"
  c_PostponeDuration :: "'s \<Rightarrow> gint go"
  c_ShouldPostponeResize :: "'s \<Rightarrow> bool go"
  c_Resize :: "string \<Rightarrow> gint \<Rightarrow> 's \<Rightarrow> ('s \<times> error option) go"
  c_Ensure :: "string \<Rightarrow> 's \<Rightarrow> 's go"
  c_Remove :: "string \<Rightarrow> 's \<Rightarrow> ('s \<times> bool) go"
  c_PostponeResize :: "string \<Rightarrow> gotime \<Rightarrow> 's \<Rightarrow> 's go"

definition Memory_Counter :: "Memory Counter" where
  "Memory_Counter =
     \<lparr>c_Current = \<lambda>r. Ret (Memory_Current r),
      c_Count = \<lambda>host r. Ret (Memory_Count host r),
      c_PostponeDuration = \<lambda>r. Ret (Memory_PostponeDuration r),
      c_ShouldPostponeResize = \<lambda>r. Ret (Memory_ShouldPostponeResize r),
      c_Resize = \<lambda>host delta r. Ret (Memory_Resize host delta r),
      c_Ensure = \<lambda>host r. Ret (Memory_Ensure host r),
      c_Remove = \<lambda>host r. Ret (Memory_Remove host r),
      c_PostponeResize = \<lambda>host time r. Ret (Memory_PostponeResize host time r)\<rparr>"

section \<open>Fakes\<close>

record HostAndCount =
  hc_Host :: string
  hc_Count :: gint

text \<open>
  \<open>ResizedCh\<close> is unbuffered: the model keeps what receivers have taken from it. Whether a
  receiver is ready before the timeout is the scheduler's choice, the argument \<open>received\<close>.
\<close>

record FakeCounter =
  RetMap :: "gint smap"
  ResizedCh :: "HostAndCount list"
  ResizeTimeout :: gint

definition unimplemented :: "'a go" where
  "unimplemented = Panic ''unimplemented''"

definition NewFakeCounter :: FakeCounter where
  "NewFakeCounter = \<lparr>RetMap = fmempty, ResizedCh = [], ResizeTimeout = 1 * second\<rparr>"

definition FakeCounter_Resize :: "bool \<Rightarrow> string \<Rightarrow> gint \<Rightarrow> FakeCounter \<Rightarrow> FakeCounter \<times> error option" where
  "FakeCounter_Resize received host i f =
     (let f' = f\<lparr>RetMap := fmupd host (count_of (RetMap f) host + i) (RetMap f)\<rparr> in
      if received then
        (f'\<lparr>ResizedCh := ResizedCh f' @ [\<lparr>hc_Host = host, hc_Count = i\<rparr>]\<rparr>, None)
      else (f', Some (Errorf (''FakeCounter.Resize timeout after '' @ Duration_String (ResizeTimeout f)))))"

definition FakeCounter_Ensure :: "string \<Rightarrow> FakeCounter \<Rightarrow> FakeCounter" where
  "FakeCounter_Ensure host f = f\<lparr>RetMap := fmupd host 0 (RetMap f)\<rparr>"

definition FakeCounter_Remove :: "string \<Rightarrow> FakeCounter \<Rightarrow> FakeCounter \<times> bool" where
  "FakeCounter_Remove host f =
     (f\<lparr>RetMap := fmdrop host (RetMap f)\<rparr>, fmlookup (RetMap f) host \<noteq> None)"

definition FakeCounter_Current :: "FakeCounter \<Rightarrow> error + Counts" where
  "FakeCounter_Current f = Inr (NewCounts\<lparr>Counts_m := Some (RetMap f)\<rparr>)"

definition FakeCounter_Counter :: "bool \<Rightarrow> FakeCounter Counter" where
  "FakeCounter_Counter received =
     \<lparr>c_Current = \<lambda>f. Ret (FakeCounter_Current f),
      c_Count = \<lambda>host f. unimplemented,
      c_PostponeDuration = \<lambda>f. unimplemented,
      c_ShouldPostponeResize = \<lambda>f. unimplemented,
      c_Resize = \<lambda>host i f. Ret (FakeCounter_Resize received host i f),
      c_Ensure = \<lambda>host f. Ret (FakeCounter_Ensure host f),
      c_Remove = \<lambda>host f. Ret (FakeCounter_Remove host f),
      c_PostponeResize = \<lambda>host time f. unimplemented\<rparr>"

record FakeCountReader =
  fcr_current :: gint
  fcr_err :: "error option"

text \<open>The pair of results, since this reader returns counts beside its error.\<close>

definition FakeCountReader_Current :: "FakeCountReader \<Rightarrow> Counts \<times> error option" where
  "FakeCountReader_Current f =
     (NewCounts\<lparr>Counts_m := Some (fmap_of_list [(''sample.com'', fcr_current f)])\<rparr>, fcr_err f)"

section \<open>The counts RPC\<close>

definition countsPath :: string where
  "countsPath = ''/queue''"

text \<open>\<open>cur\<close> is what \<open>q.Current()\<close> returns; the error, if there is one, is looked at first.\<close>

definition newSizeHandler :: "Counts \<times> error option \<Rightarrow> ResponseWriter \<Rightarrow> ResponseWriter" where
  "newSizeHandler current w =
     (case current of
        (_, Some err) \<Rightarrow> fst (Write ''error getting queue size'' (WriteHeader 500 w))
      | (cur, None) \<Rightarrow>
          (case EncodeTo (Counts_MarshalJSON cur) w of
             (w', Some err) \<Rightarrow> fst (Write ''error encoding queue counts'' (WriteHeader 500 w'))
           | (w', None) \<Rightarrow> w'))"

definition AddCountsRoute ::
    "(ResponseWriter \<Rightarrow> ResponseWriter) ServeMux \<Rightarrow> Counts \<times> error option \<Rightarrow>
     (ResponseWriter \<Rightarrow> ResponseWriter) ServeMux go" where
  "AddCountsRoute mux current = Handle countsPath (newSizeHandler current) mux"

definition eof_error :: error where
  "eof_error = External ''EOF''"

text \<open>\<open>json.NewDecoder(body).Decode\<close>: the first JSON value of the stream.\<close>

definition decode_first :: "string \<Rightarrow> error + json" where
  "decode_first body =
     (if skip_ws body = [] then Inl eof_error
      else case json_parse body of None \<Rightarrow> Inl syntax_error | Some (j, _) \<Rightarrow> Inr j)"

text \<open>\<open>get\<close> is the HTTP client: the body of the response to a GET of the URL, or an error.\<close>

definition GetCounts :: "(string \<Rightarrow> error + string) \<Rightarrow> URL \<Rightarrow> error + Counts" where
  "GetCounts get interceptorURL =
     (let url = URL_String (interceptorURL\<lparr>Path := countsPath\<rparr>);
          decoding = ''decoding response from the interceptor at '' @ url in
      case get url of
        Inl err \<Rightarrow> Inl (Wrap err (''requesting the queue counts from '' @ url))
      | Inr body \<Rightarrow>
          (case decode_first body of
             Inl err \<Rightarrow> Inl (Wrap err decoding)
           | Inr j \<Rightarrow>
               (case Counts_UnmarshalJSON NewCounts j of
                  (counts, Some err) \<Rightarrow> Inl (Wrap err decoding)
                | (counts, None) \<Rightarrow> Inr counts)))"

section \<open>Facts about Counts\<close>

lemma aggregate_loop_acc: "foldl (\<lambda>agg (_, n). agg + n) a xs = a + (\<Sum>(_, n) \<leftarrow> xs. n :: gint)"
  by (induction xs arbitrary: a) (auto simp: algebra_simps)

lemma aggregate_loop_sum: "aggregate_loop xs = (\<Sum>(_, n) \<leftarrow> xs. n)"
  by (simp add: aggregate_loop_def aggregate_loop_acc)

lemma aggregate_loop_mset: "mset xs = mset ys \<Longrightarrow> aggregate_loop xs = aggregate_loop ys"
  unfolding aggregate_loop_sum by (metis mset_map sum_mset_sum_list)

lemma Counts_roundtrip_value:
  "Counts_UnmarshalJSON NewCounts (Counts_MarshalJSON c) = (c, None)"
proof (cases "Counts_m c")
  case None
  then show ?thesis
    by (cases c) (simp add: Counts_UnmarshalJSON_def Counts_MarshalJSON_def encode_map_def decode_map_def)
next
  case (Some f)
  then show ?thesis
    by (cases c) (simp add: Counts_UnmarshalJSON_def Counts_MarshalJSON_def NewCounts_def decode_encode_map)
qed

definition valid_hosts :: "'v gomap \<Rightarrow> bool" where
  "valid_hosts m \<longleftrightarrow> list_all (\<lambda>(k, v). valid_utf8 k) (entries m)"

lemma valid_hostsD: "valid_hosts m \<Longrightarrow> map_get m k = Some v \<Longrightarrow> valid_utf8 k"
  by (cases m) (auto simp: valid_hosts_def list_all_iff set_sorted_list_of_fmap)

lemma json_wf_Counts: "valid_hosts (Counts_m c) \<Longrightarrow> json_wf (Counts_MarshalJSON c)"
  unfolding Counts_MarshalJSON_def by (rule json_wf_encode_map) (auto dest: valid_hostsD)

lemma decode_first_print:
  assumes "json_wf j"
  shows "decode_first (json_print j @ [newline]) = Inr j"
proof -
  have p: "json_parse (json_print j @ [newline]) = Some (j, [newline])"
    using assms by (rule json_parse_print) (simp add: num_end_def newline_def is_digit_def)
  then have "skip_ws (json_print j @ [newline]) \<noteq> []"
    by (auto simp: json_parse_def parse_value.simps(2))
  with p show ?thesis by (simp add: decode_first_def)
qed

section \<open>Facts about Memory\<close>

lemma Memory_Count_count_of: "Memory_Count host r = count_of (countMap r) host"
  by (simp add: Memory_Count_def count_of_def)

lemma count_of_fmupd [simp]: "count_of (fmupd k n m) h = (if h = k then n else count_of m h)"
  by (simp add: count_of_def)

lemma count_of_fmdrop [simp]: "count_of (fmdrop k m) h = (if h = k then 0 else count_of m h)"
  by (simp add: count_of_def)

lemma count_of_fmempty [simp]: "count_of fmempty h = 0"
  by (simp add: count_of_def)

lemmas memory_ops = Memory_Resize_def Memory_Ensure_def Memory_Remove_def Memory_PostponeResize_def
  Memory_PostponeDuration_def Memory_ShouldPostponeResize_def

lemma Count_Resize [simp]:
  "Memory_Count h (fst (Memory_Resize host d r)) =
    (if h = host then Memory_Count host r + d else Memory_Count h r)"
  by (simp add: Memory_Count_count_of Memory_Resize_def)

lemma Count_Ensure [simp]: "Memory_Count h (Memory_Ensure host r) = Memory_Count h r"
  by (auto simp: Memory_Ensure_def Memory_Count_def split: option.split)

lemma Count_Remove [simp]:
  "Memory_Count h (fst (Memory_Remove host r)) = (if h = host then 0 else Memory_Count h r)"
  by (simp add: Memory_Count_count_of Memory_Remove_def)

lemma Count_PostponeResize [simp]: "Memory_Count h (Memory_PostponeResize host t r) = Memory_Count h r"
  by (simp add: Memory_Count_def Memory_PostponeResize_def)

lemma reset_host_count [simp]:
  "count_of (countMap (reset_host h r)) k = (if k = h then 0 else count_of (countMap r) k)"
  "fmlookup (postponedResizes (reset_host h r)) k = (if k = h then None else fmlookup (postponedResizes r) k)"
  by (simp_all add: reset_host_def)

lemma reset_hosts_count:
  "count_of (countMap (reset_hosts hs r)) k = (if k \<in> set hs then 0 else count_of (countMap r) k)"
  "fmlookup (postponedResizes (reset_hosts hs r)) k =
    (if k \<in> set hs then None else fmlookup (postponedResizes r) k)"
  unfolding reset_hosts_def by (induction hs arbitrary: r) auto

lemma collect_due_subset: "h \<in> set (collect_due r es nows) \<Longrightarrow> h \<in> fst ` set es \<and> count_of (countMap r) h = 1"
  by (induction r es nows rule: collect_due.induct) (auto split: if_splits)

section \<open>The contract of a Counter\<close>

text \<open>
  What \<open>queue.go\<close> documents of the interface: \<open>Resize\<close> adds to one host, \<open>Ensure\<close> leaves every
  count as it is, \<open>Remove\<close> drops one host and says whether it was there, \<open>Current\<close> shows every
  count that is not zero, postponing changes no count, and no operation panics.
\<close>

locale counter =
  fixes C :: "'s Counter" and cnt :: "'s \<Rightarrow> string \<Rightarrow> gint" and has :: "'s \<Rightarrow> string \<Rightarrow> bool"
  assumes Count_law: "c_Count C h s = Ret (cnt s h)"
    and absent_law: "\<not> has s h \<Longrightarrow> cnt s h = 0"
    and Resize_law: "\<exists>s'. c_Resize C host d s = Ret (s', None) \<and>
      cnt s' = (cnt s)(host := cnt s host + d) \<and> has s' = (has s)(host := True)"
    and Ensure_law: "\<exists>s'. c_Ensure C host s = Ret s' \<and> cnt s' = cnt s \<and> has s' = (has s)(host := True)"
    and Remove_law: "\<exists>s'. c_Remove C host s = Ret (s', has s host) \<and>
      cnt s' = (cnt s)(host := 0) \<and> has s' = (has s)(host := False)"
    and Current_law: "\<exists>m. c_Current C s = Ret (Inr \<lparr>Counts_m = Some m\<rparr>) \<and>
      (\<forall>h. fmlookup m h = (if has s h then Some (cnt s h) else None))"
    and Postpone_law: "\<exists>s'. c_PostponeResize C host t s = Ret s' \<and> cnt s' = cnt s \<and> has s' = has s"
begin

fun resize_all :: "(string \<times> gint) list \<Rightarrow> 's \<Rightarrow> 's go" where
  "resize_all [] s = Ret s"
| "resize_all ((host, d) # xs) s =
     (case c_Resize C host d s of
        Ret (s', None) \<Rightarrow> resize_all xs s'
      | Ret (s', Some _) \<Rightarrow> Ret s'
      | Panic msg \<Rightarrow> Panic msg)"

lemma resize_all_cnt:
  "\<exists>s'. resize_all xs s = Ret s' \<and> (\<forall>h. cnt s' h = cnt s h + (\<Sum>(k, d) \<leftarrow> xs. if k = h then d else 0))"
proof (induction xs arbitrary: s)
  case (Cons x xs)
  obtain host d where x: "x = (host, d)" by (cases x)
  obtain s1 where s1: "c_Resize C host d s = Ret (s1, None)" "cnt s1 = (cnt s)(host := cnt s host + d)"
    using Resize_law by blast
  obtain s' where "resize_all xs s1 = Ret s'"
    "\<forall>h. cnt s' h = cnt s1 h + (\<Sum>(k, d) \<leftarrow> xs. if k = h then d else 0)"
    using Cons.IH by blast
  then show ?case using x s1 by (auto simp: algebra_simps)
qed simp

lemma resize_balanced:
  assumes "c_Resize C host d s = Ret (s1, e1)" "c_Resize C host (- d) s1 = Ret (s2, e2)"
  shows "cnt s2 = cnt s"
  using Resize_law [of host d s] Resize_law [of host "- d" s1] assms by (auto simp: fun_eq_iff)

lemma ensure_idem:
  assumes "c_Ensure C host s = Ret s1" "c_Ensure C host s1 = Ret s2"
  shows "cnt s2 = cnt s \<and> has s2 = has s1"
  using Ensure_law [of host s] Ensure_law [of host s1] assms by auto

lemma current_after_resize:
  assumes "c_Resize C host d s = Ret (s1, e)" "c_Current C s1 = Ret (Inr q)"
  shows "map_get (Counts_m q) host = Some (cnt s host + d)"
  using Resize_law [of host d s] Current_law [of s1] assms by auto

end

definition Memory_has :: "Memory \<Rightarrow> string \<Rightarrow> bool" where
  "Memory_has r host \<longleftrightarrow> fmlookup (countMap r) host \<noteq> None"

interpretation mem: counter Memory_Counter "\<lambda>r h. Memory_Count h r" Memory_has
proof unfold_locales
  fix host :: string and d :: gint and s :: Memory and t :: gotime and h :: string
  show "c_Count Memory_Counter h s = Ret (Memory_Count h s)" by (simp add: Memory_Counter_def)
  show "Memory_Count h s = 0" if "\<not> Memory_has s h"
    using that by (simp add: Memory_has_def Memory_Count_def)
  show "\<exists>s'. c_Resize Memory_Counter host d s = Ret (s', None) \<and>
      (\<lambda>h. Memory_Count h s') = (\<lambda>h. Memory_Count h s)(host := Memory_Count host s + d) \<and>
      Memory_has s' = (Memory_has s)(host := True)"
    by (auto simp: Memory_Counter_def Memory_Resize_def Memory_Count_count_of Memory_has_def fun_eq_iff)
  show "\<exists>s'. c_Ensure Memory_Counter host s = Ret s' \<and> (\<lambda>h. Memory_Count h s') = (\<lambda>h. Memory_Count h s) \<and>
      Memory_has s' = (Memory_has s)(host := True)"
    by (auto simp: Memory_Counter_def Memory_Ensure_def Memory_Count_def Memory_has_def fun_eq_iff
        split: option.split)
  show "\<exists>s'. c_Remove Memory_Counter host s = Ret (s', Memory_has s host) \<and>
      (\<lambda>h. Memory_Count h s') = (\<lambda>h. Memory_Count h s)(host := 0) \<and>
      Memory_has s' = (Memory_has s)(host := False)"
    by (auto simp: Memory_Counter_def Memory_Remove_def Memory_Count_count_of Memory_has_def fun_eq_iff)
  show "\<exists>m. c_Current Memory_Counter s = Ret (Inr \<lparr>Counts_m = Some m\<rparr>) \<and>
      (\<forall>h. fmlookup m h = (if Memory_has s h then Some (Memory_Count h s) else None))"
    by (auto simp: Memory_Counter_def Memory_Current_def NewCounts_def Memory_has_def Memory_Count_def
        split: option.split)
  show "\<exists>s'. c_PostponeResize Memory_Counter host t s = Ret s' \<and>
      (\<lambda>h. Memory_Count h s') = (\<lambda>h. Memory_Count h s) \<and> Memory_has s' = Memory_has s"
    by (auto simp: Memory_Counter_def Memory_PostponeResize_def Memory_Count_def Memory_has_def)
qed

section \<open>Memory as an abstract counter machine\<close>

text \<open>
  The abstract state has a count for every host and the postponed hosts with their times. The
  turn of the enforcer sets to zero the hosts that are due and have a count of one.
\<close>

datatype memory_op =
    OpResize string gint
  | OpEnsure string
  | OpRemove string
  | OpPostpone string gotime
  | OpTurn "(string \<times> gotime) list" "string \<Rightarrow> gotime"
    \<comment> \<open>the order in which the map is read, and the clock reading at each host\<close>

fun memory_do :: "memory_op \<Rightarrow> Memory \<Rightarrow> Memory" where
  "memory_do (OpResize h d) r = fst (Memory_Resize h d r)"
| "memory_do (OpEnsure h) r = Memory_Ensure h r"
| "memory_do (OpRemove h) r = fst (Memory_Remove h r)"
| "memory_do (OpPostpone h t) r = Memory_PostponeResize h t r"
| "memory_do (OpTurn es clk) r = process_turn es (map (clk \<circ> fst) es) r"

text \<open>An enforcer's turn ranges over the postponed map, each entry once.\<close>

fun memory_ok :: "memory_op \<Rightarrow> Memory \<Rightarrow> bool" where
  "memory_ok (OpTurn es clk) r \<longleftrightarrow> mset es = mset (sorted_list_of_fmap (postponedResizes r))"
| "memory_ok _ r \<longleftrightarrow> True"

record abs_counter =
  ac_count :: "string \<Rightarrow> gint"
  ac_due :: "string \<Rightarrow> gotime option"

definition abs_memory :: "Memory \<Rightarrow> abs_counter" where
  "abs_memory r = \<lparr>ac_count = \<lambda>h. Memory_Count h r, ac_due = fmlookup (postponedResizes r)\<rparr>"

definition turn_hits :: "(string \<Rightarrow> gotime) \<Rightarrow> abs_counter \<Rightarrow> string \<Rightarrow> bool" where
  "turn_hits clk a h \<longleftrightarrow> (case ac_due a h of None \<Rightarrow> False | Some t \<Rightarrow> t < clk h \<and> ac_count a h = 1)"

fun abs_do :: "memory_op \<Rightarrow> abs_counter \<Rightarrow> abs_counter" where
  "abs_do (OpResize h d) a = a\<lparr>ac_count := (ac_count a)(h := ac_count a h + d)\<rparr>"
| "abs_do (OpEnsure h) a = a"
| "abs_do (OpRemove h) a = a\<lparr>ac_count := (ac_count a)(h := 0)\<rparr>"
| "abs_do (OpPostpone h t) a = a\<lparr>ac_due := (ac_due a)(h := Some t)\<rparr>"
| "abs_do (OpTurn es clk) a =
     \<lparr>ac_count = \<lambda>h. if turn_hits clk a h then 0 else ac_count a h,
      ac_due = \<lambda>h. if turn_hits clk a h then None else ac_due a h\<rparr>"

lemma collect_due_map:
  "h \<in> set (collect_due r es (map (clk \<circ> fst) es)) \<longleftrightarrow>
    (\<exists>t. (h, t) \<in> set es \<and> t < clk h \<and> count_of (countMap r) h = 1)"
  by (induction es) (auto split: if_splits)

lemma collect_due_clk:
  assumes "mset es = mset (sorted_list_of_fmap (postponedResizes r))"
  shows "h \<in> set (collect_due r es (map (clk \<circ> fst) es)) \<longleftrightarrow> turn_hits clk (abs_memory r) h"
proof -
  have "set es = set (sorted_list_of_fmap (postponedResizes r))" using assms by (rule mset_eq_setD)
  then have es: "(k, t) \<in> set es \<longleftrightarrow> fmlookup (postponedResizes r) k = Some t" for k t
    by (simp add: set_sorted_list_of_fmap)
  show ?thesis
    by (auto simp: collect_due_map es turn_hits_def abs_memory_def Memory_Count_count_of split: option.split)
qed

lemma abs_memory_do: "memory_ok op r \<Longrightarrow> abs_memory (memory_do op r) = abs_do op (abs_memory r)"
proof (cases op)
  case (OpTurn es clk)
  assume "memory_ok op r"
  with OpTurn have hit: "h \<in> set (collect_due r es (map (clk \<circ> fst) es)) \<longleftrightarrow> turn_hits clk (abs_memory r) h" for h
    by (intro collect_due_clk) simp
  show ?thesis
    unfolding OpTurn memory_do.simps abs_do.simps process_turn_def
    by (simp add: abs_memory_def [of "reset_hosts _ _"] Memory_Count_count_of reset_hosts_count hit fun_eq_iff)
      (simp add: abs_memory_def Memory_Count_count_of)
qed (auto simp: abs_memory_def fun_eq_iff memory_ops Memory_Count_def count_of_def split: option.split)

fun memory_run :: "memory_op list \<Rightarrow> Memory \<Rightarrow> Memory" where
  "memory_run [] r = r"
| "memory_run (op # ops) r = memory_run ops (memory_do op r)"

fun memory_run_ok :: "memory_op list \<Rightarrow> Memory \<Rightarrow> bool" where
  "memory_run_ok [] r \<longleftrightarrow> True"
| "memory_run_ok (op # ops) r \<longleftrightarrow> memory_ok op r \<and> memory_run_ok ops (memory_do op r)"

text \<open>
  C12: \<open>Memory\<close> refines the abstract counter machine. From a new counter, after every sequence
  of \<open>Resize\<close>, \<open>Ensure\<close>, \<open>Remove\<close>, \<open>PostponeResize\<close> and turns of \<open>ProcessPostponedResizes\<close>
  (with its map read in any order), the counts and the postponed times are those the abstract
  machine computes: a resize adds its delta to its host only, \<open>Ensure\<close> changes no count, a turn
  zeroes exactly the hosts that are due with a count of one and forgets their postponement.
\<close>

theorem memory_refines:
  assumes "memory_run_ok ops (NewMemory d b)"
  shows "abs_memory (memory_run ops (NewMemory d b)) =
    fold abs_do ops \<lparr>ac_count = \<lambda>_. 0, ac_due = \<lambda>_. None\<rparr>"
proof -
  have run: "memory_run_ok ops r \<Longrightarrow> abs_memory (memory_run ops r) = fold abs_do ops (abs_memory r)" for r
    by (induction ops arbitrary: r) (auto simp: abs_memory_do)
  have "abs_memory (NewMemory d b) = \<lparr>ac_count = \<lambda>_. 0, ac_due = \<lambda>_. None\<rparr>"
    by (simp add: abs_memory_def NewMemory_def Memory_Count_def fun_eq_iff)
  then show ?thesis using run [OF assms] by simp
qed

theorem memory_refines_witness:
  "Memory_Count ''a'' (memory_run [OpResize ''a'' 1, OpPostpone ''a'' 5, OpTurn [(''a'', 5)] (\<lambda>_. 6)]
     (NewMemory 0 True)) = 0"
proof -
  let ?ops = "[OpResize ''a'' 1, OpPostpone ''a'' 5, OpTurn [(''a'', 5)] (\<lambda>_. 6)]"
  have "memory_run_ok ?ops (NewMemory 0 True)" by code_simp
  from arg_cong [OF memory_refines [OF this], of ac_count] show ?thesis
    by (simp add: abs_memory_def turn_hits_def fun_eq_iff del: memory_run.simps)
qed

section \<open>The counts RPC returns what the interceptor counted\<close>

lemma newSizeHandler_body:
  assumes "rw_code w = None" "\<not> rw_broken w"
  shows "newSizeHandler (cur, None) w =
    w\<lparr>rw_code := Some 200, rw_sent := Some (rw_header w),
      rw_body := rw_body w @ json_print (Counts_MarshalJSON cur) @ [newline]\<rparr>"
  using assms by (simp add: newSizeHandler_def rw_defs)

lemma GetCounts_answer:
  assumes "valid_hosts (Some (countMap r))"
    and "Memory_Current r = Inr cur"
    and "get (URL_String (u\<lparr>Path := countsPath\<rparr>)) = Inr (rw_body (newSizeHandler (cur, None) NewRecorder))"
  shows "GetCounts get u = Inr \<lparr>Counts_m = Some (countMap r)\<rparr>"
proof -
  have cur: "cur = \<lparr>Counts_m = Some (countMap r)\<rparr>"
    using assms(2) by (simp add: Memory_Current_def NewCounts_def)
  have "rw_body (newSizeHandler (cur, None) NewRecorder) = json_print (Counts_MarshalJSON cur) @ [newline]"
    by (subst newSizeHandler_body) (simp_all add: NewRecorder_def)
  moreover have "decode_first (json_print (Counts_MarshalJSON cur) @ [newline]) = Inr (Counts_MarshalJSON cur)"
    by (rule decode_first_print, rule json_wf_Counts) (use assms(1) cur in simp)
  ultimately show ?thesis
    using assms(3) cur by (simp add: GetCounts_def Let_def Counts_roundtrip_value)
qed

text \<open>
  C13: The scaler reads the counts the interceptor has. If a GET of the URL with path \<open>/queue\<close>
  returns the body that the size handler writes for a counter \<open>r\<close>, whose hosts are valid
  UTF-8, then \<open>GetCounts\<close> returns exactly the counts of \<open>r\<close>, negative and large ones included.
\<close>

theorem GetCounts_newSizeHandler:
  assumes "valid_hosts (Some (countMap r))"
    and "Memory_Current r = Inr cur"
    and "get (URL_String (u\<lparr>Path := countsPath\<rparr>)) = Inr (rw_body (newSizeHandler (cur, None) NewRecorder))"
  shows "GetCounts get u = Inr \<lparr>Counts_m = Some (countMap r)\<rparr>"
  using assms by (rule GetCounts_answer)

theorem GetCounts_newSizeHandler_witness:
  "GetCounts (\<lambda>_. Inr (rw_body (newSizeHandler
       (\<lparr>Counts_m = Some (fmap_of_list [(''a'', 3), (''b'', - 1)])\<rparr>, None) NewRecorder))) (http_url ''h'') =
   Inr \<lparr>Counts_m = Some (fmap_of_list [(''a'', 3), (''b'', - 1)])\<rparr>"
proof -
  let ?r = "(NewMemory 0 False)\<lparr>countMap := fmap_of_list [(''a'', 3), (''b'', - 1)]\<rparr>"
  have "valid_hosts (Some (countMap ?r))" by code_simp
  from GetCounts_newSizeHandler [OF this, of "\<lparr>Counts_m = Some (countMap ?r)\<rparr>"
      "\<lambda>_. Inr (rw_body (newSizeHandler (\<lparr>Counts_m = Some (countMap ?r)\<rparr>, None) NewRecorder))" "http_url ''h''"]
  show ?thesis by (simp add: Memory_Current_def NewCounts_def)
qed

text \<open>
  The error answers of the counts RPC. When the counter reports an error the handler
  answers 500 with a fixed text and no counts, and \<open>GetCounts\<close> on that text is an error too;
  a transport error is wrapped with the URL that was asked for.
\<close>

theorem counts_rpc_errors:
  "rw_code (newSizeHandler (c, Some e) NewRecorder) = Some 500 \<and>
   rw_body (newSizeHandler (c, Some e) NewRecorder) = ''error getting queue size'' \<and>
   GetCounts (\<lambda>_. Inr (rw_body (newSizeHandler (c, Some e) NewRecorder))) u =
     Inl (Wrap syntax_error (''decoding response from the interceptor at '' @ URL_String (u\<lparr>Path := countsPath\<rparr>))) \<and>
   GetCounts (\<lambda>_. Inl e) u =
     Inl (Wrap e (''requesting the queue counts from '' @ URL_String (u\<lparr>Path := countsPath\<rparr>)))"
proof -
  have body: "rw_body (newSizeHandler (c, Some e) NewRecorder) = ''error getting queue size''"
    by (simp add: newSizeHandler_def rw_defs)
  have "decode_first ''error getting queue size'' = Inl syntax_error" by code_simp
  then show ?thesis
    by (simp add: body) (simp add: GetCounts_def newSizeHandler_def rw_defs)
qed

text \<open>
  \<open>Aggregate\<close> is the sum of all counts, in the arithmetic of Go's \<open>int\<close>, whatever order the
  map iteration has: every enumeration of the map gives the sum over its domain.
\<close>

theorem Aggregate_any_order:
  assumes "enumerates xs m"
  shows "aggregate_loop xs = (\<Sum>h \<in> fset (fmdom m). the (fmlookup m h)) \<and>
    aggregate_loop xs = Counts_Aggregate \<lparr>Counts_m = Some m\<rparr>"
proof -
  have d: "distinct (map fst xs)" and l: "map_of xs = fmlookup m"
    using assms by (auto simp: enumerates_def)
  have "aggregate_loop xs = (\<Sum>h \<leftarrow> map fst xs. the (fmlookup m h))"
    unfolding aggregate_loop_sum map_map
    by (rule arg_cong [where f = sum_list], rule map_cong) (use d in \<open>auto simp flip: l\<close>)
  also have "\<dots> = (\<Sum>h \<in> set (map fst xs). the (fmlookup m h))"
    using d by (rule sum_list_distinct_conv_sum_set)
  also have "set (map fst xs) = fset (fmdom m)"
    using dom_map_of_conv_image_fst [of xs] l by (simp add: fmdom.rep_eq)
  finally have "aggregate_loop xs = (\<Sum>h \<in> fset (fmdom m). the (fmlookup m h))" .
  moreover have "aggregate_loop xs = aggregate_loop (sorted_list_of_fmap m)"
    by (rule aggregate_loop_mset, rule enumerates_mset [OF assms]) simp
  ultimately show ?thesis by (simp add: Counts_Aggregate_def)
qed

theorem Aggregate_any_order_witness:
  "aggregate_loop [(''b'', 2), (''a'', - 1)] =
     Counts_Aggregate \<lparr>Counts_m = Some (fmap_of_list [(''a'', - 1), (''b'', 2)])\<rparr>"
proof -
  have "enumerates [(''b'', 2), (''a'', - 1)] (fmap_of_list [(''a'', - 1 :: gint), (''b'', 2)])"
    by (auto simp: enumerates_def fun_eq_iff)
  from Aggregate_any_order [OF this] show ?thesis by (rule conjunct2)
qed

end
