(* ===== verification/K8s.thy ===== *)
theory K8s
  imports Http
begin

text \<open>
  The helpers of \<open>pkg/k8s\<close>: the API objects with the fields the sources read and write, the
  ScaledObject that is built for KEDA, labels and object kinds, endpoints as URLs, ConfigMap
  reads and patches through a client, the informer-backed caches with their event handlers and
  filtered watches, and the fakes. The Kubernetes client, the lister, the broadcaster and the
  API server are parameters of the definitions that call them.
\<close>

section \<open>API objects\<close>

record ConfigMap =
  cm_Namespace :: string
  cm_Name :: string
  cm_Labels :: "string gomap"
  cm_Data :: "string gomap"

definition zero_ConfigMap :: ConfigMap where
  "zero_ConfigMap = \<lparr>cm_Namespace = [], cm_Name = [], cm_Labels = None, cm_Data = None\<rparr>"

record Deployment =
  depl_Namespace :: string
  depl_Name :: string
  depl_Replicas :: "i32 option"       \<comment> \<open>\<open>Spec.Replicas\<close>, a pointer\<close>
  depl_ReadyReplicas :: i32           \<comment> \<open>\<open>Status.ReadyReplicas\<close>\<close>

definition zero_Deployment :: Deployment where
  "zero_Deployment = \<lparr>depl_Namespace = [], depl_Name = [], depl_Replicas = None, depl_ReadyReplicas = 0\<rparr>"

datatype runtime_obj =
    ObjConfigMap ConfigMap
  | ObjDeployment Deployment
  | ObjOther string

datatype EventType = Added | Modified | Deleted

type_synonym event = "EventType \<times> runtime_obj"

section \<open>Names, labels and kinds\<close>

type_synonym ObjectKey = "string \<times> string"   \<comment> \<open>namespace and name\<close>

definition ObjKey :: "string \<Rightarrow> string \<Rightarrow> ObjectKey" where
  "ObjKey ns name = (ns, name)"

definition Labels :: "string \<Rightarrow> string smap" where
  "Labels name = fmap_of_list [(''name'', name), (''app'', ''kedahttp-'' @ name)]"

text \<open>A type as reflection sees it; only named types have a name.\<close>

datatype rtype = Named string | Pointer rtype

primrec rtype_Name :: "rtype \<Rightarrow> string" where
  "rtype_Name (Named n) = n"
| "rtype_Name (Pointer t) = []"

definition ObjectKind :: "rtype \<Rightarrow> string" where
  "ObjectKind t = rtype_Name (case t of Pointer t' \<Rightarrow> t' | Named n \<Rightarrow> t)"

definition Int32P :: "i32 \<Rightarrow> i32 option" where
  "Int32P i = Some i"

section \<open>The ScaledObject handed to KEDA\<close>

record ScaleTarget =
  st_APIVersion :: string
  st_Kind :: string
  st_Name :: string

record ScaleTriggers =
  tr_Type :: string
  tr_Metadata :: "string smap"

record ScaledObject =
  so_APIVersion :: string
  so_Kind :: string
  so_Namespace :: string
  so_Name :: string
  so_Labels :: "string smap"
  so_ScaleTargetRef :: ScaleTarget
  so_PollingInterval :: "i32 option"
  so_CooldownPeriod :: "i32 option"
  so_MinReplicaCount :: "i32 option"
  so_MaxReplicaCount :: "i32 option"
  so_RestoreToOriginalReplicaCount :: bool
  so_Triggers :: "ScaleTriggers list"

definition soPollingInterval :: i32 where
  "soPollingInterval = 1"

definition soTriggerType :: string where
  "soTriggerType = ''external-push''"

definition mkScalerAddress :: string where
  "mkScalerAddress = ''scalerAddress''"

definition mkHosts :: string where
  "mkHosts = ''hosts''"

text \<open>The group versions of KEDA and of the apps API are those of their API packages.\<close>

definition NewScaledObject ::
    "string \<Rightarrow> string \<Rightarrow> string \<Rightarrow> string \<Rightarrow> string list \<Rightarrow> i32 option \<Rightarrow> i32 option \<Rightarrow> i32 option \<Rightarrow> ScaledObject" where
  "NewScaledObject namespace name deploymentName scalerAddress hosts minReplicas maxReplicas cooldownPeriod =
     \<lparr>so_APIVersion = ''keda.sh/v1alpha1'',
      so_Kind = ObjectKind (Pointer (Named ''ScaledObject'')),
      so_Namespace = namespace, so_Name = name, so_Labels = Labels name,
      so_ScaleTargetRef = \<lparr>st_APIVersion = ''apps/v1'', st_Kind = ObjectKind (Pointer (Named ''Deployment'')),
        st_Name = deploymentName\<rparr>,
      so_PollingInterval = Some soPollingInterval, so_CooldownPeriod = cooldownPeriod,
      so_MinReplicaCount = minReplicas, so_MaxReplicaCount = maxReplicas,
      so_RestoreToOriginalReplicaCount = True,
      so_Triggers = [\<lparr>tr_Type = soTriggerType,
        tr_Metadata = fmap_of_list [(mkScalerAddress, scalerAddress), (mkHosts, Join hosts CHR '','')]\<rparr>]\<rparr>"

section \<open>Endpoints\<close>

record EndpointAddress =
  ea_Hostname :: string
  ea_IP :: string

record EndpointSubset =
  Addresses :: "EndpointAddress list"
  Ports :: "i32 list"

record Endpoints =
  ep_Namespace :: string
  ep_Name :: string
  Subsets :: "EndpointSubset list"

type_synonym GetEndpointsFunc = "string \<Rightarrow> string \<Rightarrow> error + Endpoints"

text \<open>The two nested loops, each ending at the first URL that does not parse.\<close>

fun address_loop :: "string \<Rightarrow> EndpointAddress list \<Rightarrow> URL list \<Rightarrow> error + URL list" where
  "address_loop servicePort [] ret = Inr ret"
| "address_loop servicePort (addr # addrs) ret =
     (case parse_http (ea_IP addr @ '':'' @ servicePort) of
        Inl err \<Rightarrow> Inl err
      | Inr u \<Rightarrow> address_loop servicePort addrs (ret @ [u]))"

fun subset_loop :: "string \<Rightarrow> EndpointSubset list \<Rightarrow> URL list \<Rightarrow> error + URL list" where
  "subset_loop servicePort [] ret = Inr ret"
| "subset_loop servicePort (ss # sss) ret =
     (case address_loop servicePort (Addresses ss) ret of
        Inl err \<Rightarrow> Inl err
      | Inr ret' \<Rightarrow> subset_loop servicePort sss ret')"

definition EndpointsForService ::
    "string \<Rightarrow> string \<Rightarrow> string \<Rightarrow> GetEndpointsFunc \<Rightarrow> error + URL list" where
  "EndpointsForService ns serviceName servicePort endpointsFn =
     (case endpointsFn ns serviceName of
        Inl err \<Rightarrow> Inl (Wrap err ''pkg.k8s.EndpointsForService'')
      | Inr endpoints \<Rightarrow> subset_loop servicePort (Subsets endpoints) [])"

definition EndpointsFuncForControllerClient :: "(ObjectKey \<Rightarrow> error + Endpoints) \<Rightarrow> GetEndpointsFunc" where
  "EndpointsFuncForControllerClient get namespace serviceName =
     (case get (namespace, serviceName) of Inl err \<Rightarrow> Inl err | Inr endpts \<Rightarrow> Inr endpts)"

definition EndpointsFuncForK8sClientset ::
    "(string \<Rightarrow> string \<Rightarrow> error + Endpoints) \<Rightarrow> GetEndpointsFunc" where
  "EndpointsFuncForK8sClientset endpoints_get namespace serviceName = endpoints_get namespace serviceName"

text \<open>\<open>URL.Hostname\<close> and \<open>URL.Port\<close>: the host up to its last colon, without brackets.\<close>

definition splitHostPort :: "string \<Rightarrow> string \<times> string" where
  "splitHostPort hp =
     (let (h, p) =
        (case LastIndex hp CHR '':'' of
           Some i \<Rightarrow> if validOptionalPort (drop i hp) then (take i hp, drop (Suc i) hp) else (hp, [])
         | None \<Rightarrow> (hp, [])) in
      (if h \<noteq> [] \<and> hd h = CHR ''['' \<and> last h = CHR '']'' \<and> length h \<ge> 2 then butlast (tl h) else h, p))"

fun fake_addrs :: "URL list \<Rightarrow> error + (EndpointAddress \<times> i32) list" where
  "fake_addrs [] = Inr []"
| "fake_addrs (u # us) =
     (let (host, port) = splitHostPort (Host u) in
      case ParseInt port 64 of
        None \<Rightarrow> Inl (External ''strconv.Atoi: parsing'')
      | Some portInt \<Rightarrow>
          (case fake_addrs us of
             Inl err \<Rightarrow> Inl err
           | Inr aps \<Rightarrow> Inr ((\<lparr>ea_Hostname = host, ea_IP = host\<rparr>, word_of_int portInt) # aps)))"

definition FakeEndpointsForURLs :: "URL list \<Rightarrow> string \<Rightarrow> string \<Rightarrow> error + Endpoints" where
  "FakeEndpointsForURLs urls namespace name =
     (case fake_addrs urls of
        Inl err \<Rightarrow> Inl err
      | Inr aps \<Rightarrow> Inr \<lparr>ep_Namespace = namespace, ep_Name = name,
          Subsets = [\<lparr>Addresses = map fst aps, Ports = map snd aps\<rparr>]\<rparr>)"

definition FakeEndpointsForURL :: "URL \<Rightarrow> string \<Rightarrow> string \<Rightarrow> gint \<Rightarrow> (error + Endpoints) go" where
  "FakeEndpointsForURL u namespace name num =
     (if sint num < 0 then Panic ''runtime error: makeslice: len out of range''
      else Ret (FakeEndpointsForURLs (replicate (nat (sint num)) u) namespace name))"

section \<open>ConfigMaps through a client\<close>

text \<open>
  \<open>get\<close> and \<open>patch\<close> are the client's operations on the API server's state \<open>'w\<close>; a patch that
  succeeds fills the object it was given from the server's answer.
\<close>

definition PatchConfigMap ::
    "(ConfigMap \<Rightarrow> ConfigMap \<Rightarrow> 'w \<Rightarrow> 'w \<times> (error + ConfigMap)) \<Rightarrow> ConfigMap \<Rightarrow> ConfigMap \<Rightarrow> 'w \<Rightarrow>
     'w \<times> (error + ConfigMap)" where
  "PatchConfigMap patch originalConfigMap patchConfigMap w =
     (case patch patchConfigMap originalConfigMap w of
        (w', Inl err) \<Rightarrow> (w', Inl err)
      | (w', Inr patched) \<Rightarrow> (w', Inr patched))"

definition GetConfigMap ::
    "(ObjectKey \<Rightarrow> 'w \<Rightarrow> error + ConfigMap) \<Rightarrow> string \<Rightarrow> string \<Rightarrow> 'w \<Rightarrow> error + ConfigMap" where
  "GetConfigMap get namespace name w =
     (case get (namespace, name) w of Inl err \<Rightarrow> Inl err | Inr configMap \<Rightarrow> Inr configMap)"

record FakeConfigMapGetter =
  fcg_ConfigMap :: ConfigMap
  fcg_Err :: "error option"

definition FakeConfigMapGetter_Get :: "FakeConfigMapGetter \<Rightarrow> string \<Rightarrow> error + ConfigMap" where
  "FakeConfigMapGetter_Get f name =
     (case fcg_Err f of Some err \<Rightarrow> Inl err | None \<Rightarrow> Inr (fcg_ConfigMap f))"

section \<open>Informer-backed caches\<close>

text \<open>
  An informer's store is the lister \<open>list\<close>/\<open>get\<close>; the broadcaster's \<open>Action\<close> is a parameter
  that sends one event to the watchers or reports an error.
\<close>

type_synonym 'b action = "EventType \<Rightarrow> runtime_obj \<Rightarrow> 'b \<Rightarrow> 'b \<times> error option"

definition InformerConfigMapUpdater_MarshalJSON ::
    "(error + ConfigMap list) \<Rightarrow> (ConfigMap list \<Rightarrow> error + string) \<Rightarrow> error + string" where
  "InformerConfigMapUpdater_MarshalJSON lister_List marshal =
     (case lister_List of Inl err \<Rightarrow> Inl err | Inr cms \<Rightarrow> marshal cms)"

text \<open>\<open>Run\<close> returns when the context is done, with the context's error \<open>ctxErr\<close>.\<close>

definition InformerConfigMapUpdater_Start :: "error option \<Rightarrow> error option" where
  "InformerConfigMapUpdater_Start ctxErr = wrap ctxErr ''configMap informer was stopped''"

definition InformerConfigMapUpdater_Get ::
    "(string \<Rightarrow> string \<Rightarrow> error + ConfigMap) \<Rightarrow> string \<Rightarrow> string \<Rightarrow> ConfigMap \<times> error option" where
  "InformerConfigMapUpdater_Get lister ns name =
     (case lister ns name of Inl err \<Rightarrow> (zero_ConfigMap, Some err) | Inr cm \<Rightarrow> (cm, None))"

text \<open>The filter of a watch: keep the events of the one ConfigMap, drop other objects.\<close>

definition InformerConfigMapUpdater_Watch :: "string \<Rightarrow> string \<Rightarrow> event \<Rightarrow> bool" where
  "InformerConfigMapUpdater_Watch ns name e =
     (case snd e of
        ObjConfigMap cm \<Rightarrow> cm_Namespace cm = ns \<and> cm_Name cm = name
      | _ \<Rightarrow> False)"

definition InformerConfigMapUpdater_addEvtHandler :: "'b action \<Rightarrow> runtime_obj \<Rightarrow> 'b \<Rightarrow> 'b" where
  "InformerConfigMapUpdater_addEvtHandler act obj b =
     (case obj of ObjConfigMap cm \<Rightarrow> fst (act Added (ObjConfigMap cm) b) | _ \<Rightarrow> b)"

definition InformerConfigMapUpdater_updateEvtHandler ::
    "'b action \<Rightarrow> runtime_obj \<Rightarrow> runtime_obj \<Rightarrow> 'b \<Rightarrow> 'b" where
  "InformerConfigMapUpdater_updateEvtHandler act oldObj newObj b =
     (case newObj of ObjConfigMap cm \<Rightarrow> fst (act Modified (ObjConfigMap cm) b) | _ \<Rightarrow> b)"

definition InformerConfigMapUpdater_deleteEvtHandler :: "'b action \<Rightarrow> runtime_obj \<Rightarrow> 'b \<Rightarrow> 'b" where
  "InformerConfigMapUpdater_deleteEvtHandler act obj b =
     (case obj of ObjConfigMap cm \<Rightarrow> fst (act Deleted (ObjConfigMap cm) b) | _ \<Rightarrow> b)"

definition InformerBackedDeploymentCache_MarshalJSON ::
    "(error + Deployment list) \<Rightarrow> (Deployment list \<Rightarrow> error + string) \<Rightarrow> error + string" where
  "InformerBackedDeploymentCache_MarshalJSON lister_List marshal =
     (case lister_List of Inl err \<Rightarrow> Inl err | Inr depls \<Rightarrow> marshal depls)"

definition InformerBackedDeploymentCache_Start :: "error option \<Rightarrow> error option" where
  "InformerBackedDeploymentCache_Start ctxErr = wrap ctxErr ''deployment cache informer was stopped''"

definition InformerBackedDeploymentCache_Get ::
    "(string \<Rightarrow> string \<Rightarrow> error + Deployment) \<Rightarrow> string \<Rightarrow> string \<Rightarrow> Deployment \<times> error option" where
  "InformerBackedDeploymentCache_Get lister ns name =
     (case lister ns name of Inl err \<Rightarrow> (zero_Deployment, Some err) | Inr depl \<Rightarrow> (depl, None))"

text \<open>This filter asserts the type of the object without a check, so another object panics.\<close>

definition InformerBackedDeploymentCache_Watch :: "string \<Rightarrow> string \<Rightarrow> event \<Rightarrow> bool go" where
  "InformerBackedDeploymentCache_Watch ns name e =
     (case snd e of
        ObjDeployment depl \<Rightarrow> Ret (depl_Namespace depl = ns \<and> depl_Name depl = name)
      | _ \<Rightarrow> Panic ''interface conversion: runtime.Object is not *v1.Deployment'')"

definition InformerBackedDeploymentCache_addEvtHandler :: "'b action \<Rightarrow> runtime_obj \<Rightarrow> 'b \<Rightarrow> 'b" where
  "InformerBackedDeploymentCache_addEvtHandler act obj b =
     (case obj of ObjDeployment depl \<Rightarrow> fst (act Added (ObjDeployment depl) b) | _ \<Rightarrow> b)"

definition InformerBackedDeploymentCache_updateEvtHandler ::
    "'b action \<Rightarrow> runtime_obj \<Rightarrow> runtime_obj \<Rightarrow> 'b \<Rightarrow> 'b" where
  "InformerBackedDeploymentCache_updateEvtHandler act oldObj newObj b =
     (case newObj of ObjDeployment depl \<Rightarrow> fst (act Modified (ObjDeployment depl) b) | _ \<Rightarrow> b)"

definition InformerBackedDeploymentCache_deleteEvtHandler :: "'b action \<Rightarrow> runtime_obj \<Rightarrow> 'b \<Rightarrow> 'b" where
  "InformerBackedDeploymentCache_deleteEvtHandler act obj b =
     (case obj of ObjDeployment depl \<Rightarrow> fst (act Deleted (ObjDeployment depl) b) | _ \<Rightarrow> b)"

text \<open>What the informer reports to the handlers it was given.\<close>

datatype notification = OnAdd runtime_obj | OnUpdate runtime_obj runtime_obj | OnDelete runtime_obj

primrec depl_notify :: "'b action \<Rightarrow> notification \<Rightarrow> 'b \<Rightarrow> 'b" where
  "depl_notify act (OnAdd o1) b = InformerBackedDeploymentCache_addEvtHandler act o1 b"
| "depl_notify act (OnUpdate o1 o2) b = InformerBackedDeploymentCache_updateEvtHandler act o1 o2 b"
| "depl_notify act (OnDelete o1) b = InformerBackedDeploymentCache_deleteEvtHandler act o1 b"

primrec cm_notify :: "'b action \<Rightarrow> notification \<Rightarrow> 'b \<Rightarrow> 'b" where
  "cm_notify act (OnAdd o1) b = InformerConfigMapUpdater_addEvtHandler act o1 b"
| "cm_notify act (OnUpdate o1 o2) b = InformerConfigMapUpdater_updateEvtHandler act o1 o2 b"
| "cm_notify act (OnDelete o1) b = InformerConfigMapUpdater_deleteEvtHandler act o1 b"

section \<open>Fake deployment cache\<close>

text \<open>
  The read-write lock is part of the state, since a method that takes it again while holding it
  never returns: such a call is \<open>None\<close>. Watchers are numbered.
\<close>

datatype rwmutex = Unlocked | RLocked nat | WLocked

definition rw_Lock :: "rwmutex \<Rightarrow> rwmutex option" where
  "rw_Lock l = (case l of Unlocked \<Rightarrow> Some WLocked | _ \<Rightarrow> None)"

definition rw_RLock :: "rwmutex \<Rightarrow> rwmutex option" where
  "rw_RLock l = (case l of Unlocked \<Rightarrow> Some (RLocked 1) | RLocked n \<Rightarrow> Some (RLocked (Suc n)) | WLocked \<Rightarrow> None)"

definition rw_RUnlock :: "rwmutex \<Rightarrow> rwmutex" where
  "rw_RUnlock l = (case l of RLocked n \<Rightarrow> if n \<le> 1 then Unlocked else RLocked (n - 1) | _ \<Rightarrow> l)"

record FakeDeploymentCache =
  fdc_mut :: rwmutex
  fdc_current :: "Deployment smap"
  fdc_watchers :: "nat smap"
  fdc_next :: nat

definition NewFakeDeploymentCache :: FakeDeploymentCache where
  "NewFakeDeploymentCache =
     \<lparr>fdc_mut = Unlocked, fdc_current = fmempty, fdc_watchers = fmempty, fdc_next = 0\<rparr>"

definition key :: "string \<Rightarrow> string \<Rightarrow> string" where
  "key ns name = ns @ ''/'' @ name"

text \<open>Run \<open>body\<close> under the write lock, or under the read lock, and release it.\<close>

definition with_lock :: "(FakeDeploymentCache \<Rightarrow> (FakeDeploymentCache \<times> 'a) option) \<Rightarrow> FakeDeploymentCache \<Rightarrow>
    (FakeDeploymentCache \<times> 'a) option" where
  "with_lock body f =
     (case rw_Lock (fdc_mut f) of
        None \<Rightarrow> None
      | Some l \<Rightarrow> map_option (\<lambda>(f', x). (f'\<lparr>fdc_mut := Unlocked\<rparr>, x)) (body (f\<lparr>fdc_mut := l\<rparr>)))"

definition with_rlock :: "(FakeDeploymentCache \<Rightarrow> (FakeDeploymentCache \<times> 'a) option) \<Rightarrow> FakeDeploymentCache \<Rightarrow>
    (FakeDeploymentCache \<times> 'a) option" where
  "with_rlock body f =
     (case rw_RLock (fdc_mut f) of
        None \<Rightarrow> None
      | Some l \<Rightarrow> map_option (\<lambda>(f', x). (f'\<lparr>fdc_mut := rw_RUnlock (fdc_mut f')\<rparr>, x)) (body (f\<lparr>fdc_mut := l\<rparr>)))"

definition FakeDeploymentCache_AddDeployment :: "Deployment \<Rightarrow> FakeDeploymentCache \<Rightarrow> (FakeDeploymentCache \<times> unit) option" where
  "FakeDeploymentCache_AddDeployment depl =
     with_lock (\<lambda>f. Some (f\<lparr>fdc_current := fmupd (key (depl_Namespace depl) (depl_Name depl)) depl (fdc_current f)\<rparr>, ()))"

definition FakeDeploymentCache_CurrentDeployments :: "FakeDeploymentCache \<Rightarrow> (FakeDeploymentCache \<times> Deployment smap) option" where
  "FakeDeploymentCache_CurrentDeployments = with_rlock (\<lambda>f. Some (f, fdc_current f))"

definition FakeDeploymentCache_GetWatcher :: "string \<Rightarrow> string \<Rightarrow> FakeDeploymentCache \<Rightarrow> (FakeDeploymentCache \<times> nat option) option" where
  "FakeDeploymentCache_GetWatcher ns name = with_rlock (\<lambda>f. Some (f, fmlookup (fdc_watchers f) (key ns name)))"

text \<open>Dereferencing the nil replica pointer of an entry panics.\<close>

fun replicas_loop :: "(string \<times> Deployment) list \<Rightarrow> i32 smap \<Rightarrow> i32 smap go" where
  "replicas_loop [] ret = Ret ret"
| "replicas_loop ((name, deployment) # ds) ret =
     (case depl_Replicas deployment of
        None \<Rightarrow> Panic ''invalid memory address or nil pointer dereference''
      | Some n \<Rightarrow> replicas_loop ds (fmupd name n ret))"

definition FakeDeploymentCache_MarshalJSON :: "FakeDeploymentCache \<Rightarrow> (FakeDeploymentCache \<times> json go) option" where
  "FakeDeploymentCache_MarshalJSON =
     with_rlock (\<lambda>f. Some (f, bind_go (replicas_loop (sorted_list_of_fmap (fdc_current f)) fmempty)
       (\<lambda>ret. Ret (encode_map json_int32 (Some ret)))))"

definition FakeDeploymentCache_Get :: "string \<Rightarrow> string \<Rightarrow> FakeDeploymentCache \<Rightarrow> (FakeDeploymentCache \<times> Deployment \<times> error option) option" where
  "FakeDeploymentCache_Get ns name =
     with_rlock (\<lambda>f.
       (case fmlookup (fdc_current f) (key ns name) of
          Some ret \<Rightarrow> Some (f, ret, None)
        | None \<Rightarrow> Some (f, zero_Deployment, Some (Errorf (''no deployment '' @ name @ '' found'')))))"

definition FakeDeploymentCache_Watch :: "string \<Rightarrow> string \<Rightarrow> FakeDeploymentCache \<Rightarrow> (FakeDeploymentCache \<times> nat) option" where
  "FakeDeploymentCache_Watch ns name =
     with_rlock (\<lambda>f.
       (case fmlookup (fdc_watchers f) (key ns name) of
          Some watcher \<Rightarrow> Some (f, watcher)
        | None \<Rightarrow> Some (f\<lparr>fdc_watchers := fmupd (key ns name) (fdc_next f) (fdc_watchers f),
                        fdc_next := Suc (fdc_next f)\<rparr>, fdc_next f)))"

definition FakeDeploymentCache_Set :: "string \<Rightarrow> string \<Rightarrow> Deployment \<Rightarrow> FakeDeploymentCache \<Rightarrow> (FakeDeploymentCache \<times> unit) option" where
  "FakeDeploymentCache_Set ns name deployment =
     with_lock (\<lambda>f. Some (f\<lparr>fdc_current := fmupd (key ns name) deployment (fdc_current f)\<rparr>, ()))"

definition FakeDeploymentCache_SetWatcher :: "string \<Rightarrow> string \<Rightarrow> FakeDeploymentCache \<Rightarrow> (FakeDeploymentCache \<times> nat) option" where
  "FakeDeploymentCache_SetWatcher ns name =
     with_lock (\<lambda>f. Some (f\<lparr>fdc_watchers := fmupd (key ns name) (fdc_next f) (fdc_watchers f),
       fdc_next := Suc (fdc_next f)\<rparr>, fdc_next f))"

text \<open>The copy that \<open>Get\<close> returned is changed, not the entry of the map.\<close>

definition FakeDeploymentCache_SetReplicas :: "string \<Rightarrow> string \<Rightarrow> i32 \<Rightarrow> FakeDeploymentCache \<Rightarrow> (FakeDeploymentCache \<times> error option) option" where
  "FakeDeploymentCache_SetReplicas ns name num =
     with_lock (\<lambda>f.
       (case FakeDeploymentCache_Get ns name f of
          None \<Rightarrow> None
        | Some (f', _, Some err) \<Rightarrow> Some (f', Some (Errorf (''no deployment '' @ name @ '' found'')))
        | Some (f', deployment, None) \<Rightarrow> Some (f', None)))"

section \<open>Fake runtime client\<close>

text \<open>Objects \<open>'o\<close> with their JSON codec; the writer keeps the objects of every call.\<close>

record 'o FakeRuntimeClientReader =
  GetCalls :: "(ObjectKey \<times> 'o) list"
  ListCalls :: "'o list"

record 'o FakeRuntimeClientWriter =
  Creates :: "'o list"
  Deletes :: "'o list"
  Updates :: "'o list"
  Patches :: "'o list"
  DeleteAllOfs :: "'o list"

record 'o FakeRuntimeClient =
  frc_reader :: "'o FakeRuntimeClientReader"
  frc_writer :: "'o FakeRuntimeClientWriter"

definition NewFakeRuntimeClient :: "'o FakeRuntimeClient" where
  "NewFakeRuntimeClient =
     \<lparr>frc_reader = \<lparr>GetCalls = [], ListCalls = []\<rparr>,
      frc_writer = \<lparr>Creates = [], Deletes = [], Updates = [], Patches = [], DeleteAllOfs = []\<rparr>\<rparr>"

definition through_json :: "('o \<Rightarrow> error + string) \<Rightarrow> (string \<Rightarrow> 'o \<Rightarrow> 'o \<times> error option) \<Rightarrow> 'o \<Rightarrow> 'o \<Rightarrow>
    'o \<times> error option" where
  "through_json marshal unmarshal src obj =
     (case marshal src of Inl err \<Rightarrow> (obj, Some err) | Inr b \<Rightarrow> unmarshal b obj)"

definition FakeRuntimeClientReader_Get ::
    "('o \<Rightarrow> error + string) \<Rightarrow> (string \<Rightarrow> 'o \<Rightarrow> 'o \<times> error option) \<Rightarrow> 'o \<Rightarrow> ObjectKey \<Rightarrow> 'o \<Rightarrow>
     'o FakeRuntimeClientReader \<Rightarrow> 'o FakeRuntimeClientReader \<times> 'o \<times> error option" where
  "FakeRuntimeClientReader_Get marshal unmarshal getFunc k obj f =
     (f\<lparr>GetCalls := GetCalls f @ [(k, obj)]\<rparr>, through_json marshal unmarshal getFunc obj)"

definition FakeRuntimeClientReader_List ::
    "('o \<Rightarrow> error + string) \<Rightarrow> (string \<Rightarrow> 'o \<Rightarrow> 'o \<times> error option) \<Rightarrow> 'o \<Rightarrow> 'o \<Rightarrow>
     'o FakeRuntimeClientReader \<Rightarrow> 'o FakeRuntimeClientReader \<times> 'o \<times> error option" where
  "FakeRuntimeClientReader_List marshal unmarshal listFunc lst f =
     (f\<lparr>ListCalls := ListCalls f @ [lst]\<rparr>, through_json marshal unmarshal listFunc lst)"

definition FakeRuntimeClientWriter_Create :: "'o \<Rightarrow> 'o FakeRuntimeClientWriter \<Rightarrow> 'o FakeRuntimeClientWriter \<times> error option" where
  "FakeRuntimeClientWriter_Create obj f = (f\<lparr>Creates := Creates f @ [obj]\<rparr>, None)"

definition FakeRuntimeClientWriter_Delete :: "'o \<Rightarrow> 'o FakeRuntimeClientWriter \<Rightarrow> 'o FakeRuntimeClientWriter \<times> error option" where
  "FakeRuntimeClientWriter_Delete obj f = (f\<lparr>Deletes := Deletes f @ [obj]\<rparr>, None)"

definition FakeRuntimeClientWriter_Update :: "'o \<Rightarrow> 'o FakeRuntimeClientWriter \<Rightarrow> 'o FakeRuntimeClientWriter \<times> error option" where
  "FakeRuntimeClientWriter_Update obj f = (f\<lparr>Updates := Updates f @ [obj]\<rparr>, None)"

definition FakeRuntimeClientWriter_Patch :: "'o \<Rightarrow> 'o FakeRuntimeClientWriter \<Rightarrow> 'o FakeRuntimeClientWriter \<times> error option" where
  "FakeRuntimeClientWriter_Patch obj f = (f\<lparr>Patches := Patches f @ [obj]\<rparr>, None)"

definition FakeRuntimeClientWriter_DeleteAllOf :: "'o \<Rightarrow> 'o FakeRuntimeClientWriter \<Rightarrow> 'o FakeRuntimeClientWriter \<times> error option" where
  "FakeRuntimeClientWriter_DeleteAllOf obj f = (f\<lparr>DeleteAllOfs := DeleteAllOfs f @ [obj]\<rparr>, None)"

section \<open>Facts about endpoints\<close>

lemma address_loop_ok:
  assumes "\<And>a. a \<in> set addrs \<Longrightarrow> parse_http (ea_IP a @ '':'' @ servicePort) = Inr (f a)"
  shows "address_loop servicePort addrs ret = Inr (ret @ map f addrs)"
  using assms by (induction addrs arbitrary: ret) auto

lemma subset_loop_ok:
  assumes "\<And>ss a. ss \<in> set sss \<Longrightarrow> a \<in> set (Addresses ss) \<Longrightarrow> parse_http (ea_IP a @ '':'' @ servicePort) = Inr (f a)"
  shows "subset_loop servicePort sss ret = Inr (ret @ map f (concat (map Addresses sss)))"
  using assms
proof (induction sss arbitrary: ret)
  case (Cons ss sss)
  then have "address_loop servicePort (Addresses ss) ret = Inr (ret @ map f (Addresses ss))"
    by (intro address_loop_ok) auto
  moreover have "subset_loop servicePort sss (ret @ map f (Addresses ss)) =
      Inr ((ret @ map f (Addresses ss)) @ map f (concat (map Addresses sss)))"
    by (rule Cons.IH) (rule Cons.prems, auto)
  ultimately show ?case by simp
qed simp

lemma EndpointsForService_all:
  assumes "endpointsFn ns serviceName = Inr eps"
    and "list_all (\<lambda>ss. list_all (\<lambda>a. list_all dns_char (ea_IP a)) (Addresses ss)) (Subsets eps)"
  shows "EndpointsForService ns serviceName (show_int (int p)) endpointsFn =
    Inr (map (\<lambda>a. http_url (ea_IP a @ '':'' @ show_int (int p))) (concat (map Addresses (Subsets eps))))"
proof -
  have "subset_loop (show_int (int p)) (Subsets eps) [] =
      Inr ([] @ map (\<lambda>a. http_url (ea_IP a @ '':'' @ show_int (int p))) (concat (map Addresses (Subsets eps))))"
  proof (rule subset_loop_ok)
    fix ss a
    assume "ss \<in> set (Subsets eps)" "a \<in> set (Addresses ss)"
    with assms(2) have "list_all dns_char (ea_IP a)" by (auto simp: list_all_iff)
    from parse_http_port [OF this, of "int p"]
    show "parse_http (ea_IP a @ '':'' @ show_int (int p)) = Inr (http_url (ea_IP a @ '':'' @ show_int (int p)))"
      by simp
  qed
  then show ?thesis using assms(1) by (simp add: EndpointsForService_def)
qed

text \<open>
  C31: \<open>EndpointsForService\<close> yields one URL per address. When the endpoints of the service are
  known, every address is written in host-name characters and the port is a decimal number, the
  result is the list \<open>http://IP:port\<close> for all addresses of all subsets, in order and without loss.
\<close>

theorem EndpointsForService_urls:
  assumes "endpointsFn ns serviceName = Inr eps"
    and "list_all (\<lambda>ss. list_all (\<lambda>a. list_all dns_char (ea_IP a)) (Addresses ss)) (Subsets eps)"
  shows "EndpointsForService ns serviceName (show_int (int p)) endpointsFn =
    Inr (map (\<lambda>a. http_url (ea_IP a @ '':'' @ show_int (int p))) (concat (map Addresses (Subsets eps))))"
  using assms by (rule EndpointsForService_all)

theorem EndpointsForService_urls_witness:
  "EndpointsForService ''ns'' ''svc'' (show_int (int 8080))
     (\<lambda>_ _. Inr \<lparr>ep_Namespace = ''ns'', ep_Name = ''svc'',
        Subsets = [\<lparr>Addresses = [\<lparr>ea_Hostname = [], ea_IP = ''10.0.0.1''\<rparr>], Ports = []\<rparr>]\<rparr>) =
   Inr [http_url (''10.0.0.1'' @ '':'' @ show_int (int 8080))]"
proof -
  let ?eps = "\<lparr>ep_Namespace = ''ns'', ep_Name = ''svc'',
        Subsets = [\<lparr>Addresses = [\<lparr>ea_Hostname = [], ea_IP = ''10.0.0.1''\<rparr>], Ports = []\<rparr>]\<rparr>"
  have "list_all (\<lambda>ss. list_all (\<lambda>a. list_all dns_char (ea_IP a)) (Addresses ss)) (Subsets ?eps)"
    by code_simp
  from EndpointsForService_urls [of "\<lambda>_ _. Inr ?eps", OF refl this, where p = 8080] show ?thesis by simp
qed

section \<open>Watches see the events of their object\<close>

text \<open>
  A broadcaster that is running delivers every action to its watchers, in order: the
  documented behaviour of \<open>watch.Broadcaster\<close>, with the delivered events as its state.
\<close>

definition deliver :: "event list action" where
  "deliver t obj b = (b @ [(t, obj)], None)"

primrec notified :: "notification \<Rightarrow> event" where
  "notified (OnAdd o1) = (Added, o1)"
| "notified (OnUpdate o1 o2) = (Modified, o2)"
| "notified (OnDelete o1) = (Deleted, o1)"

lemma cm_notify_deliver:
  "cm_notify deliver n b = b @ (case snd (notified n) of ObjConfigMap cm \<Rightarrow> [notified n] | _ \<Rightarrow> [])"
  by (cases n)
    (auto simp: InformerConfigMapUpdater_addEvtHandler_def InformerConfigMapUpdater_updateEvtHandler_def
      InformerConfigMapUpdater_deleteEvtHandler_def deliver_def split: runtime_obj.split)

lemma depl_notify_deliver:
  "depl_notify deliver n b = b @ (case snd (notified n) of ObjDeployment d \<Rightarrow> [notified n] | _ \<Rightarrow> [])"
  by (cases n)
    (auto simp: InformerBackedDeploymentCache_addEvtHandler_def InformerBackedDeploymentCache_updateEvtHandler_def
      InformerBackedDeploymentCache_deleteEvtHandler_def deliver_def split: runtime_obj.split)

text \<open>
  C32: A watch on one ConfigMap sees exactly the informer's notifications about it. Whatever
  sequence of add, update and delete notifications arrives, for objects of any type, the events
  that come through the handlers and pass the filter of \<open>Watch\<close> are, in order and each once, the
  notifications whose object is a ConfigMap of that namespace and that name.
\<close>

theorem configmap_watch_exact:
  "filter (InformerConfigMapUpdater_Watch ns name) (fold (cm_notify deliver) ns0 []) =
   [e \<leftarrow> map notified ns0. \<exists>cm. snd e = ObjConfigMap cm \<and> cm_Namespace cm = ns \<and> cm_Name cm = name]"
proof -
  have "filter (InformerConfigMapUpdater_Watch ns name) (fold (cm_notify deliver) ns0 b) =
      filter (InformerConfigMapUpdater_Watch ns name) b @
      [e \<leftarrow> map notified ns0. \<exists>cm. snd e = ObjConfigMap cm \<and> cm_Namespace cm = ns \<and> cm_Name cm = name]" for b
    by (induction ns0 arbitrary: b)
      (auto simp: cm_notify_deliver InformerConfigMapUpdater_Watch_def split: runtime_obj.split)
  then show ?thesis by simp
qed

theorem configmap_watch_exact_witness:
  "filter (InformerConfigMapUpdater_Watch ''ns'' ''a'')
     (fold (cm_notify deliver) [OnAdd (ObjConfigMap (zero_ConfigMap\<lparr>cm_Namespace := ''ns2'', cm_Name := ''a''\<rparr>)),
        OnUpdate (ObjOther []) (ObjConfigMap (zero_ConfigMap\<lparr>cm_Namespace := ''ns'', cm_Name := ''a''\<rparr>)), OnDelete (ObjOther [])] []) =
   [(Modified, ObjConfigMap (zero_ConfigMap\<lparr>cm_Namespace := ''ns'', cm_Name := ''a''\<rparr>))]"
  unfolding configmap_watch_exact by simp

text \<open>
  C33: The unchecked type assertion in the deployment watch never panics. Every event that the
  handlers of the deployment cache put on the broadcaster is a deployment, so the filter of every
  watch returns on each of them, whatever notifications the informer made.
\<close>

theorem deployment_watch_safe:
  "list_all (\<lambda>e. returns (InformerBackedDeploymentCache_Watch ns name e)) (fold (depl_notify deliver) ns0 [])"
proof -
  have "list_all (\<lambda>e. returns (InformerBackedDeploymentCache_Watch ns name e)) (fold (depl_notify deliver) ns0 b)"
    if "list_all (\<lambda>e. returns (InformerBackedDeploymentCache_Watch ns name e)) b" for b
    using that
    by (induction ns0 arbitrary: b)
      (auto simp: depl_notify_deliver InformerBackedDeploymentCache_Watch_def split: runtime_obj.split)
  then show ?thesis by simp
qed

section \<open>The fake deployment cache\<close>

lemma with_lock_unlocked:
  "fdc_mut f = Unlocked \<Longrightarrow> with_lock (\<lambda>f. Some (g f, x f)) f =
    Some ((g (f\<lparr>fdc_mut := WLocked\<rparr>))\<lparr>fdc_mut := Unlocked\<rparr>, x (f\<lparr>fdc_mut := WLocked\<rparr>))"
  by (simp add: with_lock_def rw_Lock_def)

lemma key_inject: "CHR ''/'' \<notin> set ns \<Longrightarrow> CHR ''/'' \<notin> set ns' \<Longrightarrow> key ns name = key ns' name' \<longleftrightarrow> ns = ns' \<and> name = name'"
  unfolding key_def by (induction ns arbitrary: ns') (auto simp: Cons_eq_append_conv, (case_tac ns'; auto)+)

text \<open>
  A store of deployments by namespace and name, as the interceptor uses one: \<open>lookup\<close> reads,
  \<open>store\<close> writes one entry and leaves the others.
\<close>

locale deployment_store =
  fixes ready :: "'s \<Rightarrow> bool"
    and store :: "string \<Rightarrow> string \<Rightarrow> Deployment \<Rightarrow> 's \<Rightarrow> 's option"
    and find_depl :: "'s \<Rightarrow> string \<Rightarrow> string \<Rightarrow> Deployment option"
    and ok :: "string \<Rightarrow> bool"
  assumes store_law: "ready s \<Longrightarrow> ok ns \<Longrightarrow>
      \<exists>s'. store ns n d s = Some s' \<and> ready s' \<and> find_depl s' ns n = Some d \<and>
        (\<forall>ns' n'. ok ns' \<longrightarrow> (ns', n') \<noteq> (ns, n) \<longrightarrow> find_depl s' ns' n' = find_depl s ns' n')"
begin

fun store_all :: "((string \<times> string) \<times> Deployment) list \<Rightarrow> 's \<Rightarrow> 's option" where
  "store_all [] s = Some s"
| "store_all (((ns, n), d) # xs) s = Option.bind (store ns n d s) (store_all xs)"

lemma store_all_last:
  assumes "ready s" "\<forall>((ns, n), d) \<in> set xs. ok ns"
  shows "\<exists>s'. store_all xs s = Some s' \<and> ready s' \<and>
    (\<forall>ns n. ok ns \<longrightarrow> find_depl s' ns n = (case map_of (rev xs) (ns, n) of Some d \<Rightarrow> Some d | None \<Rightarrow> find_depl s ns n))"
  using assms
proof (induction xs arbitrary: s)
  case (Cons x xs)
  obtain ns n d where x: "x = ((ns, n), d)" by (cases x) auto
  then obtain s1 where s1: "store ns n d s = Some s1" "ready s1" "find_depl s1 ns n = Some d"
    "\<And>ns' n'. ok ns' \<Longrightarrow> (ns', n') \<noteq> (ns, n) \<Longrightarrow> find_depl s1 ns' n' = find_depl s ns' n'"
    using store_law [of s ns n d] Cons.prems by auto
  then obtain s' where s': "store_all xs s1 = Some s'" "ready s'"
    "\<And>ns n. ok ns \<Longrightarrow> find_depl s' ns n = (case map_of (rev xs) (ns, n) of Some d \<Rightarrow> Some d | None \<Rightarrow> find_depl s1 ns n)"
    using Cons.IH [of s1] Cons.prems by auto
  have "find_depl s' ns' n' = (case map_of (rev (x # xs)) (ns', n') of Some d \<Rightarrow> Some d | None \<Rightarrow> find_depl s ns' n')"
    if "ok ns'" for ns' n'
    using s'(3) [OF that] s1(3,4) that x by (auto simp: map_add_def split: option.split)
  with s1 s' x show ?case by auto
qed simp

end

definition fdc_find :: "FakeDeploymentCache \<Rightarrow> string \<Rightarrow> string \<Rightarrow> Deployment option" where
  "fdc_find f ns name =
     (case FakeDeploymentCache_Get ns name f of Some (_, d, None) \<Rightarrow> Some d | _ \<Rightarrow> None)"

definition fdc_store :: "string \<Rightarrow> string \<Rightarrow> Deployment \<Rightarrow> FakeDeploymentCache \<Rightarrow> FakeDeploymentCache option" where
  "fdc_store ns name d f = map_option fst (FakeDeploymentCache_Set ns name d f)"

lemma fdc_find_unlocked: "fdc_mut f = Unlocked \<Longrightarrow> fdc_find f ns name = fmlookup (fdc_current f) (key ns name)"
  by (auto simp: fdc_find_def FakeDeploymentCache_Get_def with_rlock_def rw_RLock_def split: option.split)

interpretation fdc: deployment_store "\<lambda>f. fdc_mut f = Unlocked" fdc_store fdc_find "\<lambda>ns. CHR ''/'' \<notin> set ns"
  by unfold_locales
    (auto simp: fdc_store_def FakeDeploymentCache_Set_def with_lock_unlocked fdc_find_unlocked key_inject)

text \<open>
  The fake deployment cache is a store keyed by namespace and name. After any sequence of
  \<open>Set\<close> calls on a new cache, for namespaces without a slash, \<open>Get\<close> finds the deployment that was
  set last for that namespace and name, and finds nothing where none was set.
\<close>

theorem fake_cache_last_set:
  assumes "\<forall>((ns, n), d) \<in> set xs. CHR ''/'' \<notin> set ns" and "CHR ''/'' \<notin> set ns"
  shows "\<exists>f. fdc.store_all xs NewFakeDeploymentCache = Some f \<and> fdc_find f ns n = map_of (rev xs) (ns, n)"
  using fdc.store_all_last [of NewFakeDeploymentCache xs] assms
  by (auto simp: NewFakeDeploymentCache_def fdc_find_unlocked split: option.split)

theorem fake_cache_last_set_witness:
  "\<exists>f. fdc.store_all [((''a'', ''b''), zero_Deployment), ((''a'', ''b''), zero_Deployment\<lparr>depl_Name := ''x''\<rparr>)]
      NewFakeDeploymentCache = Some f \<and> fdc_find f ''a'' ''b'' = Some (zero_Deployment\<lparr>depl_Name := ''x''\<rparr>)"
  using fake_cache_last_set [of "[((''a'', ''b''), zero_Deployment), ((''a'', ''b''), zero_Deployment\<lparr>depl_Name := ''x''\<rparr>)]" "''a''" "''b''"]
  by simp

text \<open>
  \<open>FakeDeploymentCache.SetReplicas\<close> never returns. It takes the write lock and then calls
  \<open>Get\<close>, which waits for the read lock of the same mutex: in every state of the cache the call
  blocks forever.
\<close>

theorem SetReplicas_deadlocks: "FakeDeploymentCache_SetReplicas ns name num f = None"
  by (simp add: FakeDeploymentCache_SetReplicas_def FakeDeploymentCache_Get_def with_lock_def with_rlock_def
      rw_Lock_def rw_RLock_def split: rwmutex.split option.split)

end
