(* ===== verification/Routing.thy ===== *)
theory Routing
  imports Queue K8s
begin

text \<open>
  The routing table of \<open>pkg/routing\<close>: targets and their service URLs, the table with its
  operations and JSON form, the ConfigMap that carries it from the operator to the interceptor
  and the scaler, the two HTTP routes, and the loop that follows ConfigMap events. The
  interface \<open>TableReader\<close> is a record of operations, and the locale \<open>table_reader\<close> its contract.
\<close>

section \<open>Targets\<close>

record Target =
  Service :: string
  Port :: gint
  Deployment :: string
  Namespace :: string
  TargetPendingRequests :: i32

definition NewTarget :: "string \<Rightarrow> string \<Rightarrow> gint \<Rightarrow> string \<Rightarrow> i32 \<Rightarrow> Target" where
  "NewTarget namespace svc port depl targetPendingReqs =
     \<lparr>Service = svc, Port = port, Deployment = depl, Namespace = namespace,
      TargetPendingRequests = targetPendingReqs\<rparr>"

definition zero_Target :: Target where
  "zero_Target = \<lparr>Service = [], Port = 0, Deployment = [], Namespace = [], TargetPendingRequests = 0\<rparr>"

text \<open>The URL text is \<open>http://\<close> followed by service, namespace and port.\<close>

definition ServiceURL :: "Target \<Rightarrow> error + URL" where
  "ServiceURL t = parse_http (Service t @ ''.'' @ Namespace t @ '':'' @ fmt_d (Port t))"

text \<open>
  The JSON object of a target. Decoding matches the field names as \<open>encoding/json\<close> does: an
  exact name, else one equal under case folding; unknown names are skipped and a value of the
  wrong type leaves the field and records the error.
\<close>

definition Target_json :: "Target \<Rightarrow> json" where
  "Target_json t =
     JObj [(''Service'', JStr (Service t)), (''Port'', json_int (Port t)),
           (''Deployment'', JStr (Deployment t)), (''Namespace'', JStr (Namespace t)),
           (''TargetPendingRequests'', json_int32 (TargetPendingRequests t))]"

text \<open>Case folding to upper case; U+017F folds to S and U+212A to K.\<close>

fun foldName :: "string \<Rightarrow> string" where
  "foldName (c # d # e # s) =
     (if byte c = 0xE2 \<and> byte d = 0x84 \<and> byte e = 0xAA then CHR ''K'' # foldName s
      else if byte c = 0xC5 \<and> byte d = 0xBF then CHR ''S'' # foldName (e # s)
      else (if is_lower c then char_of (byte c - 32) else c) # foldName (d # e # s))"
| "foldName [c, d] =
     (if byte c = 0xC5 \<and> byte d = 0xBF then ''S''
      else (if is_lower c then char_of (byte c - 32) else c) # foldName [d])"
| "foldName [c] = [if is_lower c then char_of (byte c - 32) else c]"
| "foldName [] = []"

definition target_field :: "string \<Rightarrow> string option" where
  "target_field k =
     find (\<lambda>n. foldName n = foldName k)
       [''Service'', ''Port'', ''Deployment'', ''Namespace'', ''TargetPendingRequests'']"

definition decode_field :: "string \<Rightarrow> json \<Rightarrow> Target \<Rightarrow> Target \<times> error option" where
  "decode_field k j t =
     (case target_field k of
        None \<Rightarrow> (t, None)
      | Some n \<Rightarrow>
          if n = ''Service'' then
            (let (v, e) = decode_string (Service t) j in (t\<lparr>Service := v\<rparr>, e))
          else if n = ''Port'' then
            (let (v, e) = decode_int (Port t) j in (t\<lparr>Port := v\<rparr>, e))
          else if n = ''Deployment'' then
            (let (v, e) = decode_string (Deployment t) j in (t\<lparr>Deployment := v\<rparr>, e))
          else if n = ''Namespace'' then
            (let (v, e) = decode_string (Namespace t) j in (t\<lparr>Namespace := v\<rparr>, e))
          else
            (let (v, e) = decode_int32 (TargetPendingRequests t) j in (t\<lparr>TargetPendingRequests := v\<rparr>, e)))"

fun decode_fields :: "(string \<times> json) list \<Rightarrow> Target \<Rightarrow> error option \<Rightarrow> Target \<times> error option" where
  "decode_fields [] t e = (t, e)"
| "decode_fields ((k, j) # kvs) t e =
     (let (t', e') = decode_field k j t in decode_fields kvs t' (first_error e e'))"

definition decode_target :: "json \<Rightarrow> Target \<times> error option" where
  "decode_target j =
     (case j of
        JObj kvs \<Rightarrow> decode_fields kvs zero_Target None
      | JNull \<Rightarrow> (zero_Target, None)
      | _ \<Rightarrow> (zero_Target, Some type_error))"

section \<open>The table\<close>

record Table =
  tm :: "Target gomap"   \<comment> \<open>nil after decoding a JSON null\<close>

definition NewTable :: Table where
  "NewTable = \<lparr>tm = Some fmempty\<rparr>"

text \<open>\<open>Hosts\<close> appends the keys in the order of the map iteration.\<close>

definition hosts_loop :: "(string \<times> Target) list \<Rightarrow> string list" where
  "hosts_loop xs = foldl (\<lambda>ret (host, _). ret @ [host]) [] xs"

definition Table_Hosts :: "Table \<Rightarrow> string list" where
  "Table_Hosts t = hosts_loop (entries (tm t))"

definition Table_HasHost :: "Table \<Rightarrow> string \<Rightarrow> bool" where
  "Table_HasHost t host \<longleftrightarrow> map_get (tm t) host \<noteq> None"

definition fmt_v_Target :: "Target \<Rightarrow> string" where
  "fmt_v_Target t =
     ''{'' @ Join [Service t, fmt_d (Port t), Deployment t, Namespace t, fmt_d32 (TargetPendingRequests t)]
       CHR '' '' @ ''}''"

definition Table_String :: "Table \<Rightarrow> string" where
  "Table_String t =
     ''map['' @ Join (map (\<lambda>(k, v). k @ '':'' @ fmt_v_Target v) (entries (tm t))) CHR '' '' @ '']''"

definition Table_json :: "Table \<Rightarrow> json" where
  "Table_json t = encode_map Target_json (tm t)"

text \<open>The encoder ends the text with a line feed, which \<open>MarshalJSON\<close> keeps.\<close>

definition Table_MarshalJSON :: "Table \<Rightarrow> error + string" where
  "Table_MarshalJSON t = Inr (json_print (Table_json t) @ [newline])"

definition Table_UnmarshalJSON :: "Table \<Rightarrow> string \<Rightarrow> Table \<times> error option" where
  "Table_UnmarshalJSON t data =
     (let t' = t\<lparr>tm := Some fmempty\<rparr> in
      case decode_first data of
        Inl err \<Rightarrow> (t', Some err)
      | Inr j \<Rightarrow>
          (let (f, err) = decode_map decode_target (tm t') j in (t'\<lparr>tm := f\<rparr>, err)))"

definition lookup_keys :: "string \<Rightarrow> string list" where
  "lookup_keys host =
     (case LastIndex host CHR '':'' of None \<Rightarrow> [host] | Some i \<Rightarrow> [host, take i host])"

fun lookup_loop :: "Table \<Rightarrow> string list \<Rightarrow> error + Target" where
  "lookup_loop t [] = Inl ErrTargetNotFound"
| "lookup_loop t (k # ks) =
     (case map_get (tm t) k of Some target \<Rightarrow> Inr target | None \<Rightarrow> lookup_loop t ks)"

definition Table_Lookup :: "Table \<Rightarrow> string \<Rightarrow> error + Target" where
  "Table_Lookup t host = lookup_loop t (lookup_keys host)"

text \<open>A write to the nil map panics; a delete from it does nothing.\<close>

definition Table_AddTarget :: "string \<Rightarrow> Target \<Rightarrow> Table \<Rightarrow> (Table \<times> error option) go" where
  "Table_AddTarget host target t =
     (case map_get (tm t) host of
        Some _ \<Rightarrow> Ret (t, Some (Errorf (''host '' @ host @ '' is already registered in the routing table'')))
      | None \<Rightarrow> bind_go (map_set (tm t) host target) (\<lambda>f. Ret (t\<lparr>tm := f\<rparr>, None)))"

definition Table_RemoveTarget :: "string \<Rightarrow> Table \<Rightarrow> Table \<times> error option" where
  "Table_RemoveTarget host t =
     (case map_get (tm t) host of
        None \<Rightarrow> (t, Some (Errorf (''host '' @ host @ '' did not exist in the routing table'')))
      | Some _ \<Rightarrow> (t\<lparr>tm := map_del (tm t) host\<rparr>, None))"

definition Table_Replace :: "Table \<Rightarrow> Table \<Rightarrow> Table" where
  "Table_Replace newTable t = t\<lparr>tm := tm newTable\<rparr>"

record 't TableReader =
  tr_Lookup :: "'t \<Rightarrow> string \<Rightarrow> error + Target"
  tr_Hosts :: "'t \<Rightarrow> string list"
  tr_HasHost :: "'t \<Rightarrow> string \<Rightarrow> bool"

definition Table_Reader :: "Table TableReader" where
  "Table_Reader = \<lparr>tr_Lookup = Table_Lookup, tr_Hosts = Table_Hosts, tr_HasHost = Table_HasHost\<rparr>"

section \<open>The table in a ConfigMap\<close>

definition ConfigMapRoutingTableName :: string where
  "ConfigMapRoutingTableName = ''keda-http-add-on-routing-table''"

definition configMapRoutingTableKey :: string where
  "configMapRoutingTableKey = ''routing-table''"

definition SaveTableToConfigMap :: "Table \<Rightarrow> ConfigMap \<Rightarrow> (ConfigMap \<times> error option) go" where
  "SaveTableToConfigMap table configMap =
     (case Table_MarshalJSON table of
        Inl err \<Rightarrow> Ret (configMap, Some err)
      | Inr tableAsJSON \<Rightarrow>
          bind_go (map_set (cm_Data configMap) configMapRoutingTableKey tableAsJSON)
            (\<lambda>d. Ret (configMap\<lparr>cm_Data := d\<rparr>, None)))"

definition FetchTableFromConfigMap :: "ConfigMap \<Rightarrow> error + Table" where
  "FetchTableFromConfigMap configMap =
     (case map_get (cm_Data configMap) configMapRoutingTableKey of
        None \<Rightarrow> Inl (Errorf (''no '' @ [CHR 0x27] @ configMapRoutingTableKey @ [CHR 0x27] @ '' key found in the '' @
          ConfigMapRoutingTableName @ '' ConfigMap''))
      | Some data \<Rightarrow>
          (case Table_UnmarshalJSON NewTable data of
             (ret, Some err) \<Rightarrow>
               Inl (Wrap err (''error decoding '' @ [CHR 0x27] @ configMapRoutingTableKey @ [CHR 0x27] @ '' key in '' @
                 ConfigMapRoutingTableName @ '' ConfigMap''))
           | (ret, None) \<Rightarrow> Inr ret))"

text \<open>\<open>getter\<close> is the \<open>ConfigMapGetter\<close>; the queue argument of the code is not used.\<close>

definition GetTable :: "(string \<Rightarrow> error + ConfigMap) \<Rightarrow> Table \<Rightarrow> Table \<times> error option" where
  "GetTable getter table =
     (case getter ConfigMapRoutingTableName of
        Inl err \<Rightarrow> (table, Some (Wrap err (''failed to fetch ConfigMap '' @ ConfigMapRoutingTableName)))
      | Inr cm \<Rightarrow>
          (case FetchTableFromConfigMap cm of
             Inl err \<Rightarrow> (table, Some (Wrap err (''failed decoding ConfigMap '' @ ConfigMapRoutingTableName @
               '' into a routing table'')))
           | Inr newTable \<Rightarrow> (Table_Replace newTable table, None)))"

section \<open>The HTTP routes\<close>

definition routingPingPath :: string where
  "routingPingPath = ''/routing_ping''"

definition routingFetchPath :: string where
  "routingFetchPath = ''/routing_table''"

type_synonym table_handler = "Table \<Rightarrow> ResponseWriter \<Rightarrow> Table \<times> ResponseWriter"

definition newTableHandler :: table_handler where
  "newTableHandler table w =
     (case EncodeTo (Table_json table) w of
        (w', None) \<Rightarrow> (table, w')
      | (w', Some err) \<Rightarrow>
          (table, fst (Write ''error encoding and transmitting the routing table'' (WriteHeader 500 w'))))"

definition AddFetchRoute :: "table_handler ServeMux \<Rightarrow> table_handler ServeMux go" where
  "AddFetchRoute mux = Handle routingFetchPath newTableHandler mux"

definition ping_handler :: "(string \<Rightarrow> error + ConfigMap) \<Rightarrow> table_handler" where
  "ping_handler getter table w =
     (case GetTable getter table of
        (table', Some err) \<Rightarrow> (table', fst (Write ''error fetching routing table'' (WriteHeader 500 w)))
      | (table', None) \<Rightarrow>
          (case EncodeTo (Table_json table') (WriteHeader 200 w) of
             (w', None) \<Rightarrow> (table', w')
           | (w', Some err) \<Rightarrow> (table', WriteHeader 500 w')))"

definition AddPingRoute ::
    "(string \<Rightarrow> error + ConfigMap) \<Rightarrow> table_handler ServeMux \<Rightarrow> table_handler ServeMux go" where
  "AddPingRoute getter mux = Handle routingPingPath (ping_handler getter) mux"

section \<open>Following the ConfigMap\<close>

text \<open>
  One element of the list is what the \<open>select\<close> of the loop received: an event's object, or the
  end of the context. The last component of the result is \<open>None\<close> while the loop still waits,
  and what it returned otherwise. \<open>cbFunc\<close> acts on a state \<open>'w\<close> of its own.
\<close>

datatype selected = Received runtime_obj | CtxDone "error option"

fun updater_loop ::
    "('w \<Rightarrow> 'w \<times> error option) option \<Rightarrow> selected list \<Rightarrow> Table \<Rightarrow> 'w \<Rightarrow> Table \<times> 'w \<times> error option option" where
  "updater_loop cbFunc [] table w = (table, w, None)"
| "updater_loop cbFunc (CtxDone ctxErr # evs) table w = (table, w, Some (wrap ctxErr ''context is done''))"
| "updater_loop cbFunc (Received (ObjConfigMap cm) # evs) table w =
     (case FetchTableFromConfigMap cm of
        Inl err \<Rightarrow> (table, w, Some (Some err))
      | Inr newTable \<Rightarrow>
          (let table' = Table_Replace newTable table in
           case cbFunc of
             Some cb \<Rightarrow> updater_loop cbFunc evs table' (fst (cb w))
           | None \<Rightarrow> updater_loop cbFunc evs table' w))"
| "updater_loop cbFunc (Received _ # evs) table w = updater_loop cbFunc evs table w"

text \<open>\<open>errgroup.Wait\<close>: the first error, in the order in which the goroutines return.\<close>

definition grp_Wait :: "error option list \<Rightarrow> error option" where
  "grp_Wait rets = (case filter (\<lambda>e. e \<noteq> None) rets of [] \<Rightarrow> None | e # _ \<Rightarrow> e)"

text \<open>
  The informer goroutine returns when the context is done, with \<open>informerErr\<close> as the context's
  error; \<open>informerFirst\<close> says whether it returns before the loop.
\<close>

definition StartConfigMapRoutingTableUpdater ::
    "error option \<Rightarrow> ('w \<Rightarrow> 'w \<times> error option) option \<Rightarrow> selected list \<Rightarrow> error option \<Rightarrow> bool \<Rightarrow>
     Table \<Rightarrow> 'w \<Rightarrow> Table \<times> 'w \<times> error option option" where
  "StartConfigMapRoutingTableUpdater watchErr cbFunc evs informerErr informerFirst table w =
     (case watchErr of
        Some err \<Rightarrow> (table, w, Some (Some err))
      | None \<Rightarrow>
          (case updater_loop cbFunc evs table w of
             (table', w', None) \<Rightarrow> (table', w', None)
           | (table', w', Some loopErr) \<Rightarrow>
               (let inf = InformerConfigMapUpdater_Start informerErr in
                (table', w', Some (grp_Wait (if informerFirst then [inf, loopErr] else [loopErr, inf]))))))"

section \<open>Targets through JSON\<close>

lemma target_field_names [simp]:
  "target_field ''Service'' = Some ''Service''" "target_field ''Port'' = Some ''Port''"
  "target_field ''Deployment'' = Some ''Deployment''" "target_field ''Namespace'' = Some ''Namespace''"
  "target_field ''TargetPendingRequests'' = Some ''TargetPendingRequests''"
  by code_simp+

lemma decode_target_json [simp]: "decode_target (Target_json t) = (t, None)"
  by (simp add: decode_target_def Target_json_def decode_field_def zero_Target_def first_error_def)

definition valid_target :: "Target \<Rightarrow> bool" where
  "valid_target t \<longleftrightarrow> valid_utf8 (Service t) \<and> valid_utf8 (Deployment t) \<and> valid_utf8 (Namespace t)"

definition valid_table :: "Table \<Rightarrow> bool" where
  "valid_table t \<longleftrightarrow> list_all (\<lambda>(k, v). valid_utf8 k \<and> valid_target v) (entries (tm t))"

lemma valid_names [simp]:
  "valid_utf8 ''Service''" "valid_utf8 ''Port''" "valid_utf8 ''Deployment''" "valid_utf8 ''Namespace''"
  "valid_utf8 ''TargetPendingRequests''"
  by code_simp+

lemma json_wf_Target: "valid_target t \<Longrightarrow> json_wf (Target_json t)"
  by (simp add: valid_target_def Target_json_def)

lemma valid_tableD:
  assumes "valid_table t" "map_get (tm t) k = Some v"
  shows "valid_utf8 k \<and> valid_target v"
proof -
  have "(k, v) \<in> set (entries (tm t))" using assms(2) by (cases "tm t") (auto simp: set_sorted_list_of_fmap)
  then show ?thesis using assms(1) by (auto simp: valid_table_def list_all_iff)
qed

lemma json_wf_Table: "valid_table t \<Longrightarrow> json_wf (Table_json t)"
  unfolding Table_json_def by (rule json_wf_encode_map) (auto dest: valid_tableD intro: json_wf_Target)

lemma decode_table_json: "decode_map decode_target (Some fmempty) (Table_json t) = (tm t, None)"
proof (cases "tm t")
  case None
  then show ?thesis by (simp add: Table_json_def encode_map_def decode_map_def)
next
  case (Some f)
  then show ?thesis by (simp add: Table_json_def decode_encode_map)
qed

lemma Unmarshal_Marshal:
  assumes "valid_table t" "Table_MarshalJSON t = Inr data"
  shows "Table_UnmarshalJSON t0 data = (t0\<lparr>tm := tm t\<rparr>, None)"
  using assms decode_first_print [OF json_wf_Table [OF assms(1)]]
  by (auto simp: Table_MarshalJSON_def Table_UnmarshalJSON_def decode_table_json)

lemma Fetch_Save:
  assumes "valid_table t" "SaveTableToConfigMap t cm = Ret (cm', e)"
  shows "e = None \<and> FetchTableFromConfigMap cm' = Inr t"
proof -
  obtain d where d: "cm_Data cm = Some d"
    using assms(2) by (cases "cm_Data cm") (auto simp: SaveTableToConfigMap_def Table_MarshalJSON_def)
  then have "cm' = cm\<lparr>cm_Data := Some (fmupd configMapRoutingTableKey (json_print (Table_json t) @ [newline]) d)\<rparr>"
    "e = None"
    using assms(2) by (auto simp: SaveTableToConfigMap_def Table_MarshalJSON_def)
  then show ?thesis
    using Unmarshal_Marshal [OF assms(1), of _ NewTable]
    by (cases t) (simp add: FetchTableFromConfigMap_def Table_MarshalJSON_def NewTable_def)
qed

text \<open>
  C11: The routing table survives its trip through the ConfigMap. If \<open>SaveTableToConfigMap\<close>
  returns, for a table whose strings are valid UTF-8, it reports no error, and
  \<open>FetchTableFromConfigMap\<close> of the ConfigMap it wrote gives back the same table, with every
  port and target count at its full width.
\<close>

theorem table_configmap_roundtrip:
  assumes "valid_table t" and "SaveTableToConfigMap t cm = Ret (cm', e)"
  shows "e = None \<and> FetchTableFromConfigMap cm' = Inr t \<and>
    cm_Name cm' = cm_Name cm \<and> cm_Namespace cm' = cm_Namespace cm"
  using Fetch_Save [OF assms] assms(2)
  by (cases "cm_Data cm") (auto simp: SaveTableToConfigMap_def Table_MarshalJSON_def)

definition sample_target :: Target where
  "sample_target = NewTarget ''ns'' ''svc'' 8080 ''depl'' 100"

definition sample_table :: Table where
  "sample_table = \<lparr>tm = Some (fmap_of_list [(''a.com'', sample_target)])\<rparr>"

definition sample_cm :: ConfigMap where
  "sample_cm = zero_ConfigMap\<lparr>cm_Data := Some fmempty\<rparr>"

lemma valid_sample: "valid_table sample_table"
  by code_simp

theorem table_configmap_roundtrip_witness:
  "\<exists>cm'. SaveTableToConfigMap sample_table sample_cm = Ret (cm', None) \<and>
     FetchTableFromConfigMap cm' = Inr sample_table"
proof -
  obtain cm' e where s: "SaveTableToConfigMap sample_table sample_cm = Ret (cm', e)"
    by (simp add: SaveTableToConfigMap_def Table_MarshalJSON_def sample_cm_def)
  from table_configmap_roundtrip [OF valid_sample s] s show ?thesis by blast
qed

section \<open>Lookup\<close>

lemma lookup_keys_colon: "CHR '':'' \<notin> set p \<Longrightarrow> lookup_keys (h @ CHR '':'' # p) = [h @ CHR '':'' # p, h]"
  by (simp add: lookup_keys_def LastIndex_append)

lemma lookup_keys_plain: "CHR '':'' \<notin> set h \<Longrightarrow> lookup_keys h = [h]"
  by (simp add: lookup_keys_def option.case_eq_if)

text \<open>
  A lookup tries the host as given and then without its port. A registered host is found
  under its own name; \<open>name:port\<close> that is not registered itself gives what \<open>name\<close> is
  registered for; and the error is \<open>ErrTargetNotFound\<close> exactly when neither is registered.
\<close>

theorem Lookup_port_fallback:
  assumes "CHR '':'' \<notin> set p" and "CHR '':'' \<notin> set h"
  shows "Table_Lookup t h = (case map_get (tm t) h of Some tg \<Rightarrow> Inr tg | None \<Rightarrow> Inl ErrTargetNotFound) \<and>
    Table_Lookup t (h @ '':'' @ p) =
      (case map_get (tm t) (h @ '':'' @ p) of Some tg \<Rightarrow> Inr tg | None \<Rightarrow> Table_Lookup t h) \<and>
    (Table_Lookup t (h @ '':'' @ p) = Inl ErrTargetNotFound \<longleftrightarrow>
      \<not> Table_HasHost t (h @ '':'' @ p) \<and> \<not> Table_HasHost t h)"
  using assms
  by (auto simp: Table_Lookup_def lookup_keys_colon lookup_keys_plain Table_HasHost_def split: option.split)

theorem Lookup_port_fallback_witness:
  "Table_Lookup sample_table ''a.com:8080'' = Inr sample_target"
proof -
  have "map_get (tm sample_table) ''a.com'' = Some sample_target"
    "map_get (tm sample_table) ''a.com:8080'' = None"
    by (simp_all add: sample_table_def)
  then show ?thesis
    using Lookup_port_fallback [of "''8080''" "''a.com''" sample_table] by simp
qed

text \<open>
  The contract of a table reader: the hosts it lists are the ones it has, and a lookup of such a
  host succeeds, while the error names the missing target.
\<close>

locale table_reader =
  fixes R :: "'t TableReader"
  assumes Hosts_law: "tr_HasHost R t h \<longleftrightarrow> h \<in> set (tr_Hosts R t)"
    and found_law: "tr_HasHost R t h \<Longrightarrow> \<exists>tg. tr_Lookup R t h = Inr tg"
    and error_law: "tr_Lookup R t h = Inl e \<Longrightarrow> e = ErrTargetNotFound"
    and missing_law: "tr_Lookup R t h = Inr tg \<Longrightarrow> \<exists>k \<in> set (lookup_keys h). tr_HasHost R t k"
begin

lemma lookup_all_hosts: "\<forall>h \<in> set (tr_Hosts R t). \<exists>tg. tr_Lookup R t h = Inr tg"
  using Hosts_law found_law by blast

lemma empty_reader: "tr_Hosts R t = [] \<Longrightarrow> tr_Lookup R t h = Inl ErrTargetNotFound"
  using Hosts_law missing_law error_law by (cases "tr_Lookup R t h") fastforce+

end

lemma hosts_loop_map: "hosts_loop xs = map fst xs"
proof -
  have "foldl (\<lambda>ret (host, _). ret @ [host]) r xs = r @ map fst xs" for r
    by (induction xs arbitrary: r) auto
  then show ?thesis by (simp add: hosts_loop_def)
qed

lemma set_Table_Hosts: "h \<in> set (Table_Hosts t) \<longleftrightarrow> Table_HasHost t h"
proof (cases "tm t")
  case (Some f)
  then show ?thesis
    by (simp add: Table_Hosts_def Table_HasHost_def hosts_loop_map fst_sorted_list_of_fmap
        fmlookup_dom_iff)
qed (simp add: Table_Hosts_def Table_HasHost_def hosts_loop_map)

lemma lookup_loop_Inr: "lookup_loop t ks = Inr tg \<Longrightarrow> \<exists>k \<in> set ks. Table_HasHost t k"
  by (induction t ks rule: lookup_loop.induct) (auto simp: Table_HasHost_def split: option.splits)

lemma lookup_loop_Inl: "lookup_loop t ks = Inl e \<Longrightarrow> e = ErrTargetNotFound"
  by (induction t ks rule: lookup_loop.induct) (auto split: option.splits)

lemma hd_lookup_keys: "\<exists>ks. lookup_keys h = h # ks"
  by (simp add: lookup_keys_def split: option.split)

lemma Lookup_HasHost: "Table_HasHost t h \<Longrightarrow> \<exists>tg. Table_Lookup t h = Inr tg"
  using hd_lookup_keys [of h] by (auto simp: Table_Lookup_def Table_HasHost_def)

lemma Lookup_Inl: "Table_Lookup t h = Inl e \<Longrightarrow> e = ErrTargetNotFound"
  unfolding Table_Lookup_def by (rule lookup_loop_Inl)

lemma Lookup_Inr: "Table_Lookup t h = Inr tg \<Longrightarrow> \<exists>k \<in> set (lookup_keys h). Table_HasHost t k"
  unfolding Table_Lookup_def by (rule lookup_loop_Inr)

interpretation tbl: table_reader Table_Reader
  by unfold_locales
    (auto simp: Table_Reader_def set_Table_Hosts Lookup_HasHost
      dest: Lookup_Inl Lookup_Inr)

text \<open>
  \<open>Hosts\<close> lists the registered hosts, each once, in whatever order the map is iterated, and
  every listed host can be looked up; an empty table finds nothing.
\<close>

theorem Hosts_complete:
  assumes "enumerates xs f"
  shows "set (hosts_loop xs) = {h. Table_HasHost \<lparr>tm = Some f\<rparr> h} \<and> distinct (hosts_loop xs) \<and>
    (\<forall>h \<in> set (hosts_loop xs). \<exists>tg. Table_Lookup \<lparr>tm = Some f\<rparr> h = Inr tg) \<and>
    (xs = [] \<longrightarrow> Table_Lookup \<lparr>tm = Some f\<rparr> h = Inl ErrTargetNotFound)"
proof -
  have d: "distinct (map fst xs)" and l: "map_of xs = fmlookup f"
    using assms by (auto simp: enumerates_def)
  have s: "set (hosts_loop xs) = {h. Table_HasHost \<lparr>tm = Some f\<rparr> h}"
    using dom_map_of_conv_image_fst [of xs] l by (simp add: hosts_loop_map Table_HasHost_def dom_def)
  moreover have "set (hosts_loop xs) = set (Table_Hosts \<lparr>tm = Some f\<rparr>)"
    using s set_Table_Hosts by blast
  moreover have "Table_Lookup \<lparr>tm = Some f\<rparr> h = Inl ErrTargetNotFound" if "xs = []"
    using tbl.empty_reader [of "\<lparr>tm = Some f\<rparr>" h] that calculation(2)
    by (simp add: Table_Reader_def hosts_loop_map)
  ultimately show ?thesis
    using d tbl.lookup_all_hosts [of "\<lparr>tm = Some f\<rparr>"] by (simp add: hosts_loop_map Table_Reader_def)
qed

theorem Hosts_complete_witness:
  "set (hosts_loop [(''b'', zero_Target), (''a'', zero_Target)]) =
     {h. Table_HasHost \<lparr>tm = Some (fmap_of_list [(''a'', zero_Target), (''b'', zero_Target)])\<rparr> h}"
proof -
  have "enumerates [(''b'', zero_Target), (''a'', zero_Target)] (fmap_of_list [(''a'', zero_Target), (''b'', zero_Target)])"
    by (auto simp: enumerates_def fun_eq_iff)
  from Hosts_complete [OF this] show ?thesis by (rule conjunct1)
qed

section \<open>Adding and removing targets\<close>

text \<open>
  Adding and removing, on a table whose map is not nil. \<open>AddTarget\<close> of a registered host
  reports an error and keeps the old target; of a new host it registers exactly that target and
  leaves every other host. \<open>RemoveTarget\<close> undoes it: removing the host just added restores the
  table, and removing a host that is not registered reports an error and changes nothing.
\<close>

theorem Add_Remove_Target:
  assumes "tm t = Some f"
  shows "(fmlookup f host = Some old \<longrightarrow>
      (\<exists>e. Table_AddTarget host target t = Ret (t, Some e))) \<and>
    (fmlookup f host = None \<longrightarrow>
      (\<exists>t'. Table_AddTarget host target t = Ret (t', None) \<and>
        (\<forall>h. map_get (tm t') h = (if h = host then Some target else map_get (tm t) h)) \<and>
        Table_RemoveTarget host t' = (t, None) \<and>
        (\<exists>e. Table_RemoveTarget host t = (t, Some e))))"
proof -
  have "fmdrop host (fmupd host target f) = f" if "fmlookup f host = None"
    using that by (intro fmap_ext) auto
  then show ?thesis
    using assms by (auto simp: Table_AddTarget_def Table_RemoveTarget_def)
qed

theorem Add_Remove_Target_witness:
  "\<exists>t'. Table_AddTarget ''a'' sample_target NewTable = Ret (t', None) \<and>
     map_get (tm t') ''a'' = Some sample_target \<and> Table_RemoveTarget ''a'' t' = (NewTable, None)"
  using Add_Remove_Target [of NewTable fmempty "''a''" zero_Target sample_target]
  by (auto simp: NewTable_def)

text \<open>
  A routing table read from JSON \<open>null\<close> has a nil map, on which the next \<open>AddTarget\<close>
  panics. \<open>UnmarshalJSON\<close> replaces the empty map it has just made by the nil map and reports no
  error, so the fetch succeeds.
\<close>

theorem null_table_panics:
  "FetchTableFromConfigMap (zero_ConfigMap\<lparr>cm_Data := Some (fmap_of_list [(configMapRoutingTableKey, ''null'')])\<rparr>) =
     Inr \<lparr>tm = None\<rparr> \<and>
   Table_AddTarget host target \<lparr>tm = None\<rparr> = Panic ''assignment to entry in nil map''"
proof -
  have "Table_UnmarshalJSON NewTable ''null'' = (\<lparr>tm = None\<rparr>, None)" by code_simp
  then show ?thesis by (simp add: FetchTableFromConfigMap_def Table_AddTarget_def)
qed

section \<open>Fetching the table\<close>

text \<open>
  \<open>GetTable\<close> is all or nothing. Either it reports no error and the table is the one decoded
  from the ConfigMap it fetched, or it reports an error and the table is as it was.
\<close>

theorem GetTable_atomic:
  "(case GetTable getter t of
      (t', None) \<Rightarrow> (\<exists>cm. getter ConfigMapRoutingTableName = Inr cm \<and> FetchTableFromConfigMap cm = Inr t')
    | (t', Some e) \<Rightarrow> t' = t)"
  by (cases "getter ConfigMapRoutingTableName")
    (auto simp: GetTable_def Table_Replace_def split: sum.split)

text \<open>
  The ping route answers 200 with the table it has just stored, in the JSON form that
  decodes to it, when the fetch succeeds; and 500 with the table left alone when it fails.
\<close>

theorem ping_route:
  "(case GetTable getter t of
      (t', None) \<Rightarrow>
        ping_handler getter t NewRecorder =
          (t', NewRecorder\<lparr>rw_code := Some 200, rw_sent := Some fmempty,
             rw_body := json_print (Table_json t') @ [newline]\<rparr>)
    | (t', Some e) \<Rightarrow>
        fst (ping_handler getter t NewRecorder) = t \<and>
        rw_code (snd (ping_handler getter t NewRecorder)) = Some 500)"
proof (cases "GetTable getter t")
  case (Pair t' e)
  have "t' = t" if "e \<noteq> None"
    using that Pair by (auto simp: GetTable_def split: sum.splits)
  then show ?thesis using Pair by (cases e) (auto simp: ping_handler_def rw_defs)
qed

section \<open>The updater\<close>

text \<open>The tables that a sequence of received objects decodes to, up to the first failure.\<close>

fun decoded_tables :: "selected list \<Rightarrow> Table list" where
  "decoded_tables (Received (ObjConfigMap cm) # evs) =
     (case FetchTableFromConfigMap cm of Inr t \<Rightarrow> t # decoded_tables evs | Inl _ \<Rightarrow> [])"
| "decoded_tables (Received _ # evs) = decoded_tables evs"
| "decoded_tables _ = []"

lemma updater_loop_table:
  "fst (updater_loop cb evs t w) = last (t # decoded_tables evs)"
  by (induction cb evs t w rule: updater_loop.induct)
    (auto simp: Table_Replace_def Let_def split: sum.split option.split)

lemma updater_loop_callbacks:
  "fst (snd (updater_loop (Some cb) evs t w)) = ((\<lambda>w. fst (cb w)) ^^ length (decoded_tables evs)) w"
proof -
  define f where "f = (\<lambda>w. fst (cb w))"
  have f: "fst (cb w) = f w" for w by (simp add: f_def)
  have step: "f ((f ^^ n) w) = (f ^^ n) (f w)" for n w by (simp add: funpow_swap1)
  have "fst (snd (updater_loop (Some cb) evs t w)) = (f ^^ length (decoded_tables evs)) w"
  proof (induction evs arbitrary: t w)
    case (Cons ev evs)
    show ?case
    proof (cases ev)
      case (Received obj)
      with Cons show ?thesis
        by (cases obj) (auto simp: Let_def step f split: sum.split)
    qed simp
  qed simp
  then show ?thesis unfolding f_def .
qed

lemma grp_Wait_None: "grp_Wait rets = None \<longleftrightarrow> (\<forall>e \<in> set rets. e = None)"
  by (induction rets) (auto simp: grp_Wait_def)

lemma updater_loop_error:
  "list_all (\<lambda>ev. ev \<noteq> CtxDone None) evs \<Longrightarrow> snd (snd (updater_loop cb evs t w)) \<noteq> Some None"
  by (induction cb evs t w rule: updater_loop.induct)
    (auto simp: Let_def wrap_def split: sum.split option.split)

text \<open>
  C28: The updater keeps the latest routing table. After any sequence of events the table is the
  last one that decoded before the loop stopped (the initial one if there was none), the
  callback has run once for each table stored, whether or not it failed, and whatever the loop
  returns is an error, since a finished context has one.
\<close>

theorem updater_latest:
  assumes "list_all (\<lambda>ev. ev \<noteq> CtxDone None) evs"
    and "StartConfigMapRoutingTableUpdater None (Some cb) evs infErr infFirst t w = (t', w', r)"
  shows "t' = last (t # decoded_tables evs) \<and>
    w' = ((\<lambda>w. fst (cb w)) ^^ length (decoded_tables evs)) w \<and> r \<noteq> Some None"
proof -
  obtain t1 w1 r1 where l: "updater_loop (Some cb) evs t w = (t1, w1, r1)" by (cases "updater_loop (Some cb) evs t w")
  have "r1 \<noteq> Some None" using updater_loop_error [OF assms(1), of "Some cb" t w] l by simp
  then have "r \<noteq> Some None \<and> t' = t1 \<and> w' = w1"
    using assms(2) l
    by (auto simp: StartConfigMapRoutingTableUpdater_def Let_def grp_Wait_None split: option.splits if_splits)
  then show ?thesis
    using updater_loop_table [of "Some cb" evs t w] updater_loop_callbacks [of cb evs t w] l by simp
qed

theorem updater_latest_witness:
  "\<exists>w' r. StartConfigMapRoutingTableUpdater None (Some (\<lambda>n. (Suc n, Some ContextCanceled)))
     [Received (ObjOther ''x''), Received (ObjConfigMap (zero_ConfigMap\<lparr>cm_Data :=
        Some (fmap_of_list [(configMapRoutingTableKey, ''{}'')])\<rparr>)), CtxDone (Some ContextCanceled)]
     (Some ContextCanceled) True sample_table 0 = (NewTable, w', r) \<and> w' = (1 :: nat) \<and> r \<noteq> Some None"
proof -
  let ?evs = "[Received (ObjOther ''x''), Received (ObjConfigMap (zero_ConfigMap\<lparr>cm_Data :=
        Some (fmap_of_list [(configMapRoutingTableKey, ''{}'')])\<rparr>)), CtxDone (Some ContextCanceled)]"
  have d: "decoded_tables ?evs = [NewTable]" by code_simp
  obtain t' w' r where run: "StartConfigMapRoutingTableUpdater None (Some (\<lambda>n. (Suc n, Some ContextCanceled))) ?evs
      (Some ContextCanceled) True sample_table 0 = (t', w', r)"
    by (rule prod_cases3)
  have "list_all (\<lambda>ev. ev \<noteq> CtxDone None) ?evs" by simp
  from updater_latest [OF this run, unfolded d] run show ?thesis by simp
qed

section \<open>Service URLs\<close>

text \<open>
  The in-cluster URL of a target. For a service and namespace in host-name characters, a
  port that is not negative gives the URL \<open>http://service.namespace:port\<close> with that authority,
  no path and no query; a negative port is refused by the URL parser.
\<close>

theorem ServiceURL_host:
  assumes "list_all dns_char (Service t)" and "list_all dns_char (Namespace t)"
  shows "ServiceURL t =
    (if 0 \<le> sint (Port t)
     then Inr (http_url (Service t @ ''.'' @ Namespace t @ '':'' @ fmt_d (Port t)))
     else Inl (url_error ''invalid port after host''))"
proof -
  have "list_all dns_char (Service t @ ''.'' @ Namespace t)" using assms by (simp add: dns_char_def)
  from parse_http_port [OF this, of "sint (Port t)"] show ?thesis
    by (simp add: ServiceURL_def fmt_d_def)
qed

theorem ServiceURL_host_witness:
  "ServiceURL sample_target = Inr (http_url (''svc'' @ ''.'' @ ''ns'' @ '':'' @ fmt_d 8080))"
proof -
  have "list_all dns_char (Service sample_target)" "list_all dns_char (Namespace sample_target)" by code_simp+
  from ServiceURL_host [OF this] show ?thesis by (simp add: sample_target_def NewTarget_def)
qed

end
