(* ===== verification/Errgroup.thy ===== *)
theory Errgroup
  imports Routing
begin

text \<open>
  Groups of goroutines as the \<open>main\<close> functions build them with \<open>errgroup.WithContext\<close> and a deferred
  cancellation: every task runs under one context, the first task that returns cancels it, the
  group keeps the first error, and \<open>Wait\<close> returns when all tasks have. The locale \<open>service_group\<close>
  states what a group needs of its tasks and shows that the group then stops as a whole.
\<close>

section \<open>Groups\<close>

text \<open>Per task what it returned, if it did; the first error; the error of the context, if it is done.\<close>

record grp =
  g_rets :: "error option option list"
  g_err :: "error option"
  g_ctx :: "error option"

definition grp_Go :: "'t list \<Rightarrow> grp" where
  "grp_Go ts = \<lparr>g_rets = map (\<lambda>_. None) ts, g_err = None, g_ctx = None\<rparr>"

definition task_done :: "nat \<Rightarrow> error option \<Rightarrow> grp \<Rightarrow> grp" where
  "task_done i e g =
     \<lparr>g_rets = (g_rets g)[i := Some e],
      g_err = (case g_err g of None \<Rightarrow> e | Some _ \<Rightarrow> g_err g),
      g_ctx = (case g_ctx g of None \<Rightarrow> Some ContextCanceled | Some _ \<Rightarrow> g_ctx g)\<rparr>"

text \<open>What \<open>Wait\<close> returns, \<open>None\<close> while it blocks.\<close>

definition grp_result :: "grp \<Rightarrow> error option option" where
  "grp_result g = (if None \<in> set (g_rets g) then None else Some (g_err g))"

text \<open>
  \<open>rets t ctx e\<close>: task \<open>t\<close> may return \<open>e\<close> when the context's error is \<open>ctx\<close>. With \<open>signals\<close> the context
  is also cancelled by a signal to the process.
\<close>

inductive grp_step ::
    "('t \<Rightarrow> error option \<Rightarrow> error option \<Rightarrow> bool) \<Rightarrow> 't list \<Rightarrow> bool \<Rightarrow> grp \<Rightarrow> grp \<Rightarrow> bool"
  for rets ts signals where
  returned: "i < length ts \<Longrightarrow> g_rets g ! i = None \<Longrightarrow> rets (ts ! i) (g_ctx g) e \<Longrightarrow>
    grp_step rets ts signals g (task_done i e g)"
| signalled: "signals \<Longrightarrow> g_ctx g = None \<Longrightarrow> grp_step rets ts signals g (g\<lparr>g_ctx := Some ContextCanceled\<rparr>)"

abbreviation grp_reach ::
    "('t \<Rightarrow> error option \<Rightarrow> error option \<Rightarrow> bool) \<Rightarrow> 't list \<Rightarrow> bool \<Rightarrow> grp \<Rightarrow> bool" where
  "grp_reach rets ts signals \<equiv> (grp_step rets ts signals)\<^sup>*\<^sup>* (grp_Go ts)"

section \<open>What a group keeps\<close>

text \<open>One result per task, an error exactly when a task has failed, and a done context once one returned.\<close>

definition grp_ok :: "'t list \<Rightarrow> grp \<Rightarrow> bool" where
  "grp_ok ts g \<longleftrightarrow> length (g_rets g) = length ts \<and>
     (g_err g = None \<longleftrightarrow> (\<forall>e. Some (Some e) \<notin> set (g_rets g))) \<and>
     (g_ctx g = None \<longrightarrow> set (g_rets g) \<subseteq> {None})"

definition open_tasks :: "grp \<Rightarrow> nat" where
  "open_tasks g = length (filter (\<lambda>r. r = None) (g_rets g)) + (if g_ctx g = None then 1 else 0)"

lemma set_update_None:
  "i < length xs \<Longrightarrow> xs ! i = None \<Longrightarrow> Some y \<in> set (xs[i := Some x]) \<longleftrightarrow> y = x \<or> Some y \<in> set xs"
  by (auto simp: in_set_conv_nth nth_list_update) (metis option.distinct(1))+

lemma open_update:
  "i < length xs \<Longrightarrow> xs ! i = None \<Longrightarrow>
   Suc (length (filter (\<lambda>r. r = None) (xs[i := Some x]))) = length (filter (\<lambda>r. r = None) xs)"
  by (induction xs arbitrary: i) (auto simp: nth_Cons split: nat.split)

lemma grp_ok_Go: "grp_ok ts (grp_Go ts)"
  by (auto simp: grp_ok_def grp_Go_def)

lemma grp_ok_step:
  assumes "grp_step rets ts signals g g'" "grp_ok ts g"
  shows "grp_ok ts g'"
  using assms
proof cases
  case (returned i e)
  have "(\<forall>x. Some (Some x) \<notin> set ((g_rets g)[i := Some e])) \<longleftrightarrow> e = None \<and> (\<forall>x. Some (Some x) \<notin> set (g_rets g))"
    using returned assms(2) by (cases e) (auto simp: set_update_None grp_ok_def)
  then have "g_err (task_done i e g) = None \<longleftrightarrow> (\<forall>x. Some (Some x) \<notin> set (g_rets (task_done i e g)))"
    using assms(2) by (cases "g_err g") (auto simp: grp_ok_def task_done_def)
  moreover have "g_ctx (task_done i e g) \<noteq> None" by (simp add: task_done_def split: option.split)
  moreover have "length (g_rets (task_done i e g)) = length ts" using assms(2) by (simp add: grp_ok_def task_done_def)
  ultimately show ?thesis unfolding returned(1) grp_ok_def by blast
qed (auto simp: grp_ok_def)

lemma grp_ok_steps: "(grp_step rets ts signals)\<^sup>*\<^sup>* g g' \<Longrightarrow> grp_ok ts g \<Longrightarrow> grp_ok ts g'"
  by (induction rule: rtranclp_induct) (auto intro: grp_ok_step)

lemma open_tasks_step:
  assumes "grp_step rets ts signals g g'" "grp_ok ts g"
  shows "open_tasks g' < open_tasks g"
  using assms
proof cases
  case (returned i e)
  then have "Suc (length (filter (\<lambda>r. r = None) ((g_rets g)[i := Some e]))) = length (filter (\<lambda>r. r = None) (g_rets g))"
    using assms(2) by (intro open_update) (auto simp: grp_ok_def)
  then show ?thesis using returned by (simp add: open_tasks_def task_done_def split: option.split)
qed (simp add: open_tasks_def)

lemma open_tasks_steps:
  "(grp_step rets ts signals ^^ k) g g' \<Longrightarrow> grp_ok ts g \<Longrightarrow> grp_ok ts g' \<and> k + open_tasks g' \<le> open_tasks g"
proof (induction k arbitrary: g')
  case (Suc k)
  then obtain h where "(grp_step rets ts signals ^^ k) g h" "grp_step rets ts signals h g'" by auto
  with Suc show ?case using open_tasks_step [of rets ts signals h g'] grp_ok_step by fastforce
qed simp

section \<open>Groups that stop\<close>

locale service_group =
  fixes rets :: "'t \<Rightarrow> error option \<Rightarrow> error option \<Rightarrow> bool" and ts :: "'t list"
  assumes stops: "t \<in> set ts \<Longrightarrow> \<exists>e. rets t (Some c) e"
begin

lemma not_stuck:
  assumes "grp_ok ts g" "g_ctx g \<noteq> None" "grp_result g = None"
  shows "\<exists>g'. grp_step rets ts signals g g'"
proof -
  from assms(3) obtain i where "i < length (g_rets g)" "g_rets g ! i = None"
    by (auto simp: grp_result_def in_set_conv_nth split: if_splits)
  moreover from this assms obtain e where "rets (ts ! i) (g_ctx g) e"
    using stops [of "ts ! i" "the (g_ctx g)"] by (auto simp: grp_ok_def)
  ultimately show ?thesis using assms(1) by (auto simp: grp_ok_def intro: grp_step.returned)
qed

lemma group_bounded:
  assumes "grp_reach rets ts signals g" "(grp_step rets ts signals ^^ k) g g'"
  shows "k \<le> open_tasks g" "open_tasks g \<le> Suc (length ts)"
proof -
  have ok: "grp_ok ts g" using grp_ok_steps [OF assms(1) grp_ok_Go] .
  show "open_tasks g \<le> Suc (length ts)"
    using ok length_filter_le [of "\<lambda>r. r = None" "g_rets g"] by (auto simp: open_tasks_def grp_ok_def)
  from open_tasks_steps [OF assms(2) ok] show "k \<le> open_tasks g" by simp
qed

lemma group_ends:
  assumes "grp_reach rets ts signals g" "g_ctx g \<noteq> None" "(grp_step rets ts signals ^^ k) g g'"
    and "\<nexists>h. grp_step rets ts signals g' h"
  shows "grp_reach rets ts signals g'" "grp_result g' \<noteq> None"
proof -
  show reach: "grp_reach rets ts signals g'"
    using assms(1,3) by (auto dest: relpowp_imp_rtranclp)
  have "g_ctx h \<noteq> None" if "(grp_step rets ts signals)\<^sup>*\<^sup>* g h" for h
    using that assms(2)
    by (induction rule: rtranclp_induct) (auto elim!: grp_step.cases simp: task_done_def split: option.split)
  then have "g_ctx g' \<noteq> None" using assms(3) by (auto dest: relpowp_imp_rtranclp)
  with assms(4) not_stuck [of g'] grp_ok_steps [OF reach grp_ok_Go] show "grp_result g' \<noteq> None" by blast
qed

end

text \<open>A group with a task that never returns nil.\<close>

locale failing_group = service_group +
  fixes bad :: nat
  assumes bad: "bad < length ts" and fails: "rets (ts ! bad) ctx e \<Longrightarrow> e \<noteq> None"
begin

lemma bad_reach: "grp_reach rets ts signals g \<Longrightarrow> g_rets g ! bad \<noteq> Some None"
proof (induction rule: rtranclp_induct)
  case (step g g')
  have len: "length (g_rets g) = length ts" using grp_ok_steps [OF step(1) grp_ok_Go] by (simp add: grp_ok_def)
  from step(2) show ?case
  proof cases
    case (returned i e)
    with step(3) bad len show ?thesis
      using fails [of "g_ctx g" e] by (cases "i = bad") (auto simp: task_done_def)
  qed (use step(3) in simp)
qed (use bad in \<open>simp add: grp_Go_def\<close>)

lemma finished_failed:
  assumes "grp_reach rets ts signals g" "grp_result g \<noteq> None"
  shows "\<exists>err. grp_result g = Some (Some err)"
proof -
  have ok: "grp_ok ts g" using grp_ok_steps [OF assms(1) grp_ok_Go] .
  then have "bad < length (g_rets g)" using bad by (simp add: grp_ok_def)
  then have r: "g_rets g ! bad \<in> set (g_rets g)" by simp
  with assms bad_reach [OF assms(1)] obtain e where "g_rets g ! bad = Some (Some e)"
    by (metis grp_result_def option.exhaust)
  with r ok assms(2) show ?thesis by (auto simp: grp_result_def grp_ok_def split: if_splits)
qed

text \<open>Once the context is done, the group ends within a step per task, and \<open>Wait\<close> returns an error.\<close>

lemma group_stops:
  assumes "grp_reach rets ts signals g" "g_ctx g \<noteq> None" "(grp_step rets ts signals ^^ k) g g'"
  shows "k \<le> length ts \<and>
    ((\<nexists>h. grp_step rets ts signals g' h) \<longrightarrow> (\<exists>err. grp_result g' = Some (Some err)))"
proof -
  have "open_tasks g \<le> length ts"
    using grp_ok_steps [OF assms(1) grp_ok_Go] assms(2) length_filter_le [of "\<lambda>r. r = None" "g_rets g"]
    by (auto simp: open_tasks_def grp_ok_def)
  moreover have "k \<le> open_tasks g" using group_bounded [OF assms(1,3)] by simp
  ultimately show ?thesis using group_ends [OF assms] finished_failed by (metis le_trans)
qed

end

end
