(* ===== verification/Net.thy ===== *)
theory Net
  imports Http
begin

text \<open>
  The small packages below the servers: \<open>pkg/net\<close> (dialling with retries, the backoff total,
  the recording test handler), \<open>pkg/env\<close>, \<open>pkg/build\<close>, \<open>pkg/http\<close> (the config and version
  endpoints), and the interceptor's configuration with its validation. The environment, the
  dialer and the timers are parameters.
\<close>

section \<open>Environment variables\<close>

text \<open>\<open>getenv\<close> is \<open>os.Getenv\<close>: the empty string for a variable that is not set.\<close>

definition env_Get :: "(string \<Rightarrow> string) \<Rightarrow> string \<Rightarrow> error + string" where
  "env_Get getenv envName =
     (let fromEnv = getenv envName in
      if fromEnv = [] then Inl (Errorf (''environnment variable '' @ envName @ '' not found''))
      else Inr fromEnv)"

definition GetOr :: "(string \<Rightarrow> string) \<Rightarrow> string \<Rightarrow> string \<Rightarrow> string" where
  "GetOr getenv envName otherwise =
     (case env_Get getenv envName of Inl err \<Rightarrow> otherwise | Inr fromEnv \<Rightarrow> fromEnv)"

definition GetInt32Or :: "(string \<Rightarrow> string) \<Rightarrow> string \<Rightarrow> i32 \<Rightarrow> i32" where
  "GetInt32Or getenv envName otherwise =
     (case env_Get getenv envName of
        Inl err \<Rightarrow> otherwise
      | Inr strVal \<Rightarrow>
          (case ParseInt strVal 32 of None \<Rightarrow> otherwise | Some val \<Rightarrow> word_of_int val))"

definition GetIntOr :: "(string \<Rightarrow> string) \<Rightarrow> string \<Rightarrow> gint \<Rightarrow> gint" where
  "GetIntOr getenv envName otherwise =
     (case env_Get getenv envName of
        Inl err \<Rightarrow> otherwise
      | Inr strVal \<Rightarrow>
          (case ParseInt strVal 64 of None \<Rightarrow> otherwise | Some val \<Rightarrow> word_of_int val))"

section \<open>Backoff\<close>

text \<open>
  \<open>wait.Backoff\<close> with the fields the sources set. Factor and jitter only matter to its method
  \<open>Step\<close>, which belongs to the Kubernetes library; they are kept in thousandths.
\<close>

record Backoff =
  bo_Duration :: gint
  bo_Factor :: nat
  bo_Jitter :: nat
  bo_Steps :: gint

text \<open>\<open>Duration.Milliseconds\<close>: division that truncates towards zero.\<close>

definition Milliseconds :: "gint \<Rightarrow> gint" where
  "Milliseconds d =
     word_of_int (if sint d < 0 then - ((- sint d) div 1000000) else sint d div 1000000)"

definition MinTotalBackoffDuration :: "Backoff \<Rightarrow> gint" where
  "MinTotalBackoffDuration backoff =
     (let initial = Milliseconds (bo_Duration backoff);
          retMS = foldl (\<lambda>ret i. ret + initial * word_of_int i) (Milliseconds (bo_Duration backoff))
            [2..sint (bo_Steps backoff)] in
      retMS * millisecond)"

section \<open>Dialling with retries\<close>

text \<open>
  \<open>dial i\<close> is what the core dialer returns on the call number \<open>i\<close>, and \<open>ctxDone i\<close> the
  context's error if it ends before the timer of that turn. The result has the connection, the
  error and the number of calls made.
\<close>

fun dial_loop ::
    "(nat \<Rightarrow> error + 'c) \<Rightarrow> (nat \<Rightarrow> error option) \<Rightarrow> nat \<Rightarrow> nat \<Rightarrow> error option \<Rightarrow> 'c option \<times> error option \<times> nat" where
  "dial_loop dial ctxDone 0 i lastError = (None, lastError, i)"
| "dial_loop dial ctxDone (Suc n) i lastError =
     (case dial i of
        Inr conn \<Rightarrow> (Some conn, None, Suc i)
      | Inl err \<Rightarrow>
          (case ctxDone i of
             Some ctxErr \<Rightarrow> (None, Some (Errorf (''context timed out: '' @ error_text ctxErr)), Suc i)
           | None \<Rightarrow> dial_loop dial ctxDone n (Suc i) (Some err)))"

definition DialContextWithRetry ::
    "Backoff \<Rightarrow> (nat \<Rightarrow> error + 'c) \<Rightarrow> (nat \<Rightarrow> error option) \<Rightarrow> 'c option \<times> error option \<times> nat" where
  "DialContextWithRetry backoff dial ctxDone =
     (let numDialTries = bo_Steps backoff in
      dial_loop dial ctxDone (nat (sint numDialTries)) 0 None)"

record Dialer =
  Dialer_Timeout :: gint
  Dialer_KeepAlive :: gint

definition NewNetDialer :: "gint \<Rightarrow> gint \<Rightarrow> Dialer" where
  "NewNetDialer connectTimeout keepAlive = \<lparr>Dialer_Timeout = connectTimeout, Dialer_KeepAlive = keepAlive\<rparr>"

section \<open>The recording test handler\<close>

record ('r, 'w) TestHTTPHandlerWrapper =
  hdl :: "'w \<Rightarrow> 'r \<Rightarrow> 'w"
  incomingRequests :: "'r list"

definition TestHTTPHandlerWrapper_ServeHTTP ::
    "'w \<Rightarrow> 'r \<Rightarrow> ('r, 'w) TestHTTPHandlerWrapper \<Rightarrow> ('r, 'w) TestHTTPHandlerWrapper \<times> 'w" where
  "TestHTTPHandlerWrapper_ServeHTTP w r t =
     (let w' = hdl t w r in (t\<lparr>incomingRequests := incomingRequests t @ [r]\<rparr>, w'))"

definition TestHTTPHandlerWrapper_IncomingRequests :: "('r, 'w) TestHTTPHandlerWrapper \<Rightarrow> 'r list" where
  "TestHTTPHandlerWrapper_IncomingRequests t = incomingRequests t"

definition NewTestHTTPHandlerWrapper :: "('w \<Rightarrow> 'r \<Rightarrow> 'w) \<Rightarrow> ('r, 'w) TestHTTPHandlerWrapper" where
  "NewTestHTTPHandlerWrapper h = \<lparr>hdl = h, incomingRequests = []\<rparr>"

section \<open>Config and version endpoints\<close>

type_synonym rw_handler = "ResponseWriter \<Rightarrow> ResponseWriter"

definition encode_or_500 :: "json \<Rightarrow> rw_handler" where
  "encode_or_500 j w =
     (case EncodeTo j w of
        (w', None) \<Rightarrow> w'
      | (w', Some err) \<Rightarrow> fst (Write (error_text err) (WriteHeader 500 w')))"

text \<open>\<open>configs\<close> are the JSON values of the configuration structs.\<close>

definition AddConfigEndpoint :: "json list \<Rightarrow> rw_handler ServeMux \<Rightarrow> rw_handler ServeMux go" where
  "AddConfigEndpoint configs mux = Handle ''/config'' (encode_or_500 (JObj [(''configs'', JArr configs)])) mux"

definition Version :: string where
  "Version = ''main''"

definition GitCommit :: string where
  "GitCommit = []"

text \<open>The lines logged; \<open>rt\<close> holds Go's version, operating system and architecture.\<close>

definition PrintComponentInfo :: "string \<times> string \<times> string \<Rightarrow> string \<Rightarrow> string list" where
  "PrintComponentInfo rt component =
     (case rt of (goVersion, goos, goarch) \<Rightarrow>
        [component @ '' Version: '' @ Version, component @ '' Commit: '' @ GitCommit,
         ''Go Version: '' @ goVersion, ''Go OS/Arch: '' @ goos @ ''/'' @ goarch])"

definition AddVersionEndpoint :: "rw_handler ServeMux \<Rightarrow> rw_handler ServeMux go" where
  "AddVersionEndpoint mux = Handle ''/version'' (encode_or_500 (JObj [(''version'', JStr Version)])) mux"

section \<open>The interceptor's configuration\<close>

record Serving =
  CurrentNamespace :: string
  ProxyPort :: gint
  AdminPort :: gint
  ConfigMapCacheRsyncPeriod :: gint
  DeploymentCachePollIntervalMS :: gint
  RequestQueueCooldown :: gint
  RequestQueueCooldownEnforcerInterval :: gint
  EnableRequestQueueCooldown :: bool

record Timeouts =
  Connect :: gint
  KeepAlive :: gint
  ResponseHeader :: gint
  DeploymentReplicas :: gint
  ForceHTTP2 :: bool
  MaxIdleConns :: gint
  IdleConnTimeout :: gint
  TLSHandshakeTimeout :: gint
  ExpectContinueTimeout :: gint
  ServiceUnavailableRetry :: gint

definition Timeouts_Backoff :: "nat \<Rightarrow> nat \<Rightarrow> gint \<Rightarrow> Timeouts \<Rightarrow> Backoff" where
  "Timeouts_Backoff factor jitter steps t =
     \<lparr>bo_Duration = Connect t, bo_Factor = factor, bo_Jitter = jitter, bo_Steps = steps\<rparr>"

text \<open>A factor of 2 and a jitter of 0.5, in thousandths.\<close>

definition DefaultBackoff :: "Timeouts \<Rightarrow> Backoff" where
  "DefaultBackoff t = Timeouts_Backoff 2000 500 5 t"

definition Validate :: "Serving \<Rightarrow> Timeouts \<Rightarrow> error option" where
  "Validate srvCfg timeoutsCfg =
     (let deplCachePollInterval = DeploymentCachePollIntervalMS srvCfg * millisecond in
      if DeploymentReplicas timeoutsCfg <s deplCachePollInterval then
        Some (Errorf (''deployment replicas timeout ('' @ Duration_String (DeploymentReplicas timeoutsCfg) @
          '') should not be less than the Deployment Cache Poll Interval ('' @
          Duration_String deplCachePollInterval @ '')''))
      else None)"

section \<open>Properties\<close>

lemma dial_loop_calls: "snd (snd (dial_loop dial ctxDone n i e)) \<le> i + n"
  by (induction dial ctxDone n i e rule: dial_loop.induct) (auto split: sum.split option.split)

lemma dial_loop_success:
  assumes "\<forall>j < k. isl (dial (i + j)) \<and> ctxDone (i + j) = None" and "dial (i + k) = Inr conn" and "k < n"
  shows "dial_loop dial ctxDone n i e = (Some conn, None, Suc (i + k))"
  using assms
proof (induction k arbitrary: n i e)
  case 0
  then show ?case by (cases n) auto
next
  case (Suc k)
  then obtain n' where n: "n = Suc n'" by (cases n) auto
  from Suc.prems(1) obtain err where "dial i = Inl err" "ctxDone i = None" by (auto simp: isl_def)
  moreover have "dial_loop dial ctxDone n' (Suc i) (Some err) = (Some conn, None, Suc (Suc i + k))"
    by (rule Suc.IH) (use Suc.prems n in auto)
  ultimately show ?case using n by simp
qed

lemma dial_loop_fail:
  assumes "\<forall>j < n. dial (i + j) = Inl (errs j) \<and> ctxDone (i + j) = None"
  shows "dial_loop dial ctxDone n i e = (None, if n = 0 then e else Some (errs (n - 1)), i + n)"
  using assms
proof (induction n arbitrary: i e errs)
  case (Suc n)
  from Suc.prems have "dial i = Inl (errs 0)" "ctxDone i = None" by auto
  moreover have "dial_loop dial ctxDone n (Suc i) (Some (errs 0)) =
      (None, if n = 0 then Some (errs 0) else Some (errs (Suc (n - 1))), Suc i + n)"
    by (rule Suc.IH) (use Suc.prems in auto)
  ultimately show ?case by auto
qed simp

text \<open>
  C30: Dialling with retries. At most \<open>Steps\<close> calls are made. If the first calls fail and one of
  the \<open>Steps\<close> calls succeeds before the context ends, its connection is returned after exactly
  that many calls; if all fail, the error is that of the last call. With \<open>Steps\<close> zero or
  negative no call is made and both the connection and the error are nil.
\<close>

theorem DialContextWithRetry_spec:
  "snd (snd (DialContextWithRetry b dial ctxDone)) \<le> nat (sint (bo_Steps b)) \<and>
   ((\<forall>j < k. isl (dial j) \<and> ctxDone j = None) \<longrightarrow> dial k = Inr conn \<longrightarrow> int k < sint (bo_Steps b) \<longrightarrow>
      DialContextWithRetry b dial ctxDone = (Some conn, None, Suc k)) \<and>
   ((\<forall>j < n. dial j = Inl (errs j) \<and> ctxDone j = None) \<longrightarrow> sint (bo_Steps b) = int n \<longrightarrow>
      DialContextWithRetry b dial ctxDone = (None, if n = 0 then None else Some (errs (n - 1)), n)) \<and>
   (sint (bo_Steps b) \<le> 0 \<longrightarrow> DialContextWithRetry b dial ctxDone = (None, None, 0))"
  using dial_loop_calls [of dial ctxDone "nat (sint (bo_Steps b))" 0 None]
    dial_loop_success [of k dial 0 ctxDone conn "nat (sint (bo_Steps b))" None]
    dial_loop_fail [of n dial 0 errs ctxDone None]
  by (auto simp: DialContextWithRetry_def)

definition steps_backoff :: "gint \<Rightarrow> Backoff" where
  "steps_backoff n = \<lparr>bo_Duration = 0, bo_Factor = 0, bo_Jitter = 0, bo_Steps = n\<rparr>"

theorem DialContextWithRetry_spec_witness:
  "DialContextWithRetry (steps_backoff 3) (\<lambda>i. if i < 2 then Inl ContextCanceled else Inr ''conn'') (\<lambda>_. None) =
     (Some ''conn'', None, 3) \<and>
   DialContextWithRetry (steps_backoff 2) (\<lambda>i. if i < 2 then Inl ContextCanceled else Inr ''conn'') (\<lambda>_. None) =
     (None, Some ContextCanceled, 2) \<and>
   DialContextWithRetry (steps_backoff (- 1)) (\<lambda>i. if i < 2 then Inl ContextCanceled else Inr ''conn'') (\<lambda>_. None) =
     (None, None, 0)"
proof -
  let ?dial = "\<lambda>i :: nat. if i < 2 then Inl ContextCanceled else Inr ''conn''"
  show ?thesis
    using DialContextWithRetry_spec [of "steps_backoff 3" ?dial "\<lambda>_. None" 2 "''conn''" 0 undefined]
      DialContextWithRetry_spec [of "steps_backoff 2" ?dial "\<lambda>_. None" 2 "''conn''" 2 "\<lambda>_. ContextCanceled"]
      DialContextWithRetry_spec [of "steps_backoff (- 1)" ?dial "\<lambda>_. None" 2 "''conn''" 0 undefined]
    by (simp add: steps_backoff_def)
qed

lemma backoff_loop: "foldl (\<lambda>ret i. ret + initial * word_of_int i) a xs = a + initial * word_of_int (sum_list xs)"
  for initial a :: gint
  by (induction xs arbitrary: a) (auto simp: algebra_simps)

lemma sum_upto_from_2: "1 \<le> n \<Longrightarrow> 2 * (1 + sum_list [2..n]) = n * (n + 1)" for n :: int
proof (induction n rule: int_ge_induct)
  case (step n)
  have "[2..n + 1] = [2..n] @ [n + 1]" using step.hyps by (simp add: upto_rec2)
  with step.IH show ?case by (simp add: algebra_simps)
qed simp

lemma MinTotal_word:
  assumes "1 \<le> sint (bo_Steps b)"
  shows "MinTotalBackoffDuration b =
    Milliseconds (bo_Duration b) * word_of_int (sint (bo_Steps b) * (sint (bo_Steps b) + 1) div 2) * millisecond"
proof -
  let ?n = "sint (bo_Steps b)"
  have "?n * (?n + 1) div 2 = 1 + sum_list [2..?n]" using sum_upto_from_2 [OF assms] by simp
  then show ?thesis
    by (simp add: MinTotalBackoffDuration_def Let_def backoff_loop algebra_simps)
qed

lemma triangle_le: "int n * (int n + 1) + 2 \<le> 2 * 2 ^ n"
proof (induction n)
  case (Suc n)
  have "int n + 1 \<le> 2 ^ n" by (induction n) auto
  with Suc show ?case by (simp add: algebra_simps)
qed simp

lemma triangle_less: "3 \<le> n \<Longrightarrow> int n * (int n + 1) + 2 < 2 * 2 ^ n"
proof (induction n rule: dec_induct)
  case (step n)
  have "int n + 1 \<le> 2 ^ n" by (induction n) auto
  with step show ?case by (simp add: algebra_simps)
qed simp

text \<open>
  The total that \<open>MinTotalBackoffDuration\<close> returns. For \<open>n\<close> steps of a whole number \<open>ms\<close> of
  milliseconds, where nothing overflows, it is \<open>ms * n * (n + 1) / 2\<close> milliseconds. That never
  exceeds what a backoff with factor two waits over the steps, \<open>ms * (2 ^ n - 1)\<close>, so it is a
  lower bound; from the third step on it is strictly smaller, since the code adds the steps
  linearly.
\<close>

theorem MinTotalBackoffDuration_linear:
  assumes "bo_Duration b = word_of_int (int ms * 1000000)" and "sint (bo_Steps b) = int n" and "1 \<le> n"
    and "int ms * (int n * (int n + 1) div 2) * 1000000 < 2 ^ 63"
  shows "sint (MinTotalBackoffDuration b) = int ms * (int n * (int n + 1) div 2) * 1000000 \<and>
    sint (MinTotalBackoffDuration b) \<le> int ms * (2 ^ n - 1) * 1000000 \<and>
    (3 \<le> n \<longrightarrow> 0 < ms \<longrightarrow> sint (MinTotalBackoffDuration b) < int ms * (2 ^ n - 1) * 1000000)"
proof -
  let ?t = "int n * (int n + 1) div 2"
  have even: "2 * ?t = int n * (int n + 1)" by simp
  have t1: "1 \<le> ?t" using even mult_mono [of 1 "int n" 2 "int n + 1"] assms(3) by linarith
  have "int ms * 1 \<le> int ms * ?t" using t1 by (intro mult_left_mono) auto
  then have "int ms * 1000000 < 2 ^ 63" using assms(4) by linarith
  then have "sint (bo_Duration b) = int ms * 1000000"
    unfolding assms(1) by (intro sint_of_int_64) auto
  then have "Milliseconds (bo_Duration b) = word_of_int (int ms)" by (simp add: Milliseconds_def)
  then have w: "MinTotalBackoffDuration b = word_of_int (int ms * ?t * 1000000)"
    using MinTotal_word [of b] assms(2,3) by (simp add: millisecond_def)
  have "0 \<le> int ms * ?t * 1000000" using t1 by simp
  then have "- (2 ^ 63) \<le> int ms * ?t * 1000000" by (rule order_trans [rotated]) simp
  then have v: "sint (MinTotalBackoffDuration b) = int ms * ?t * 1000000"
    unfolding w by (rule sint_of_int_64) (rule assms(4))
  have "?t \<le> 2 ^ n - 1" using even triangle_le [of n] by linarith
  then have "int ms * ?t \<le> int ms * (2 ^ n - 1)" by (intro mult_left_mono) auto
  moreover have "int ms * ?t < int ms * (2 ^ n - 1)" if "3 \<le> n" "0 < ms"
    using even triangle_less [OF that(1)] that(2) by (intro mult_strict_left_mono) auto
  ultimately show ?thesis unfolding v by auto
qed

theorem MinTotalBackoffDuration_linear_witness:
  "sint (MinTotalBackoffDuration \<lparr>bo_Duration = word_of_int (int 500 * 1000000), bo_Factor = 2000,
     bo_Jitter = 500, bo_Steps = 5\<rparr>) = 7500 * 1000000"
  using MinTotalBackoffDuration_linear [of "\<lparr>bo_Duration = word_of_int (int 500 * 1000000), bo_Factor = 2000,
     bo_Jitter = 500, bo_Steps = 5\<rparr>" 500 5]
  by simp

text \<open>
  The configuration check accepts what it should, as long as the poll interval in
  milliseconds converts to a duration without overflow: it then reports an error exactly when
  the replica timeout is shorter than the poll interval. The conversion wraps around beyond
  that, and an interval of 9223372036855 ms is accepted with a timeout of zero.
\<close>

theorem Validate_exact:
  assumes "\<bar>sint (DeploymentCachePollIntervalMS srv)\<bar> \<le> 9223372036854"
  shows "(Validate srv tmo = None \<longleftrightarrow>
      sint (DeploymentCachePollIntervalMS srv) * 1000000 \<le> sint (DeploymentReplicas tmo)) \<and>
    Validate (srv\<lparr>DeploymentCachePollIntervalMS := 9223372036855\<rparr>) (tmo\<lparr>DeploymentReplicas := 0\<rparr>) = None"
proof -
  let ?p = "DeploymentCachePollIntervalMS srv"
  have "?p * millisecond = word_of_int (sint ?p * 1000000)" by (simp add: millisecond_def)
  also have "sint \<dots> = sint ?p * 1000000" using assms by (intro sint_of_int_64) auto
  finally show ?thesis by (simp add: Validate_def Let_def word_sless_alt millisecond_def not_less)
qed

definition sample_serving :: Serving where
  "sample_serving = \<lparr>CurrentNamespace = ''ns'', ProxyPort = 8080, AdminPort = 9090,
     ConfigMapCacheRsyncPeriod = 3600 * second, DeploymentCachePollIntervalMS = 250,
     RequestQueueCooldown = 20 * second, RequestQueueCooldownEnforcerInterval = 5 * second,
     EnableRequestQueueCooldown = False\<rparr>"

definition sample_timeouts :: Timeouts where
  "sample_timeouts = \<lparr>Connect = 500 * millisecond, KeepAlive = second, ResponseHeader = 500 * millisecond,
     DeploymentReplicas = 1500 * millisecond, ForceHTTP2 = False, MaxIdleConns = 100,
     IdleConnTimeout = 90 * second, TLSHandshakeTimeout = 10 * second, ExpectContinueTimeout = second,
     ServiceUnavailableRetry = 3\<rparr>"

theorem Validate_exact_witness: "Validate sample_serving sample_timeouts = None"
  using Validate_exact [of sample_serving sample_timeouts]
  by (simp add: sample_serving_def sample_timeouts_def millisecond_def)

text \<open>
  Integer settings from the environment. A variable set to the decimal text of an \<open>int32\<close>
  (or \<open>int\<close>) yields that number; one that is unset, empty, not a number or out of the range of
  \<open>int32\<close> yields the default, never a truncated value.
\<close>

theorem env_ints:
  "GetInt32Or (\<lambda>_. fmt_d32 n) v d32 = n \<and> GetIntOr (\<lambda>_. fmt_d k) v d = k \<and>
   GetInt32Or (\<lambda>_. []) v d32 = d32 \<and> GetIntOr (\<lambda>_. []) v d = d \<and>
   (sint k < - (2 ^ 31) \<or> 2 ^ 31 \<le> sint k \<longrightarrow> GetInt32Or (\<lambda>_. fmt_d k) v d32 = d32) \<and>
   (ParseInt s 64 = None \<longrightarrow> GetIntOr (\<lambda>_. s) v d = d)"
proof -
  have ne: "show_int i \<noteq> []" for i by (simp add: show_int_def)
  have "ParseInt (fmt_d k) 32 = None" if "sint k < - (2 ^ 31) \<or> 2 ^ 31 \<le> sint k"
    using that by (auto simp: ParseInt_def fmt_d_def)
  then show ?thesis
    by (auto simp: GetInt32Or_def GetIntOr_def env_Get_def Let_def fmt_d_def fmt_d32_def ne
        ParseInt_fmt_d [unfolded fmt_d_def] ParseInt_fmt_d32 [unfolded fmt_d32_def])
qed

theorem env_ints_witness:
  "GetInt32Or (\<lambda>_. fmt_d 4294967297) ''X'' 7 = 7 \<and> GetIntOr (\<lambda>_. ''ten'') ''X'' 7 = 7"
proof -
  have "ParseInt ''ten'' 64 = None" by code_simp
  then show ?thesis using env_ints [of 0 "''X''" 7 4294967297 7 "''ten''"] by simp
qed

end
