(* ===== verification/Interceptor.thy ===== *)
theory Interceptor
  imports Routing Net
begin

text \<open>
  The interceptor: the host of a request by reverse DNS, the middleware that counts pending
  requests, the wait for a deployment to have a ready replica, the forwarding handler with its
  error answers, and the forwarder with its retries. The DNS resolver, the deployment cache, the
  clock and the two HTTP transports are parameters; the reverse proxy of \<open>net/http/httputil\<close>
  is modelled as far as the forwarder uses it.
\<close>

section \<open>Requests and hosts\<close>

record Request =
  req_Method :: string
  req_URL :: URL
  req_Host :: string
  req_RemoteAddr :: string
  req_Header :: "string list smap"
  req_Body :: string

text \<open>The verb \<open>%q\<close> of \<open>fmt\<close> on text: a quoted string with escapes.\<close>

definition quote_char :: "char \<Rightarrow> string" where
  "quote_char c =
     (if c = dquote \<or> c = bslash then [bslash, c]
      else if byte c = 7 then [bslash, CHR ''a''] else if byte c = 8 then [bslash, CHR ''b'']
      else if byte c = 9 then [bslash, CHR ''t''] else if byte c = 10 then [bslash, CHR ''n'']
      else if byte c = 11 then [bslash, CHR ''v''] else if byte c = 12 then [bslash, CHR ''f'']
      else if byte c = 13 then [bslash, CHR ''r'']
      else if byte c < 32 \<or> byte c = 127 then
        [bslash, CHR ''x'', hex_digit (byte c div 16), hex_digit (byte c mod 16)]
      else [c])"

definition fmt_q :: "string \<Rightarrow> string" where
  "fmt_q s = dquote # concat (map quote_char s) @ [dquote]"

definition strip_port :: "string \<Rightarrow> string" where
  "strip_port s = (case Index s CHR '':'' of None \<Rightarrow> s | Some i \<Rightarrow> take i s)"

definition extractServiceInfo :: "string \<Rightarrow> string \<times> string" where
  "extractServiceInfo serviceURL =
     (case Split serviceURL CHR ''.'' of
        serviceName # namespace # _ \<Rightarrow> (serviceName, namespace)
      | [serviceName] \<Rightarrow> (serviceName, [])
      | [] \<Rightarrow> ([], []))"

definition extractPodInfo :: "string \<Rightarrow> string \<times> string \<times> string" where
  "extractPodInfo podURL =
     (case Split podURL CHR ''.'' of
        podIP # deploymentName # namespace # _ \<Rightarrow> (podIP, deploymentName, namespace)
      | [podIP, deploymentName] \<Rightarrow> (podIP, deploymentName, [])
      | _ \<Rightarrow> ([], [], []))"

text \<open>\<open>lookupAddr\<close> is \<open>net.LookupAddr\<close>.\<close>

definition getHost :: "(string \<Rightarrow> error + string list) \<Rightarrow> Request \<Rightarrow> error + string" where
  "getHost lookupAddr r =
     (if req_RemoteAddr r = [] then Inl (Errorf ''remote address not found'')
      else
        (let remoteIP = strip_port (req_RemoteAddr r) in
         if req_Host r = [] then Inl (Errorf ''host not found'')
         else
           (let host = strip_port (req_Host r) in
            case lookupAddr remoteIP of
              Inl err \<Rightarrow> Inl (Errorf (''error looking up address '' @ fmt_q remoteIP @ '': '' @ error_text err))
            | Inr [] \<Rightarrow> Inl (Errorf (''no names found for address '' @ fmt_q remoteIP))
            | Inr (remoteDNS # _) \<Rightarrow>
                (let (_, _, remoteNs) = extractPodInfo remoteDNS in
                 if remoteNs = [] then Inl (Errorf (''namespace not found in '' @ fmt_q remoteDNS))
                 else
                   (let (destService, destNs) = extractServiceInfo host in
                    if prefix ''dp-'' remoteNs \<or> destNs = []
                    then Inr (destService @ ''.'' @ remoteNs)
                    else Inr (destService @ ''.'' @ destNs))))))"

section \<open>The counting middleware\<close>

text \<open>
  \<open>next\<close> is the wrapped handler on a state \<open>'w\<close> that holds the response; it may panic, and
  \<open>Inr\<close> of the pair tells so with the panic's message. The deferred function runs in both
  cases. \<open>now\<close> is the clock reading it takes.
\<close>

definition count_done :: "'s Counter \<Rightarrow> gotime \<Rightarrow> string \<Rightarrow> 's \<Rightarrow> 's go" where
  "count_done q now host s =
     bind_go (c_ShouldPostponeResize q s) (\<lambda>sp.
       let resize = bind_go (c_Resize q host (- 1) s) (\<lambda>(s', _). Ret s') in
       if \<not> sp then resize
       else bind_go (c_Count q host s) (\<lambda>n.
         if n = 1 then
           bind_go (c_PostponeDuration q s) (\<lambda>d. c_PostponeResize q host (now + sint d) s)
         else resize))"

definition countMiddleware ::
    "(string \<Rightarrow> error + string list) \<Rightarrow> 's Counter \<Rightarrow> gotime \<Rightarrow>
     (Request \<Rightarrow> ResponseWriter \<Rightarrow> 's \<Rightarrow> ResponseWriter \<times> 's \<times> string option) \<Rightarrow>
     Request \<Rightarrow> ResponseWriter \<Rightarrow> 's \<Rightarrow> (ResponseWriter \<times> 's \<times> string option) go" where
  "countMiddleware lookupAddr q now next r w s =
     (case getHost lookupAddr r of
        Inl err \<Rightarrow> Ret (fst (Write ''Host not found, not forwarding request'' (WriteHeader 400 w)), s, None)
      | Inr host \<Rightarrow>
          bind_go (c_Resize q host 1 s) (\<lambda>(s1, _).
            let (w', s2, panicked) = next r w s1 in
            bind_go (count_done q now host s2) (\<lambda>s3. Ret (w', s3, panicked))))"

section \<open>Waiting for a replica\<close>

definition deploymentCanServe :: "Deployment \<Rightarrow> bool" where
  "deploymentCanServe depl \<longleftrightarrow> 0 <s depl_ReadyReplicas depl"

text \<open>
  What the \<open>select\<close> of the loop receives, in order; the result is \<open>None\<close> while the loop waits.
\<close>

datatype wait_event = DeplEvent runtime_obj | WaitDone error

fun wait_loop :: "string \<Rightarrow> wait_event list \<Rightarrow> (gint \<times> error option) option" where
  "wait_loop deployName [] = None"
| "wait_loop deployName (DeplEvent (ObjDeployment depl) # evs) =
     (if deploymentCanServe depl then Some (0, None) else wait_loop deployName evs)"
| "wait_loop deployName (DeplEvent _ # evs) = wait_loop deployName evs"
| "wait_loop deployName (WaitDone ctxErr # evs) =
     Some (0, Some (Errorf (''context marked done while waiting for deployment '' @ deployName @
       '' to reach > 0 replicas ('' @ error_text ctxErr @ '')'')))"

definition newDeployReplicasForwardWaitFunc ::
    "(string \<Rightarrow> string \<Rightarrow> error option) \<Rightarrow> (string \<Rightarrow> string \<Rightarrow> Deployment \<times> error option) \<Rightarrow> wait_event list \<Rightarrow>
     string \<Rightarrow> string \<Rightarrow> (gint \<times> error option) option" where
  "newDeployReplicasForwardWaitFunc watch get evs deployNS deployName =
     (case watch deployNS deployName of
        Some err \<Rightarrow> Some (0, Some err)
      | None \<Rightarrow>
          (case get deployNS deployName of
             (_, Some err) \<Rightarrow>
               Some (0, Some (Errorf (''error getting state for deployment '' @ deployNS @ ''/'' @ deployName @
                 '' ('' @ error_text err @ '')'')))
           | (deployment, None) \<Rightarrow>
               if deploymentCanServe deployment then Some (scast (depl_ReadyReplicas deployment), None)
               else wait_loop deployName evs))"

section \<open>Forwarding with retries\<close>

record Response =
  resp_Status :: nat
  resp_Header :: "string list smap"
  resp_Body :: string
  resp_BodyErr :: "error option"     \<comment> \<open>the error after the bytes of the body, if reading fails\<close>
  resp_Request :: Request

definition upstreamError :: string where
  "upstreamError = ''upstream connect error or disconnect/reset before headers''"

text \<open>
  A transport acts on a state \<open>'n\<close> of the network. The result has the state, the sleeps made
  and the response; \<open>attempt\<close> counts up to \<open>maxRetries\<close> in signed 64-bit arithmetic.
\<close>

function retryRequest ::
    "(Request \<Rightarrow> 'n \<Rightarrow> 'n \<times> (error + Response)) \<Rightarrow> Response \<Rightarrow> gint \<Rightarrow> gint \<Rightarrow> 'n \<Rightarrow>
     'n \<times> gint list \<times> (error + Response)" where
  "retryRequest defaultTransport resp maxRetries attempt n =
     (if sint maxRetries \<le> sint attempt then (n, [], Inr resp)
      else
        (let sleep = second * (2 * (attempt + 1)) in
         case defaultTransport (resp_Request resp) n of
           (n', Inl err) \<Rightarrow>
             (let (n'', sleeps, res) = retryRequest defaultTransport resp maxRetries (attempt + 1) n' in
              (n'', sleep # sleeps, res))
         | (n', Inr newResp) \<Rightarrow>
             if resp_Status newResp = 503 then
               (case resp_BodyErr newResp of
                  Some err \<Rightarrow> (n', [sleep], Inl err)
                | None \<Rightarrow>
                    if prefix upstreamError (resp_Body newResp) then
                      (let (n'', sleeps, res) = retryRequest defaultTransport newResp maxRetries (attempt + 1) n' in
                       (n'', sleep # sleeps, res))
                    else (n', [sleep], Inr newResp))
             else (n', [sleep], Inr newResp)))"
  by pat_completeness auto

lemma sint_suc:
  fixes a b :: gint
  assumes "sint a < sint b"
  shows "sint (a + 1) = sint a + 1"
proof -
  have "sint b < 2 ^ 63" "- (2 ^ 63) \<le> sint a" using sint_lt [of b] sint_ge [of a] by simp_all
  then show ?thesis
    using assms sint_of_int_64 [of "sint a + 1"] by simp
qed

termination retryRequest
  by (relation "measure (\<lambda>(_, _, maxRetries, attempt, _). nat (sint maxRetries - sint attempt))")
    (auto simp: sint_suc not_le)

declare retryRequest.simps [simp del]

section \<open>The reverse proxy\<close>

definition to_upper :: "char \<Rightarrow> char" where
  "to_upper c = (if is_lower c then char_of (byte c - 32) else c)"

definition to_lower :: "char \<Rightarrow> char" where
  "to_lower c = (if is_upper c then char_of (byte c + 32) else c)"

text \<open>\<open>CanonicalMIMEHeaderKey\<close> on a header name.\<close>

fun canonical :: "bool \<Rightarrow> string \<Rightarrow> string" where
  "canonical up [] = []"
| "canonical up (c # s) = (if up then to_upper c else to_lower c) # canonical (c = CHR ''-'') s"

definition AddHeader :: "string \<Rightarrow> string \<Rightarrow> string list smap \<Rightarrow> string list smap" where
  "AddHeader k v h =
     (let k' = canonical True k in
      fmupd k' ((case fmlookup h k' of None \<Rightarrow> [] | Some vs \<Rightarrow> vs) @ [v]) h)"

definition DelHeader :: "string \<Rightarrow> string list smap \<Rightarrow> string list smap" where
  "DelHeader k h = fmdrop (canonical True k) h"

definition is_space :: "char \<Rightarrow> bool" where
  "is_space c \<longleftrightarrow> c = CHR '' '' \<or> byte c = 9 \<or> byte c = 10 \<or> byte c = 13"

definition trim :: "string \<Rightarrow> string" where
  "trim s = rev (dropWhile is_space (rev (dropWhile is_space s)))"

definition hopHeaders :: "string list" where
  "hopHeaders = [''Connection'', ''Proxy-Connection'', ''Keep-Alive'', ''Proxy-Authenticate'',
     ''Proxy-Authorization'', ''Te'', ''Trailer'', ''Transfer-Encoding'', ''Upgrade'']"

definition removeHopByHopHeaders :: "string list smap \<Rightarrow> string list smap" where
  "removeHopByHopHeaders h =
     (let named = concat (map (\<lambda>f. filter (\<lambda>s. s \<noteq> []) (map trim (Split f CHR '','')))
        (case fmlookup h ''Connection'' of None \<Rightarrow> [] | Some vs \<Rightarrow> vs)) in
      fold DelHeader (named @ hopHeaders) h)"

text \<open>\<open>net.SplitHostPort\<close>, for the client's address.\<close>

definition client_ip :: "string \<Rightarrow> string option" where
  "client_ip ra =
     (case LastIndex ra CHR '':'' of
        None \<Rightarrow> None
      | Some i \<Rightarrow>
          (let h = take i ra in
           if h \<noteq> [] \<and> hd h = CHR ''['' then (if last h = CHR '']'' then Some (butlast (tl h)) else None)
           else if CHR '':'' \<in> set h then None else Some h))"

text \<open>
  The outgoing request: the director of \<open>forwardRequest\<close> points it at the target with the path
  and query of the original and drops the client's \<open>X-Forwarded-For\<close>; the proxy then drops the
  hop-by-hop headers, adds its own \<open>X-Forwarded-For\<close> and an empty user agent if none is set.
\<close>

definition director :: "URL \<Rightarrow> Request \<Rightarrow> Request" where
  "director fwdSvcURL r =
     r\<lparr>req_URL := fwdSvcURL\<lparr>Path := Path (req_URL r), RawQuery := RawQuery (req_URL r)\<rparr>,
       req_Host := Host fwdSvcURL,
       req_Header := DelHeader ''X-Forwarded-For'' (req_Header r)\<rparr>"

definition outgoing :: "(Request \<Rightarrow> Request) \<Rightarrow> Request \<Rightarrow> Request" where
  "outgoing dir r =
     (let out = dir r;
          h1 = removeHopByHopHeaders (req_Header out);
          h2 = (case client_ip (req_RemoteAddr r) of
                  None \<Rightarrow> h1
                | Some ip \<Rightarrow>
                    fmupd ''X-Forwarded-For''
                      [case fmlookup h1 ''X-Forwarded-For'' of
                         Some (p # ps) \<Rightarrow> concat (map (\<lambda>x. x @ '', '') (p # ps)) @ ip
                       | _ \<Rightarrow> ip] h1);
          h3 = (if fmlookup h2 ''User-Agent'' = None then fmupd ''User-Agent'' [[]] h2 else h2) in
      out\<lparr>req_Header := h3\<rparr>)"

definition copyHeader :: "string list smap \<Rightarrow> ResponseWriter \<Rightarrow> ResponseWriter" where
  "copyHeader src w =
     w\<lparr>rw_header := fold (\<lambda>(k, vs) h. fold (AddHeader k) vs h) (sorted_list_of_fmap src) (rw_header w)\<rparr>"

definition errorHandler :: "error \<Rightarrow> ResponseWriter \<Rightarrow> ResponseWriter" where
  "errorHandler err w = fst (Write (''error on backend ('' @ error_text err @ '')'') (WriteHeader 502 w))"

definition modifyResponse ::
    "(Request \<Rightarrow> 'n \<Rightarrow> 'n \<times> (error + Response)) \<Rightarrow> gint \<Rightarrow> Response \<Rightarrow> 'n \<Rightarrow> 'n \<times> gint list \<times> (error + Response)" where
  "modifyResponse defaultTransport maxRetries resp n =
     (if resp_Status resp = 503 then
        (case resp_BodyErr resp of
           Some err \<Rightarrow> (n, [], Inl err)
         | None \<Rightarrow>
             if prefix upstreamError (resp_Body resp) then retryRequest defaultTransport resp maxRetries 0 n
             else (n, [], Inr resp))
      else (n, [], Inr resp))"

text \<open>
  The last component is the panic with which the proxy aborts a response whose body breaks off.
  Upgraded connections are not part of the model.
\<close>

definition forwardRequest ::
    "(Request \<Rightarrow> 'n \<Rightarrow> 'n \<times> (error + Response)) \<Rightarrow> (Request \<Rightarrow> 'n \<Rightarrow> 'n \<times> (error + Response)) \<Rightarrow>
     URL \<Rightarrow> gint \<Rightarrow> Request \<Rightarrow> ResponseWriter \<Rightarrow> 'n \<Rightarrow> 'n \<times> ResponseWriter \<times> string option" where
  "forwardRequest roundTripper defaultTransport fwdSvcURL maxRetries r w n =
     (case roundTripper (outgoing (director fwdSvcURL) r) n of
        (n1, Inl err) \<Rightarrow> (n1, errorHandler err w, None)
      | (n1, Inr resp) \<Rightarrow>
          (case modifyResponse defaultTransport maxRetries
                  (resp\<lparr>resp_Header := removeHopByHopHeaders (resp_Header resp)\<rparr>) n1 of
             (n2, sleeps, Inl err) \<Rightarrow> (n2, errorHandler err w, None)
           | (n2, sleeps, Inr resp') \<Rightarrow>
               (n2, fst (Write (resp_Body resp') (WriteHeader (resp_Status resp') (copyHeader (resp_Header resp') w))),
                if resp_BodyErr resp' = None then None else Some ''net/http: abort Handler'')))"

section \<open>The forwarding handler\<close>

record forwardingConfig =
  waitTimeout :: gint
  respHeaderTimeout :: gint
  forceAttemptHTTP2 :: bool
  maxIdleConns :: gint
  idleConnTimeout :: gint
  tlsHandshakeTimeout :: gint
  expectContinueTimeout :: gint
  serviceUnavailableRetry :: gint

definition newForwardingConfigFromTimeouts :: "Timeouts \<Rightarrow> forwardingConfig" where
  "newForwardingConfigFromTimeouts t =
     \<lparr>waitTimeout = DeploymentReplicas t, respHeaderTimeout = ResponseHeader t,
      forceAttemptHTTP2 = ForceHTTP2 t, maxIdleConns = MaxIdleConns t, idleConnTimeout = IdleConnTimeout t,
      tlsHandshakeTimeout = TLSHandshakeTimeout t, expectContinueTimeout = ExpectContinueTimeout t,
      serviceUnavailableRetry = ServiceUnavailableRetry t\<rparr>"

text \<open>
  Where the request goes: with a port in the host header, to that port of the target's service;
  else to the URL of the target.
\<close>

definition target_URL :: "(Target \<Rightarrow> error + URL) \<Rightarrow> Target \<Rightarrow> string \<Rightarrow> string + URL" where
  "target_URL targetSvcURL target host =
     (case Index host CHR '':'' of
        Some i \<Rightarrow>
          (let targetPort = drop (Suc i) host;
               hp = Service target @ ''.'' @ Namespace target @ '':'' @ targetPort in
           case parse_http hp of
             Inl err \<Rightarrow> Inl (''error parsing host:port: http://'' @ hp @ '' to URL'')
           | Inr u \<Rightarrow> Inr u)
      | None \<Rightarrow>
          (case targetSvcURL target of
             Inl err \<Rightarrow> Inl ''error getting backend service URL''
           | Inr u \<Rightarrow> Inr u))"

text \<open>
  \<open>waitFunc\<close> returns under a context that ends after \<open>waitTimeout\<close>; \<open>transport\<close> is the round
  tripper built from the configuration.
\<close>

definition newForwardingHandler ::
    "(string \<Rightarrow> error + string list) \<Rightarrow> Table \<Rightarrow> (gint \<Rightarrow> string \<Rightarrow> string \<Rightarrow> gint \<times> error option) \<Rightarrow>
     (Target \<Rightarrow> error + URL) \<Rightarrow> forwardingConfig \<Rightarrow>
     (forwardingConfig \<Rightarrow> Request \<Rightarrow> 'n \<Rightarrow> 'n \<times> (error + Response)) \<Rightarrow> (Request \<Rightarrow> 'n \<Rightarrow> 'n \<times> (error + Response)) \<Rightarrow>
     Request \<Rightarrow> ResponseWriter \<Rightarrow> 'n \<Rightarrow> 'n \<times> ResponseWriter \<times> string option" where
  "newForwardingHandler lookupAddr routingTable waitFunc targetSvcURL fwdCfg transport defaultTransport r w n =
     (case getHost lookupAddr r of
        Inl err \<Rightarrow> (n, fst (Write ''Host not found in request'' (WriteHeader 400 w)), None)
      | Inr host \<Rightarrow>
          (case Table_Lookup routingTable host of
             Inl err \<Rightarrow> (n, fst (Write (''Host '' @ req_Host r @ '' not found'') (WriteHeader 404 w)), None)
           | Inr routingTarget \<Rightarrow>
               (case waitFunc (waitTimeout fwdCfg) (Namespace routingTarget) (Deployment routingTarget) of
                  (_, Some err) \<Rightarrow>
                    (n, fst (Write (''error on backend ('' @ error_text err @ '')'') (WriteHeader 502 w)), None)
                | (replicas, None) \<Rightarrow>
                    (case target_URL targetSvcURL routingTarget (req_Host r) of
                       Inl msg \<Rightarrow> (n, fst (Write msg (WriteHeader 500 w)), None)
                     | Inr targetURL \<Rightarrow>
                         (let isColdStart = (if replicas = 0 then ''true'' else ''false'');
                              w' = w\<lparr>rw_header := AddHeader ''X-KEDA-HTTP-Cold-Start'' isColdStart (rw_header w)\<rparr> in
                          forwardRequest (transport fwdCfg) defaultTransport targetURL
                            (serviceUnavailableRetry fwdCfg) r w' n)))))"

section \<open>Hosts of requests\<close>

lemma strip_port_no_colon: "CHR '':'' \<notin> set (strip_port s)"
  using Index_SomeD [of s "CHR '':''"] by (auto simp: strip_port_def split: option.split)

lemma set_strip_port: "set (strip_port s) \<subseteq> set s"
  by (auto simp: strip_port_def split: option.split dest: in_set_takeD)

lemma Split_hd_no_sep: "Split s c = p # ps \<Longrightarrow> c \<notin> set p \<and> set p \<subseteq> set s"
  using Split_parts [of p s c] Join_Split [of s c] by (cases ps) auto

lemma extractServiceInfo_service:
  "extractServiceInfo s = (svc, ns) \<Longrightarrow> CHR ''.'' \<notin> set svc \<and> set svc \<subseteq> set s"
  by (auto simp: extractServiceInfo_def split: list.splits dest: Split_hd_no_sep)

lemma tenant_host:
  assumes "getHost lookupAddr r = Inr host"
    and "lookupAddr (strip_port (req_RemoteAddr r)) = Inr (dns # names)"
    and "extractPodInfo dns = (ip, depl, ns)" and "prefix ''dp-'' ns"
  shows "\<exists>svc. host = svc @ ''.'' @ ns \<and> CHR ''.'' \<notin> set svc \<and> CHR '':'' \<notin> set svc \<and>
    set svc \<subseteq> set (req_Host r)"
proof -
  obtain svc dest where e: "extractServiceInfo (strip_port (req_Host r)) = (svc, dest)" by fastforce
  have "ns \<noteq> []" using assms(4) by auto
  then have "host = svc @ ''.'' @ ns"
    using assms e by (auto simp: getHost_def Let_def split: if_splits)
  then show ?thesis
    using extractServiceInfo_service [OF e] strip_port_no_colon set_strip_port by blast
qed

text \<open>
  C16: Callers in data-plane namespaces stay in their namespace. When the first name of the
  caller's address puts it in a namespace that starts with \<open>dp-\<close>, whatever the host header says,
  the host that is counted and routed is a single label followed by the caller's own namespace:
  a header cannot name another tenant's namespace, nor smuggle a dot or a port into the label.
\<close>

theorem getHost_tenant:
  assumes "getHost lookupAddr r = Inr host"
    and "lookupAddr (strip_port (req_RemoteAddr r)) = Inr (dns # names)"
    and "extractPodInfo dns = (ip, depl, ns)" and "prefix ''dp-'' ns"
  shows "\<exists>svc. host = svc @ ''.'' @ ns \<and> CHR ''.'' \<notin> set svc \<and> CHR '':'' \<notin> set svc \<and>
    set svc \<subseteq> set (req_Host r)"
  using assms by (rule tenant_host)

definition sample_request :: "string \<Rightarrow> Request" where
  "sample_request h = \<lparr>req_Method = ''GET'', req_URL = http_url [], req_Host = h,
     req_RemoteAddr = ''10.0.0.7:5000'', req_Header = fmempty, req_Body = []\<rparr>"

definition sample_lookup :: "string \<Rightarrow> error + string list" where
  "sample_lookup ip = (if ip = ''10.0.0.7'' then Inr [''10-0-0-7.app.dp-acme.svc.cluster.local.''] else Inl (StatusNotFound ip))"

theorem getHost_tenant_witness:
  "\<exists>svc. getHost sample_lookup (sample_request ''db.dp-other:80'') = Inr (svc @ ''.'' @ ''dp-acme'') \<and> CHR ''.'' \<notin> set svc"
proof -
  have "getHost sample_lookup (sample_request ''db.dp-other:80'') = Inr ''db.dp-acme''"
    "sample_lookup (strip_port (req_RemoteAddr (sample_request ''db.dp-other:80''))) =
       Inr [''10-0-0-7.app.dp-acme.svc.cluster.local.'']"
    "extractPodInfo ''10-0-0-7.app.dp-acme.svc.cluster.local.'' = (''10-0-0-7'', ''app'', ''dp-acme'')"
    "prefix ''dp-'' ''dp-acme''"
    by code_simp+
  from getHost_tenant [OF this] this(1) show ?thesis by auto
qed

text \<open>
  Every way \<open>getHost\<close> can end. It fails for a missing remote address or host, a failed or
  empty reverse lookup and a name without a namespace; otherwise the host is the service label
  with the caller's namespace when the caller is in a \<open>dp-\<close> namespace or the header names no
  namespace, and with the header's namespace when it does.
\<close>

theorem getHost_cases:
  "(case lookupAddr (strip_port (req_RemoteAddr r)) of
      Inr (dns # _) \<Rightarrow>
        (let ns = snd (snd (extractPodInfo dns)); (svc, dest) = extractServiceInfo (strip_port (req_Host r)) in
         if req_RemoteAddr r \<noteq> [] \<and> req_Host r \<noteq> [] \<and> ns \<noteq> []
         then getHost lookupAddr r = Inr (svc @ ''.'' @ (if dest \<noteq> [] \<and> \<not> prefix ''dp-'' ns then dest else ns))
         else isl (getHost lookupAddr r))
    | _ \<Rightarrow> isl (getHost lookupAddr r))"
  by (auto simp: getHost_def Let_def split: sum.split list.split prod.split)

section \<open>Counting\<close>

lemma countMiddleware_counts:
  assumes "\<And>s. next r w s = (w', s, panicked)"
  shows "(case getHost lookupAddr r of
      Inl e \<Rightarrow> (\<exists>w1. countMiddleware lookupAddr Memory_Counter now next r w s = Ret (w1, s, None) \<and>
        (rw_code w = None \<longrightarrow> rw_code w1 = Some 400))
    | Inr host \<Rightarrow>
        (\<exists>s'. countMiddleware lookupAddr Memory_Counter now next r w s = Ret (w', s', panicked) \<and>
          (if shouldPostpone s \<and> Memory_Count host s = 0
           then Memory_Count host s' = 1 \<and>
             fmlookup (postponedResizes s') host = Some (now + sint (postponeDuration s)) \<and>
             (\<forall>k. k \<noteq> host \<longrightarrow> Memory_Count k s' = Memory_Count k s)
           else (\<forall>k. Memory_Count k s' = Memory_Count k s) \<and> postponedResizes s' = postponedResizes s)))"
proof (cases "getHost lookupAddr r")
  case (Inl e)
  then show ?thesis by (simp add: countMiddleware_def)
next
  case (Inr host)
  have "Memory_Count host s + 1 = 1 \<longleftrightarrow> Memory_Count host s = 0" by simp
  then show ?thesis
    using Inr assms
    by (auto simp: countMiddleware_def count_done_def Memory_Counter_def Let_def Memory_Resize_def
        Memory_PostponeResize_def Memory_PostponeDuration_def Memory_ShouldPostponeResize_def
        Memory_Count_count_of)
qed

text \<open>
  C20: The middleware leaves the queue balanced. On the in-memory counter, for a handler that
  does not touch the counter itself and whether or not it panics, the response and panic are the
  handler's, and afterwards every count is what it was before; except that with postponing on
  and no other request counted for the host, the count stays at one and the reset is due at the
  clock reading plus the postpone duration. A request whose host cannot be determined is answered
  with 400, does not reach the handler and is not counted; so is every request without a \<open>Host\<close>, and
  every request without the address of its caller, even if it has a \<open>Host\<close>.
\<close>

theorem countMiddleware_balanced:
  assumes "\<And>s. next r w s = (w', s, panicked)"
  shows "(case getHost lookupAddr r of
      Inl e \<Rightarrow> (\<exists>w1. countMiddleware lookupAddr Memory_Counter now next r w s = Ret (w1, s, None) \<and>
        (rw_code w = None \<longrightarrow> rw_code w1 = Some 400))
    | Inr host \<Rightarrow>
        (\<exists>s'. countMiddleware lookupAddr Memory_Counter now next r w s = Ret (w', s', panicked) \<and>
          (if shouldPostpone s \<and> Memory_Count host s = 0
           then Memory_Count host s' = 1 \<and>
             fmlookup (postponedResizes s') host = Some (now + sint (postponeDuration s)) \<and>
             (\<forall>k. k \<noteq> host \<longrightarrow> Memory_Count k s' = Memory_Count k s)
           else (\<forall>k. Memory_Count k s' = Memory_Count k s) \<and> postponedResizes s' = postponedResizes s))) \<and>
    (req_RemoteAddr r = [] \<or> req_Host r = [] \<longrightarrow>
       (\<exists>w1. countMiddleware lookupAddr Memory_Counter now next r w s = Ret (w1, s, None) \<and>
         (rw_code w = None \<longrightarrow> rw_code w1 = Some 400)))"
proof -
  note counts = countMiddleware_counts [of "next" r w w' panicked lookupAddr now s, OF assms]
  have "\<exists>e. getHost lookupAddr r = Inl e" if "req_RemoteAddr r = [] \<or> req_Host r = []"
    using that by (auto simp: getHost_def)
  then have "req_RemoteAddr r = [] \<or> req_Host r = [] \<longrightarrow>
       (\<exists>w1. countMiddleware lookupAddr Memory_Counter now next r w s = Ret (w1, s, None) \<and>
         (rw_code w = None \<longrightarrow> rw_code w1 = Some 400))"
    using counts by auto
  with counts show ?thesis by (rule conjI)
qed

theorem countMiddleware_balanced_witness:
  "\<exists>s'. countMiddleware sample_lookup Memory_Counter 100 (\<lambda>r w s. (w, s, Some ''abort'')) (sample_request ''db'')
     NewRecorder (NewMemory 20 True) = Ret (NewRecorder, s', Some ''abort'') \<and> Memory_Count ''db.dp-acme'' s' = 1 \<and>
     fmlookup (postponedResizes s') ''db.dp-acme'' = Some 120"
proof -
  have "getHost sample_lookup (sample_request ''db'') = Inr ''db.dp-acme''" by code_simp
  moreover have "Memory_Count ''db.dp-acme'' (NewMemory 20 True) = 0" by code_simp
  ultimately show ?thesis
    using countMiddleware_balanced [of "\<lambda>r w s. (w, s, Some ''abort'')" "sample_request ''db''" NewRecorder
        NewRecorder "Some ''abort''" sample_lookup 100 "NewMemory 20 True"]
    by (auto simp: NewMemory_def)
qed

section \<open>Waiting\<close>

fun ready_before_done :: "wait_event list \<Rightarrow> bool" where
  "ready_before_done (DeplEvent (ObjDeployment d) # evs) \<longleftrightarrow> deploymentCanServe d \<or> ready_before_done evs"
| "ready_before_done (DeplEvent _ # evs) \<longleftrightarrow> ready_before_done evs"
| "ready_before_done _ \<longleftrightarrow> False"

lemma wait_loop_cases:
  "(wait_loop name evs = Some (0, None) \<longleftrightarrow> ready_before_done evs) \<and>
   (\<forall>n. wait_loop name evs = Some (n, None) \<longrightarrow> n = 0) \<and>
   ((\<exists>e. WaitDone e \<in> set evs) \<longrightarrow> wait_loop name evs \<noteq> None)"
  by (induction name evs rule: wait_loop.induct) auto

text \<open>
  C19: What the wait for a deployment returns. A failed watch or a failed read of the cache is an
  error. A deployment with ready replicas is reported at once with their (positive) number. Else
  the wait ends with zero and no error exactly when an event shows a ready replica before the
  context ends, and if the context ends it does return; so a result of zero without an error
  means the request had to wait.
\<close>

theorem wait_func_spec:
  "(case (watch ns name, get ns name) of
      (Some e, _) \<Rightarrow> newDeployReplicasForwardWaitFunc watch get evs ns name = Some (0, Some e)
    | (None, (_, Some e)) \<Rightarrow> (\<exists>msg. newDeployReplicasForwardWaitFunc watch get evs ns name = Some (0, Some (Errorf msg)))
    | (None, (d, None)) \<Rightarrow>
        (if deploymentCanServe d
         then (\<exists>n. newDeployReplicasForwardWaitFunc watch get evs ns name = Some (n, None) \<and>
           sint n = sint (depl_ReadyReplicas d) \<and> 0 < sint n)
         else (newDeployReplicasForwardWaitFunc watch get evs ns name = Some (0, None) \<longleftrightarrow> ready_before_done evs) \<and>
           (\<forall>n. newDeployReplicasForwardWaitFunc watch get evs ns name = Some (n, None) \<longrightarrow> n = 0) \<and>
           ((\<exists>e. WaitDone e \<in> set evs) \<longrightarrow> newDeployReplicasForwardWaitFunc watch get evs ns name \<noteq> None)))"
  using wait_loop_cases [of name evs]
  by (auto simp: newDeployReplicasForwardWaitFunc_def deploymentCanServe_def word_sless_alt sint_scast_32
      split: option.split prod.split)

theorem wait_func_spec_witness:
  "newDeployReplicasForwardWaitFunc (\<lambda>_ _. None) (\<lambda>_ _. (zero_Deployment, None))
     [DeplEvent (ObjOther ''x''), DeplEvent (ObjDeployment (zero_Deployment\<lparr>depl_ReadyReplicas := 1\<rparr>))] ''ns'' ''d'' =
   Some (0, None)"
proof -
  let ?evs = "[DeplEvent (ObjOther ''x''), DeplEvent (ObjDeployment (zero_Deployment\<lparr>depl_ReadyReplicas := 1\<rparr>))]"
  have "\<not> deploymentCanServe zero_Deployment" "ready_before_done ?evs" by code_simp+
  with wait_func_spec [of "\<lambda>_ _. None" "\<lambda>_ _. (zero_Deployment, None)" ?evs "''ns''" "''d''"]
  show ?thesis by simp
qed

section \<open>Retries\<close>

text \<open>The transport with a counter of its calls.\<close>

definition counted :: "('r \<Rightarrow> 'n \<Rightarrow> 'n \<times> 'a) \<Rightarrow> 'r \<Rightarrow> nat \<times> 'n \<Rightarrow> (nat \<times> 'n) \<times> 'a" where
  "counted tr r kn = (case tr r (snd kn) of (n', a) \<Rightarrow> ((Suc (fst kn), n'), a))"

lemma retryRequest_bound:
  assumes "retryRequest (counted tr) resp maxRetries attempt (k, n) = ((k', n'), sleeps, res)"
  shows "k' = k + length sleeps \<and> length sleeps \<le> nat (sint maxRetries - sint attempt) \<and>
    (\<forall>i < length sleeps. sleeps ! i = second * (2 * (attempt + of_nat i + 1)))"
  using assms
proof (induction "nat (sint maxRetries - sint attempt)" arbitrary: resp attempt k n k' n' sleeps res
    rule: less_induct)
  case less
  show ?case
  proof (cases "sint maxRetries \<le> sint attempt")
    case True
    then show ?thesis using less.prems by (simp add: retryRequest.simps)
  next
    case False
    then have a: "sint (attempt + 1) = sint attempt + 1" using sint_suc by (simp add: not_le)
    have step: ?thesis
      if "retryRequest (counted tr) resp1 maxRetries (attempt + 1) (Suc k, n1) = ((k', n'), sl, res)"
        "sleeps = second * (2 * (attempt + 1)) # sl" for resp1 n1 sl
      using less.hyps [OF _ that(1)] that(2) False a
      by (auto simp: nth_Cons algebra_simps split: nat.split)
    obtain n1 rr where tr: "tr (resp_Request resp) n = (n1, rr)" by (cases "tr (resp_Request resp) n")
    show ?thesis
    proof (cases rr)
      case (Inl err)
      with tr less.prems False show ?thesis
        by (intro step [of resp n1 "tl sleeps"])
          (auto simp: retryRequest.simps [of _ resp _ attempt] counted_def Let_def split: prod.splits)
    next
      case (Inr newResp)
      show ?thesis
      proof (cases "resp_Status newResp = 503 \<and> resp_BodyErr newResp = None \<and> prefix upstreamError (resp_Body newResp)")
        case True
        with Inr tr less.prems False show ?thesis
          by (intro step [of newResp n1 "tl sleeps"])
            (auto simp: retryRequest.simps [of _ resp _ attempt] counted_def Let_def split: prod.splits)
      next
        case False2: False
        with Inr tr less.prems False show ?thesis
          by (auto simp: retryRequest.simps [of _ resp _ attempt] counted_def Let_def split: option.splits if_splits)
      qed
    qed
  qed
qed

definition retryable :: "Response \<Rightarrow> bool" where
  "retryable resp \<longleftrightarrow>
     resp_Status resp = 503 \<and> resp_BodyErr resp = None \<and> prefix upstreamError (resp_Body resp)"

lemma retryRequest_exhausts:
  assumes "retryRequest tr resp maxRetries attempt n = (n', sleeps, Inr r')" and "retryable r'"
  shows "length sleeps = nat (sint maxRetries - sint attempt)"
  using assms(1)
proof (induction "nat (sint maxRetries - sint attempt)" arbitrary: resp attempt n n' sleeps rule: less_induct)
  case less
  show ?case
  proof (cases "sint maxRetries \<le> sint attempt")
    case True
    then show ?thesis using less.prems by (simp add: retryRequest.simps)
  next
    case False
    then have a: "sint (attempt + 1) = sint attempt + 1" using sint_suc by (simp add: not_le)
    have step: ?thesis
      if "retryRequest tr resp1 maxRetries (attempt + 1) n1 = (n', sl, Inr r')" "length sleeps = Suc (length sl)" for resp1 n1 sl
      using less.hyps [OF _ that(1)] that(2) False a by auto
    obtain n1 rr where tr: "tr (resp_Request resp) n = (n1, rr)" by (cases "tr (resp_Request resp) n")
    show ?thesis
    proof (cases rr)
      case (Inl err)
      with tr less.prems False show ?thesis
        by (intro step [of resp n1 "tl sleeps"])
          (auto simp: retryRequest.simps [of _ resp _ attempt] Let_def split: prod.splits)
    next
      case (Inr newResp)
      show ?thesis
      proof (cases "retryable newResp")
        case True
        with Inr tr less.prems False show ?thesis
          by (intro step [of newResp n1 "tl sleeps"])
            (auto simp: retryRequest.simps [of _ resp _ attempt] retryable_def Let_def split: prod.splits)
      next
        case False2: False
        with Inr tr less.prems False assms(2) show ?thesis
          by (auto simp: retryRequest.simps [of _ resp _ attempt] retryable_def Let_def split: option.splits if_splits)
      qed
    qed
  qed
qed

text \<open>
  C18: Retrying is bounded and gives up only when it must. From attempt zero the retry makes at
  most \<open>maxRetries\<close> calls of the transport (none if that is negative), sleeping two, four, six
  and so on seconds before them; and if the response it ends with is still the upstream error
  that is worth a retry, then all the retries were used.
\<close>

theorem retryRequest_spec:
  assumes "retryRequest (counted tr) resp maxRetries 0 (0, n) = ((calls, n'), sleeps, res)"
  shows "calls = length sleeps \<and> int calls \<le> max 0 (sint maxRetries) \<and>
    (\<forall>i < length sleeps. sleeps ! i = second * (2 * (of_nat i + 1))) \<and>
    (\<forall>r'. res = Inr r' \<and> retryable r' \<longrightarrow> int calls = max 0 (sint maxRetries))"
  using retryRequest_bound [OF assms] retryRequest_exhausts [of "counted tr" resp maxRetries 0 "(0, n)"] assms
  by auto

definition sample_response :: "nat \<Rightarrow> string \<Rightarrow> Response" where
  "sample_response code body = \<lparr>resp_Status = code, resp_Header = fmempty, resp_Body = body,
     resp_BodyErr = None, resp_Request = sample_request ''db''\<rparr>"

definition sample_transport :: "Request \<Rightarrow> nat \<Rightarrow> nat \<times> (error + Response)" where
  "sample_transport r n = (Suc n, if n < 2 then Inr (sample_response 503 upstreamError) else Inr (sample_response 200 ''ok''))"

theorem retryRequest_spec_witness:
  "\<exists>n' sleeps. retryRequest (counted sample_transport) (sample_response 503 upstreamError) 1 0 (0, 0) =
     ((1, n'), sleeps, Inr (sample_response 503 upstreamError)) \<and> sleeps = [second * 2]"
proof -
  have r: "retryRequest (counted sample_transport) (sample_response 503 upstreamError) 1 0 (0, 0) =
      ((1, 1), [second * 2], Inr (sample_response 503 upstreamError))"
    by code_simp
  from retryRequest_spec [OF r] r show ?thesis by simp
qed

section \<open>Forwarding\<close>

lemma fold_DelHeader_None: "fmlookup h k = None \<Longrightarrow> fmlookup (fold DelHeader ks h) k = None"
  by (induction ks arbitrary: h) (auto simp: DelHeader_def)

lemma removeHopByHop_None: "fmlookup h k = None \<Longrightarrow> fmlookup (removeHopByHopHeaders h) k = None"
  by (simp add: removeHopByHopHeaders_def Let_def fold_DelHeader_None del: fold_append)

text \<open>
  C17: What the backend receives. The forwarded request goes to the scheme and host of the target
  with the path and query of the original, and its \<open>X-Forwarded-For\<close> is exactly the address of
  the peer: whatever value the client put there, or named as a hop-by-hop header, is gone.
\<close>

theorem outgoing_request:
  assumes "client_ip (req_RemoteAddr r) = Some ip"
  shows "fmlookup (req_Header (outgoing (director u) r)) ''X-Forwarded-For'' = Some [ip] \<and>
    req_URL (outgoing (director u) r) = u\<lparr>Path := Path (req_URL r), RawQuery := RawQuery (req_URL r)\<rparr> \<and>
    req_Host (outgoing (director u) r) = Host u \<and> req_Method (outgoing (director u) r) = req_Method r \<and>
    req_Body (outgoing (director u) r) = req_Body r"
proof -
  have c: "canonical True ''X-Forwarded-For'' = ''X-Forwarded-For''" by code_simp
  have "fmlookup (removeHopByHopHeaders (req_Header (director u r))) ''X-Forwarded-For'' = None"
    by (rule removeHopByHop_None) (simp add: director_def DelHeader_def c del: canonical.simps)
  then show ?thesis using assms by (simp add: outgoing_def Let_def director_def)
qed

theorem outgoing_request_witness:
  "fmlookup (req_Header (outgoing (director (http_url ''svc.ns:80''))
     ((sample_request ''db'')\<lparr>req_Header := fmap_of_list [(''X-Forwarded-For'', [''1.2.3.4''])]\<rparr>))) ''X-Forwarded-For'' =
   Some [''10.0.0.7'']"
proof -
  have "client_ip (req_RemoteAddr ((sample_request ''db'')\<lparr>req_Header := fmap_of_list [(''X-Forwarded-For'', [''1.2.3.4''])]\<rparr>)) =
      Some ''10.0.0.7''"
    by code_simp
  from outgoing_request [OF this] show ?thesis by (rule conjunct1)
qed

text \<open>
  What the client receives. A transport error, or an unreadable body of a 503, becomes a
  502 that carries the error's text. Any response other than the upstream 503 is passed through:
  its status and its body unchanged, without a retry.
\<close>

theorem forwardRequest_passthrough:
  assumes "rw_code w = None" and "\<not> rw_broken w" and "rw_body w = []"
  shows "(case roundTripper (outgoing (director u) r) n of
      (n1, Inl err) \<Rightarrow>
        (\<exists>w'. forwardRequest roundTripper defaultTransport u maxRetries r w n = (n1, w', None) \<and>
          rw_code w' = Some 502 \<and> rw_body w' = ''error on backend ('' @ error_text err @ '')'')
    | (n1, Inr resp) \<Rightarrow>
        (resp_BodyErr resp = None \<longrightarrow> \<not> retryable resp \<longrightarrow>
          (\<exists>w'. forwardRequest roundTripper defaultTransport u maxRetries r w n = (n1, w', None) \<and>
            rw_code w' = Some (resp_Status resp) \<and> rw_body w' = resp_Body resp)) \<and>
        (\<forall>e. resp_Status resp = 503 \<and> resp_BodyErr resp = Some e \<longrightarrow>
          (\<exists>w'. forwardRequest roundTripper defaultTransport u maxRetries r w n = (n1, w', None) \<and>
            rw_code w' = Some 502 \<and> rw_body w' = ''error on backend ('' @ error_text e @ '')'')))"
  using assms
  by (cases "roundTripper (outgoing (director u) r) n")
    (auto simp: forwardRequest_def modifyResponse_def retryable_def errorHandler_def copyHeader_def
      split: sum.split)

theorem forwardRequest_passthrough_witness:
  "\<exists>w'. forwardRequest (\<lambda>r n. (n, Inr (sample_response 404 ''nope''))) sample_transport (http_url ''svc.ns:80'') 3
     (sample_request ''db'') NewRecorder 0 = (0, w', None) \<and> rw_code w' = Some 404 \<and> rw_body w' = ''nope''"
  using forwardRequest_passthrough [where w = NewRecorder and roundTripper = "\<lambda>r n. (n, Inr (sample_response 404 ''nope''))"
      and u = "http_url ''svc.ns:80''" and r = "sample_request ''db''" and n = 0 and maxRetries = 3
      and defaultTransport = sample_transport]
  by (simp add: NewRecorder_def sample_response_def retryable_def)

text \<open>
  Which status the forwarding handler answers itself. On a fresh response: 400 without a
  host, 404 with the header's host when the routing table has no target, 502 when the wait for
  the deployment fails, 500 when the target's URL does not parse, and in all four cases no
  request leaves the interceptor; otherwise exactly one forwarded request to the target's URL,
  with the cold-start header telling whether the wait returned zero replicas.
\<close>

theorem forwarding_handler_answers:
  assumes "rw_code w = None"
  shows "let res = newForwardingHandler lookupAddr table waitFunc svcURL cfg transport defaultTransport r w n in
    (case getHost lookupAddr r of
       Inl _ \<Rightarrow> fst res = n \<and> rw_code (fst (snd res)) = Some 400
     | Inr host \<Rightarrow>
         (case Table_Lookup table host of
            Inl _ \<Rightarrow> fst res = n \<and> rw_code (fst (snd res)) = Some 404
          | Inr tg \<Rightarrow>
              (case waitFunc (waitTimeout cfg) (Namespace tg) (Deployment tg) of
                 (_, Some e) \<Rightarrow> fst res = n \<and> rw_code (fst (snd res)) = Some 502
               | (reps, None) \<Rightarrow>
                   (case target_URL svcURL tg (req_Host r) of
                      Inl _ \<Rightarrow> fst res = n \<and> rw_code (fst (snd res)) = Some 500
                    | Inr u \<Rightarrow>
                        res = forwardRequest (transport cfg) defaultTransport u (serviceUnavailableRetry cfg) r
                          (w\<lparr>rw_header := AddHeader ''X-KEDA-HTTP-Cold-Start''
                             (if reps = 0 then ''true'' else ''false'') (rw_header w)\<rparr>) n))))"
  using assms
  by (auto simp: newForwardingHandler_def Let_def split: sum.split prod.split option.split)

theorem forwarding_handler_answers_witness:
  "rw_code (fst (snd (newForwardingHandler sample_lookup NewTable (\<lambda>_ _ _. (0, None)) ServiceURL
     (newForwardingConfigFromTimeouts sample_timeouts) (\<lambda>_. sample_transport) sample_transport
     (sample_request ''db'') NewRecorder 0))) = Some 404"
proof -
  have "getHost sample_lookup (sample_request ''db'') = Inr ''db.dp-acme''"
    "Table_Lookup NewTable ''db.dp-acme'' = Inl ErrTargetNotFound" "rw_code NewRecorder = None"
    by code_simp+
  with forwarding_handler_answers [of NewRecorder sample_lookup NewTable "\<lambda>_ _ _. (0, None)" ServiceURL
      "newForwardingConfigFromTimeouts sample_timeouts" "\<lambda>_. sample_transport" sample_transport
      "sample_request ''db''" 0]
  show ?thesis by (simp add: Let_def)
qed

section \<open>The port of the host header\<close>

text \<open>The bytes that the HTTP server accepts in a host header.\<close>

definition valid_host_byte :: "char \<Rightarrow> bool" where
  "valid_host_byte c \<longleftrightarrow>
     is_alpha c \<or> is_digit c \<or> c \<in> set ''!$%&()*+,-.:;=[]_~'' \<or> byte c = 39"

lemma valid_host_bytes:
  assumes "valid_host_byte c"
  shows "c \<noteq> CHR ''@''" "c \<noteq> CHR ''/''" "c \<noteq> CHR ''#''" "c \<noteq> CHR ''?''" "\<not> byte c < 32" "byte c \<noteq> 127"
  using assms
  by (auto simp: valid_host_byte_def is_alpha_def is_lower_def is_upper_def is_digit_def byte_def)

lemma parse_http_valid_bytes:
  assumes "\<forall>c \<in> set a. c \<noteq> CHR ''@'' \<and> c \<noteq> CHR ''/'' \<and> c \<noteq> CHR ''#'' \<and> c \<noteq> CHR ''?'' \<and> \<not> byte c < 32 \<and> byte c \<noteq> 127"
  shows "parse_http a = (case parseHost a of Inl e \<Rightarrow> Inl e | Inr h \<Rightarrow> Inr (http_url h))"
proof -
  have "LastIndex a CHR ''@'' = None" "Index a CHR ''/'' = None" "Index a CHR ''#'' = None" "Index a CHR ''?'' = None"
    "\<not> list_ex (\<lambda>c. byte c < 32 \<or> byte c = 127) a"
    using assms by (auto simp: list_ex_iff)
  then show ?thesis
    by (simp add: parse_http_def cut_def parseAuthority_def http_url_def
        del: Index_None LastIndex_None split: sum.split)
qed

lemma url_unescape_prefix:
  assumes "list_all (\<lambda>c. host_char c \<and> c \<noteq> CHR ''%'') h"
  shows "url_unescape encodeHost (h @ t) = map_option ((@) h) (url_unescape encodeHost t)"
  using assms
proof (induction h)
  case Nil
  show ?case by (cases "url_unescape encodeHost t") auto
next
  case (Cons c h)
  then show ?case by (cases "url_unescape encodeHost t") auto
qed

lemma parseHost_prefix:
  assumes "list_all dns_char h" and "parseHost (h @ '':'' @ p) = Inr res"
  shows "\<exists>q. res = h @ '':'' @ q"
proof -
  have hd: "hd (h @ '':'' @ p) \<noteq> CHR ''[''"
    using assms(1) dns_char_facts(6) by (cases h) auto
  have "host_char CHR '':''" by code_simp
  moreover have "list_all (\<lambda>c. host_char c \<and> c \<noteq> CHR ''%'') h"
    using assms(1) dns_char_facts(1,2) by (auto simp: list_all_iff)
  ultimately have "list_all (\<lambda>c. host_char c \<and> c \<noteq> CHR ''%'') (h @ '':'')" by simp
  from url_unescape_prefix [OF this, of p]
  have u: "url_unescape encodeHost (h @ '':'' @ p) = map_option ((@) (h @ '':'')) (url_unescape encodeHost p)" by simp
  have "url_unescape encodeHost (h @ '':'' @ p) = Some res"
    using assms(2) hd unfolding parseHost_def by (auto split: if_splits option.splits)
  with u show ?thesis by auto
qed

text \<open>
  The port in a host header cannot redirect a request. For a target whose service and
  namespace are host names, and a host header made of the bytes the HTTP server accepts, a
  target URL that parses names the target's service: its authority starts with
  \<open>service.namespace:\<close> and it has no user part, path or query, whatever stands after the colon
  of the header.
\<close>

theorem target_URL_stays:
  assumes "list_all dns_char (Service tg)" and "list_all dns_char (Namespace tg)"
    and "list_all valid_host_byte host" and "target_URL ServiceURL tg host = Inr u"
  shows "\<exists>p. u = http_url (Service tg @ ''.'' @ Namespace tg @ '':'' @ p)"
proof (cases "Index host CHR '':''")
  case None
  then have "ServiceURL tg = Inr u"
    using assms(4) by (auto simp: target_URL_def simp del: Index_None split: sum.splits)
  moreover have "list_all dns_char (Service tg @ ''.'' @ Namespace tg)" using assms(1,2) by (simp add: dns_char_def)
  from parse_http_port [OF this, of "sint (Port tg)"]
  have "ServiceURL tg \<in> {Inr (http_url (Service tg @ ''.'' @ Namespace tg @ '':'' @ fmt_d (Port tg))),
      Inl (url_error ''invalid port after host'')}"
    by (auto simp: ServiceURL_def fmt_d_def)
  ultimately show ?thesis by auto
next
  case (Some i)
  let ?h = "Service tg @ ''.'' @ Namespace tg"
  have h: "list_all dns_char ?h" using assms(1,2) by (simp add: dns_char_def)
  have "\<forall>c \<in> set (?h @ '':'' @ drop (Suc i) host). c \<noteq> CHR ''@'' \<and> c \<noteq> CHR ''/'' \<and> c \<noteq> CHR ''#'' \<and>
      c \<noteq> CHR ''?'' \<and> \<not> byte c < 32 \<and> byte c \<noteq> 127"
  proof
    fix c
    assume "c \<in> set (?h @ '':'' @ drop (Suc i) host)"
    then consider "dns_char c" | "c = CHR '':''" | "valid_host_byte c"
      using h assms(3) by (auto simp: list_all_iff dest: in_set_dropD)
    then show "c \<noteq> CHR ''@'' \<and> c \<noteq> CHR ''/'' \<and> c \<noteq> CHR ''#'' \<and> c \<noteq> CHR ''?'' \<and> \<not> byte c < 32 \<and> byte c \<noteq> 127"
      by cases (auto simp: dns_char_facts valid_host_bytes byte_def dest: dns_char_facts valid_host_bytes)
  qed
  from parse_http_valid_bytes [OF this] obtain res
    where "parseHost (?h @ '':'' @ drop (Suc i) host) = Inr res" "u = http_url res"
    using assms(4) Some by (auto simp: target_URL_def Let_def split: sum.splits)
  with parseHost_prefix [OF h] show ?thesis by fastforce
qed

theorem target_URL_stays_witness:
  "\<exists>p. target_URL ServiceURL sample_target ''a.com:9090'' = Inr (http_url (''svc'' @ ''.'' @ ''ns'' @ '':'' @ p))"
proof -
  have "list_all dns_char (Service sample_target)" "list_all dns_char (Namespace sample_target)"
    "list_all valid_host_byte ''a.com:9090''"
    "target_URL ServiceURL sample_target ''a.com:9090'' = Inr (http_url ''svc.ns:9090'')"
    by code_simp+
  from target_URL_stays [OF this] this(4) show ?thesis by (simp add: sample_target_def NewTarget_def)
qed

section \<open>The admin server\<close>

text \<open>
  The routes that \<open>runAdminServer\<close> registers, on the state of the counter and the table.
  \<open>deployments\<close> and \<open>configs\<close> are the JSON values of the deployment cache and of the
  configuration structs.
\<close>

type_synonym admin_handler = "Memory \<times> Table \<Rightarrow> ResponseWriter \<Rightarrow> (Memory \<times> Table) \<times> ResponseWriter"

definition stateless :: "rw_handler \<Rightarrow> admin_handler" where
  "stateless h s w = (s, h w)"

definition on_table :: "table_handler \<Rightarrow> admin_handler" where
  "on_table h s w = (case h (snd s) w of (t', w') \<Rightarrow> ((fst s, t'), w'))"

definition counts_of :: "error + Counts \<Rightarrow> Counts \<times> error option" where
  "counts_of c = (case c of Inl e \<Rightarrow> (NewCounts, Some e) | Inr q \<Rightarrow> (q, None))"

definition runAdminServer_mux ::
    "(string \<Rightarrow> error + ConfigMap) \<Rightarrow> json \<Rightarrow> json list \<Rightarrow> admin_handler ServeMux go" where
  "runAdminServer_mux cmGetter deployments configs =
     bind_go (Handle countsPath (\<lambda>s w. (s, newSizeHandler (counts_of (Memory_Current (fst s))) w)) []) (\<lambda>m1.
     bind_go (Handle routingFetchPath (on_table newTableHandler) m1) (\<lambda>m2.
     bind_go (Handle routingPingPath (on_table (ping_handler cmGetter)) m2) (\<lambda>m3.
     bind_go (Handle ''/deployments'' (stateless (\<lambda>w. fst (EncodeTo deployments w))) m3) (\<lambda>m4.
     bind_go (Handle ''/config'' (stateless (encode_or_500 (JObj [(''configs'', JArr configs)]))) m4) (\<lambda>m5.
     Handle ''/version'' (stateless (encode_or_500 (JObj [(''version'', JStr Version)]))) m5)))))"

text \<open>
  The admin server starts and serves its routes. Registering them never panics, and a
  request for \<open>/queue\<close> is answered with the counts of the counter as it is then, one for
  \<open>/routing_table\<close> with the routing table, one for \<open>/routing_ping\<close> by the ping route, which is
  the only one that changes anything.
\<close>

theorem admin_routes:
  "\<exists>mux. runAdminServer_mux cmGetter deployments configs = Ret mux \<and>
     map fst mux = [''/queue'', ''/routing_table'', ''/routing_ping'', ''/deployments'', ''/config'', ''/version''] \<and>
     (\<exists>h. mux_match ''/queue'' mux = Some h \<and>
       h (q, t) NewRecorder = ((q, t), newSizeHandler (\<lparr>Counts_m = Some (countMap q)\<rparr>, None) NewRecorder)) \<and>
     (\<exists>h. mux_match ''/routing_table'' mux = Some h \<and>
       h (q, t) NewRecorder = ((q, t), snd (newTableHandler t NewRecorder))) \<and>
     (\<exists>h. mux_match ''/routing_ping'' mux = Some h \<and>
       h (q, t) NewRecorder = ((q, fst (ping_handler cmGetter t NewRecorder)), snd (ping_handler cmGetter t NewRecorder)))"
proof -
  have "fst (newTableHandler t NewRecorder) = t"
    by (simp add: newTableHandler_def split: prod.split option.split)
  then have "\<exists>w'. newTableHandler t NewRecorder = (t, w')" by (metis prod.collapse)
  then show ?thesis
    by (auto simp: runAdminServer_mux_def Handle_def countsPath_def routingFetchPath_def routingPingPath_def
        mux_match_def on_table_def counts_of_def Memory_Current_def NewCounts_def split: prod.split)
qed

end
