(* ===== verification/Proto.thy ===== *)
theory Proto
  imports Prelude
begin

text \<open>
  The external-scaler protocol of \<open>proto/\<close>: its messages with their nil-safe getters, the client
  stubs, the server interface with the handlers that decode a request and call the server
  (through an interceptor, if one is installed), and the service description. A message pointer
  is an option; the gRPC transport (\<open>Invoke\<close>, streams, the decoder) is a parameter.
\<close>

section \<open>Messages\<close>

record ScaledObjectRef =
  sor_Name :: string
  sor_Namespace :: string
  sor_ScalerMetadata :: "string gomap"

record IsActiveResponse =
  iar_Result :: bool

record MetricSpec =
  ms_MetricName :: string
  ms_TargetSize :: gint

record GetMetricSpecResponse =
  gmsr_MetricSpecs :: "MetricSpec list"

record GetMetricsRequest =
  gmr_ScaledObjectRef :: "ScaledObjectRef option"
  gmr_MetricName :: string

record MetricValue =
  mv_MetricName :: string
  mv_MetricValue :: gint

record GetMetricsResponse =
  gmr_MetricValues :: "MetricValue list"

definition ScaledObjectRef_Reset :: ScaledObjectRef where
  "ScaledObjectRef_Reset = \<lparr>sor_Name = [], sor_Namespace = [], sor_ScalerMetadata = None\<rparr>"

definition IsActiveResponse_Reset :: IsActiveResponse where
  "IsActiveResponse_Reset = \<lparr>iar_Result = False\<rparr>"

definition GetMetricSpecResponse_Reset :: GetMetricSpecResponse where
  "GetMetricSpecResponse_Reset = \<lparr>gmsr_MetricSpecs = []\<rparr>"

definition MetricSpec_Reset :: MetricSpec where
  "MetricSpec_Reset = \<lparr>ms_MetricName = [], ms_TargetSize = 0\<rparr>"

definition GetMetricsRequest_Reset :: GetMetricsRequest where
  "GetMetricsRequest_Reset = \<lparr>gmr_ScaledObjectRef = None, gmr_MetricName = []\<rparr>"

definition GetMetricsResponse_Reset :: GetMetricsResponse where
  "GetMetricsResponse_Reset = \<lparr>gmr_MetricValues = []\<rparr>"

definition MetricValue_Reset :: MetricValue where
  "MetricValue_Reset = \<lparr>mv_MetricName = [], mv_MetricValue = 0\<rparr>"

section \<open>Getters\<close>

definition ScaledObjectRef_GetName :: "ScaledObjectRef option \<Rightarrow> string" where
  "ScaledObjectRef_GetName x = (case x of Some m \<Rightarrow> sor_Name m | None \<Rightarrow> [])"

definition ScaledObjectRef_GetNamespace :: "ScaledObjectRef option \<Rightarrow> string" where
  "ScaledObjectRef_GetNamespace x = (case x of Some m \<Rightarrow> sor_Namespace m | None \<Rightarrow> [])"

definition ScaledObjectRef_GetScalerMetadata :: "ScaledObjectRef option \<Rightarrow> string gomap" where
  "ScaledObjectRef_GetScalerMetadata x = (case x of Some m \<Rightarrow> sor_ScalerMetadata m | None \<Rightarrow> None)"

definition IsActiveResponse_GetResult :: "IsActiveResponse option \<Rightarrow> bool" where
  "IsActiveResponse_GetResult x = (case x of Some m \<Rightarrow> iar_Result m | None \<Rightarrow> False)"

definition GetMetricSpecResponse_GetMetricSpecs :: "GetMetricSpecResponse option \<Rightarrow> MetricSpec list" where
  "GetMetricSpecResponse_GetMetricSpecs x = (case x of Some m \<Rightarrow> gmsr_MetricSpecs m | None \<Rightarrow> [])"

definition MetricSpec_GetMetricName :: "MetricSpec option \<Rightarrow> string" where
  "MetricSpec_GetMetricName x = (case x of Some m \<Rightarrow> ms_MetricName m | None \<Rightarrow> [])"

definition MetricSpec_GetTargetSize :: "MetricSpec option \<Rightarrow> gint" where
  "MetricSpec_GetTargetSize x = (case x of Some m \<Rightarrow> ms_TargetSize m | None \<Rightarrow> 0)"

definition GetMetricsRequest_GetScaledObjectRef :: "GetMetricsRequest option \<Rightarrow> ScaledObjectRef option" where
  "GetMetricsRequest_GetScaledObjectRef x = (case x of Some m \<Rightarrow> gmr_ScaledObjectRef m | None \<Rightarrow> None)"

definition GetMetricsRequest_GetMetricName :: "GetMetricsRequest option \<Rightarrow> string" where
  "GetMetricsRequest_GetMetricName x = (case x of Some m \<Rightarrow> gmr_MetricName m | None \<Rightarrow> [])"

definition GetMetricsResponse_GetMetricValues :: "GetMetricsResponse option \<Rightarrow> MetricValue list" where
  "GetMetricsResponse_GetMetricValues x = (case x of Some m \<Rightarrow> gmr_MetricValues m | None \<Rightarrow> [])"

definition MetricValue_GetMetricName :: "MetricValue option \<Rightarrow> string" where
  "MetricValue_GetMetricName x = (case x of Some m \<Rightarrow> mv_MetricName m | None \<Rightarrow> [])"

definition MetricValue_GetMetricValue :: "MetricValue option \<Rightarrow> gint" where
  "MetricValue_GetMetricValue x = (case x of Some m \<Rightarrow> mv_MetricValue m | None \<Rightarrow> 0)"

section \<open>Client stubs\<close>

text \<open>
  \<open>invoke method in out\<close> is \<open>ClientConnInterface.Invoke\<close>: the filled reply, or an error.
\<close>

definition externalScalerClient_IsActive ::
    "(string \<Rightarrow> ScaledObjectRef \<Rightarrow> IsActiveResponse \<Rightarrow> error + IsActiveResponse) \<Rightarrow> ScaledObjectRef \<Rightarrow>
     error + IsActiveResponse" where
  "externalScalerClient_IsActive invoke r =
     (case invoke ''/externalscaler.ExternalScaler/IsActive'' r IsActiveResponse_Reset of
        Inl err \<Rightarrow> Inl err | Inr out \<Rightarrow> Inr out)"

definition externalScalerClient_GetMetricSpec ::
    "(string \<Rightarrow> ScaledObjectRef \<Rightarrow> GetMetricSpecResponse \<Rightarrow> error + GetMetricSpecResponse) \<Rightarrow> ScaledObjectRef \<Rightarrow>
     error + GetMetricSpecResponse" where
  "externalScalerClient_GetMetricSpec invoke r =
     (case invoke ''/externalscaler.ExternalScaler/GetMetricSpec'' r GetMetricSpecResponse_Reset of
        Inl err \<Rightarrow> Inl err | Inr out \<Rightarrow> Inr out)"

definition externalScalerClient_GetMetrics ::
    "(string \<Rightarrow> GetMetricsRequest \<Rightarrow> GetMetricsResponse \<Rightarrow> error + GetMetricsResponse) \<Rightarrow> GetMetricsRequest \<Rightarrow>
     error + GetMetricsResponse" where
  "externalScalerClient_GetMetrics invoke r =
     (case invoke ''/externalscaler.ExternalScaler/GetMetrics'' r GetMetricsResponse_Reset of
        Inl err \<Rightarrow> Inl err | Inr out \<Rightarrow> Inr out)"

text \<open>
  A stream is opened, the one request sent and the sending side closed; an error of any of the
  three is returned, and the last succeeds with the stream.
\<close>

definition externalScalerClient_StreamIsActive ::
    "(string \<Rightarrow> error + 'st) \<Rightarrow> (ScaledObjectRef \<Rightarrow> 'st \<Rightarrow> 'st \<times> error option) \<Rightarrow> ('st \<Rightarrow> 'st \<times> error option) \<Rightarrow>
     ScaledObjectRef \<Rightarrow> error + 'st" where
  "externalScalerClient_StreamIsActive newStream sendMsg closeSend r =
     (case newStream ''/externalscaler.ExternalScaler/StreamIsActive'' of
        Inl err \<Rightarrow> Inl err
      | Inr stream \<Rightarrow>
          (case sendMsg r stream of
             (_, Some err) \<Rightarrow> Inl err
           | (stream', None) \<Rightarrow>
               (case closeSend stream' of (_, Some err) \<Rightarrow> Inl err | (stream'', None) \<Rightarrow> Inr stream'')))"

definition externalScalerStreamIsActiveClient_Recv ::
    "(IsActiveResponse \<Rightarrow> 'st \<Rightarrow> 'st \<times> (error + IsActiveResponse)) \<Rightarrow> 'st \<Rightarrow> 'st \<times> (error + IsActiveResponse)" where
  "externalScalerStreamIsActiveClient_Recv recvMsg stream =
     (case recvMsg IsActiveResponse_Reset stream of
        (stream', Inl err) \<Rightarrow> (stream', Inl err)
      | (stream', Inr r) \<Rightarrow> (stream', Inr r))"

section \<open>Server\<close>

text \<open>The server's methods; a method may panic. \<open>'st\<close> is the state of a stream.\<close>

record 'st ExternalScalerServer =
  srv_IsActive :: "ScaledObjectRef option \<Rightarrow> (error + IsActiveResponse) go"
  srv_StreamIsActive :: "ScaledObjectRef option \<Rightarrow> 'st \<Rightarrow> ('st \<times> error option) go"
  srv_GetMetricSpec :: "ScaledObjectRef option \<Rightarrow> (error + GetMetricSpecResponse) go"
  srv_GetMetrics :: "GetMetricsRequest option \<Rightarrow> (error + GetMetricsResponse) go"

definition unimplemented_error :: "string \<Rightarrow> error" where
  "unimplemented_error method = External (''rpc error: code = Unimplemented desc = method '' @ method @ '' not implemented'')"

definition UnimplementedExternalScalerServer :: "'st ExternalScalerServer" where
  "UnimplementedExternalScalerServer =
     \<lparr>srv_IsActive = \<lambda>_. Ret (Inl (unimplemented_error ''IsActive'')),
      srv_StreamIsActive = \<lambda>_ st. Ret (st, Some (unimplemented_error ''StreamIsActive'')),
      srv_GetMetricSpec = \<lambda>_. Ret (Inl (unimplemented_error ''GetMetricSpec'')),
      srv_GetMetrics = \<lambda>_. Ret (Inl (unimplemented_error ''GetMetrics''))\<rparr>"

text \<open>
  A unary handler decodes the request, then calls the method itself or hands it, with the full
  method name, to the interceptor that the server has.
\<close>

type_synonym ('r, 'a) unary_interceptor = "'r \<Rightarrow> string \<Rightarrow> ('r \<Rightarrow> (error + 'a) go) \<Rightarrow> (error + 'a) go"

definition unary_handler ::
    "string \<Rightarrow> ('r option \<Rightarrow> (error + 'a) go) \<Rightarrow> 'r \<Rightarrow> ('r \<Rightarrow> error + 'r) \<Rightarrow> ('r, 'a) unary_interceptor option \<Rightarrow>
     (error + 'a) go" where
  "unary_handler fullMethod method new dec interceptor =
     (case dec new of
        Inl err \<Rightarrow> Ret (Inl err)
      | Inr r \<Rightarrow>
          (case interceptor of
             None \<Rightarrow> method (Some r)
           | Some ic \<Rightarrow> ic r fullMethod (\<lambda>req. method (Some req))))"

definition ExternalScaler_IsActive_Handler ::
    "'st ExternalScalerServer \<Rightarrow> (ScaledObjectRef \<Rightarrow> error + ScaledObjectRef) \<Rightarrow>
     (ScaledObjectRef, IsActiveResponse) unary_interceptor option \<Rightarrow> (error + IsActiveResponse) go" where
  "ExternalScaler_IsActive_Handler srv dec interceptor =
     unary_handler ''/externalscaler.ExternalScaler/IsActive'' (srv_IsActive srv) ScaledObjectRef_Reset dec interceptor"

definition ExternalScaler_GetMetricSpec_Handler ::
    "'st ExternalScalerServer \<Rightarrow> (ScaledObjectRef \<Rightarrow> error + ScaledObjectRef) \<Rightarrow>
     (ScaledObjectRef, GetMetricSpecResponse) unary_interceptor option \<Rightarrow> (error + GetMetricSpecResponse) go" where
  "ExternalScaler_GetMetricSpec_Handler srv dec interceptor =
     unary_handler ''/externalscaler.ExternalScaler/GetMetricSpec'' (srv_GetMetricSpec srv) ScaledObjectRef_Reset dec interceptor"

definition ExternalScaler_GetMetrics_Handler ::
    "'st ExternalScalerServer \<Rightarrow> (GetMetricsRequest \<Rightarrow> error + GetMetricsRequest) \<Rightarrow>
     (GetMetricsRequest, GetMetricsResponse) unary_interceptor option \<Rightarrow> (error + GetMetricsResponse) go" where
  "ExternalScaler_GetMetrics_Handler srv dec interceptor =
     unary_handler ''/externalscaler.ExternalScaler/GetMetrics'' (srv_GetMetrics srv) GetMetricsRequest_Reset dec interceptor"

definition ExternalScaler_StreamIsActive_Handler ::
    "'st ExternalScalerServer \<Rightarrow> (ScaledObjectRef \<Rightarrow> 'st \<Rightarrow> 'st \<times> (error + ScaledObjectRef)) \<Rightarrow> 'st \<Rightarrow>
     ('st \<times> error option) go" where
  "ExternalScaler_StreamIsActive_Handler srv recvMsg stream =
     (case recvMsg ScaledObjectRef_Reset stream of
        (stream', Inl err) \<Rightarrow> Ret (stream', Some err)
      | (stream', Inr r) \<Rightarrow> srv_StreamIsActive srv (Some r) stream')"

definition externalScalerStreamIsActiveServer_Send ::
    "(IsActiveResponse \<Rightarrow> 'st \<Rightarrow> 'st \<times> error option) \<Rightarrow> IsActiveResponse \<Rightarrow> 'st \<Rightarrow> 'st \<times> error option" where
  "externalScalerStreamIsActiveServer_Send sendMsg r stream = sendMsg r stream"

record ServiceDesc =
  ServiceName :: string
  MethodNames :: "string list"
  StreamNames :: "string list"

definition ExternalScaler_ServiceDesc :: ServiceDesc where
  "ExternalScaler_ServiceDesc =
     \<lparr>ServiceName = ''externalscaler.ExternalScaler'',
      MethodNames = [''IsActive'', ''GetMetricSpec'', ''GetMetrics''],
      StreamNames = [''StreamIsActive'']\<rparr>"

section \<open>The client reaches the server's method\<close>

text \<open>The path under which gRPC serves a method of a service.\<close>

definition method_path :: "ServiceDesc \<Rightarrow> string \<Rightarrow> string" where
  "method_path d name = ''/'' @ ServiceName d @ ''/'' @ name"

text \<open>
  A connection that serves the methods of the service description: a call under the path of a
  registered method runs the handler on the message sent, and everything else is unimplemented.
  It stands for the transport, whose codec is taken to deliver the message as it was sent.
\<close>

definition connect ::
    "string \<Rightarrow> (('r \<Rightarrow> error + 'r) \<Rightarrow> (error + 'a) go) \<Rightarrow> string \<Rightarrow> 'r \<Rightarrow> 'a \<Rightarrow> error + 'a" where
  "connect name handler path r out =
     (if name \<in> set (MethodNames ExternalScaler_ServiceDesc) \<and> path = method_path ExternalScaler_ServiceDesc name
      then (case handler (\<lambda>_. Inr r) of Ret res \<Rightarrow> res | Panic msg \<Rightarrow> Inl (External msg))
      else Inl (unimplemented_error path))"

lemma connect_unary:
  assumes "name \<in> set (MethodNames ExternalScaler_ServiceDesc)" and "path = method_path ExternalScaler_ServiceDesc name"
    and "ic \<in> {None, Some (\<lambda>r m h. h r)}"
  shows "connect name (\<lambda>dec. unary_handler path method new dec ic) path r out =
    (case method (Some r) of Ret res \<Rightarrow> res | Panic msg \<Rightarrow> Inl (External msg))"
  using assms by (auto simp: connect_def unary_handler_def)

lemma sum_eta: "(case x of Inl e \<Rightarrow> Inl e | Inr y \<Rightarrow> Inr y) = x"
  by (cases x) auto

text \<open>
  The stubs and the handlers agree. Over a connection that serves the service description, a
  call of each client stub returns exactly what the server's method of that name returns on the
  message that was sent (a panic of the method shows as an error), with no interceptor installed
  or with one that only calls the method.
\<close>

theorem client_reaches_server:
  assumes "ic1 \<in> {None, Some (\<lambda>r m h. h r)}" and "ic2 \<in> {None, Some (\<lambda>r m h. h r)}" and "ic3 \<in> {None, Some (\<lambda>r m h. h r)}"
  shows "externalScalerClient_IsActive (connect ''IsActive'' (\<lambda>dec. ExternalScaler_IsActive_Handler srv dec ic1)) sor =
      (case srv_IsActive srv (Some sor) of Ret res \<Rightarrow> res | Panic msg \<Rightarrow> Inl (External msg)) \<and>
    externalScalerClient_GetMetricSpec (connect ''GetMetricSpec'' (\<lambda>dec. ExternalScaler_GetMetricSpec_Handler srv dec ic2)) sor =
      (case srv_GetMetricSpec srv (Some sor) of Ret res \<Rightarrow> res | Panic msg \<Rightarrow> Inl (External msg)) \<and>
    externalScalerClient_GetMetrics (connect ''GetMetrics'' (\<lambda>dec. ExternalScaler_GetMetrics_Handler srv dec ic3)) req =
      (case srv_GetMetrics srv (Some req) of Ret res \<Rightarrow> res | Panic msg \<Rightarrow> Inl (External msg))"
proof -
  have "''IsActive'' \<in> set (MethodNames ExternalScaler_ServiceDesc)"
    "''GetMetricSpec'' \<in> set (MethodNames ExternalScaler_ServiceDesc)"
    "''GetMetrics'' \<in> set (MethodNames ExternalScaler_ServiceDesc)"
    "''/externalscaler.ExternalScaler/IsActive'' = method_path ExternalScaler_ServiceDesc ''IsActive''"
    "''/externalscaler.ExternalScaler/GetMetricSpec'' = method_path ExternalScaler_ServiceDesc ''GetMetricSpec''"
    "''/externalscaler.ExternalScaler/GetMetrics'' = method_path ExternalScaler_ServiceDesc ''GetMetrics''"
    by (simp_all add: ExternalScaler_ServiceDesc_def method_path_def)
  note conn = connect_unary [OF this(1,4) assms(1)] connect_unary [OF this(2,5) assms(2)]
    connect_unary [OF this(3,6) assms(3)]
  show ?thesis
    unfolding externalScalerClient_IsActive_def externalScalerClient_GetMetricSpec_def
      externalScalerClient_GetMetrics_def ExternalScaler_IsActive_Handler_def
      ExternalScaler_GetMetricSpec_Handler_def ExternalScaler_GetMetrics_Handler_def conn sum_eta
    by (intro conjI refl)
qed

theorem client_reaches_server_witness:
  "externalScalerClient_IsActive
     (connect ''IsActive'' (\<lambda>dec. ExternalScaler_IsActive_Handler (UnimplementedExternalScalerServer :: unit ExternalScalerServer) dec None))
     ScaledObjectRef_Reset = Inl (unimplemented_error ''IsActive'')"
proof -
  have "srv_IsActive (UnimplementedExternalScalerServer :: unit ExternalScalerServer) (Some ScaledObjectRef_Reset) =
      Ret (Inl (unimplemented_error ''IsActive''))"
    by (simp add: UnimplementedExternalScalerServer_def)
  with conjunct1 [OF client_reaches_server [of None None None "UnimplementedExternalScalerServer :: unit ExternalScalerServer"
      ScaledObjectRef_Reset GetMetricsRequest_Reset]]
  show ?thesis by simp
qed

end
