(* ===== verification/Scaler.thy ===== *)
theory Scaler
  imports Routing Net Proto
begin

text \<open>
  The external scaler: the pinger that collects the counts of all interceptors, and the gRPC
  handlers that answer KEDA from them and the routing table, with the admin routes. Collecting
  is modelled twice: as the loops that add up the answers, and as the goroutines and channels
  that bring the answers together, a step relation. The HTTP client, the endpoints function and
  the clock are parameters.
\<close>

section \<open>Fetching the counts\<close>

text \<open>The loop over one endpoint's map, on its entries in some order.\<close>

fun add_counts :: "(string \<times> gint) list \<Rightarrow> gint smap \<times> gint \<Rightarrow> gint smap \<times> gint" where
  "add_counts [] (totalCounts, agg) = (totalCounts, agg)"
| "add_counts ((host, val) # es) (totalCounts, agg) =
     add_counts es (fmupd host (count_of totalCounts host + val) totalCounts, agg + val)"

text \<open>The loop over \<open>countsCh\<close>, on the answers in the order in which they arrive.\<close>

definition collect_counts :: "Counts list \<Rightarrow> gint smap \<times> gint" where
  "collect_counts cs = foldl (\<lambda>acc c. add_counts (entries (Counts_m c)) acc) (fmempty, 0) cs"

text \<open>\<open>errgroup.Wait\<close> fails if one of the requests failed.\<close>

definition fetch_results :: "(error + Counts) list \<Rightarrow> error + gint smap \<times> gint" where
  "fetch_results rs =
     (case List.find isl rs of
        Some (Inl err) \<Rightarrow> Inl err
      | _ \<Rightarrow> Inr (collect_counts (map projr rs)))"

definition fetchCounts ::
    "(string \<Rightarrow> error + string) \<Rightarrow> GetEndpointsFunc \<Rightarrow> string \<Rightarrow> string \<Rightarrow> string \<Rightarrow> error + gint smap \<times> gint" where
  "fetchCounts get endpointsFn ns svcName port =
     (case EndpointsForService ns svcName port endpointsFn of
        Inl err \<Rightarrow> Inl err
      | Inr endpointURLs \<Rightarrow> fetch_results (map (GetCounts get) endpointURLs))"

section \<open>The pinger\<close>

record queuePinger =
  getEndpointsFn :: GetEndpointsFunc
  interceptorNS :: string
  interceptorSvcName :: string
  interceptorDeplName :: string
  adminPort :: string
  lastPingTime :: gotime
  allCounts :: "gint smap"
  aggregateCount :: gint

definition fetchAndSaveCounts ::
    "(string \<Rightarrow> error + string) \<Rightarrow> gotime \<Rightarrow> queuePinger \<Rightarrow> queuePinger \<times> error option" where
  "fetchAndSaveCounts get now q =
     (case fetchCounts get (getEndpointsFn q) (interceptorNS q) (interceptorSvcName q) (adminPort q) of
        Inl err \<Rightarrow> (q, Some err)
      | Inr (counts, agg) \<Rightarrow> (q\<lparr>allCounts := counts, aggregateCount := agg, lastPingTime := now\<rparr>, None))"

definition newQueuePinger ::
    "(string \<Rightarrow> error + string) \<Rightarrow> gotime \<Rightarrow> GetEndpointsFunc \<Rightarrow> string \<Rightarrow> string \<Rightarrow> string \<Rightarrow> string \<Rightarrow>
     queuePinger \<times> error option" where
  "newQueuePinger get now epFn ns svcName deplName port =
     fetchAndSaveCounts get now
       \<lparr>getEndpointsFn = epFn, interceptorNS = ns, interceptorSvcName = svcName,
        interceptorDeplName = deplName, adminPort = port, lastPingTime = 0,
        allCounts = fmempty, aggregateCount = 0\<rparr>"

text \<open>
  What the \<open>select\<close> of the loop receives: the end of the context, a tick, or an event of the
  interceptor deployment, the latter two with the network and the clock as they are then. The
  last component of the result is \<open>None\<close> while the loop runs on.
\<close>

datatype ping_event =
    PingDone "error option"
  | Tick "string \<Rightarrow> error + string" gotime
  | DeployEvt "string \<Rightarrow> error + string" gotime

fun pinger_loop :: "ping_event list \<Rightarrow> queuePinger \<Rightarrow> queuePinger \<times> error option option" where
  "pinger_loop [] q = (q, None)"
| "pinger_loop (PingDone ctxErr # evs) q =
     (q, Some (wrap ctxErr ''context marked done. stopping queuePinger loop''))"
| "pinger_loop (Tick get now # evs) q =
     (case fetchAndSaveCounts get now q of
        (q', Some err) \<Rightarrow> (q', Some (Some (Wrap err ''error getting request counts'')))
      | (q', None) \<Rightarrow> pinger_loop evs q')"
| "pinger_loop (DeployEvt get now # evs) q = pinger_loop evs (fst (fetchAndSaveCounts get now q))"

definition queuePinger_start ::
    "error option \<Rightarrow> ping_event list \<Rightarrow> queuePinger \<Rightarrow> queuePinger \<times> error option option" where
  "queuePinger_start watchErr evs q =
     (case watchErr of Some err \<Rightarrow> (q, Some (Some err)) | None \<Rightarrow> pinger_loop evs q)"

definition queuePinger_counts :: "queuePinger \<Rightarrow> gint smap" where
  "queuePinger_counts q = allCounts q"

definition mergeCountsWithRoutingTable :: "'t TableReader \<Rightarrow> 't \<Rightarrow> queuePinger \<Rightarrow> gint smap" where
  "mergeCountsWithRoutingTable R table q =
     foldl (\<lambda>mc (k, v). fmupd k v mc)
       (foldl (\<lambda>mc host. fmupd host 0 mc) fmempty (tr_Hosts R table))
       (sorted_list_of_fmap (allCounts q))"

definition queuePinger_aggregate :: "queuePinger \<Rightarrow> gint" where
  "queuePinger_aggregate q = aggregateCount q"

section \<open>The handlers\<close>

definition interceptor_host :: string where
  "interceptor_host = ''interceptor''"

definition httpRequests :: string where
  "httpRequests = ''http-requests''"

record 't impl =
  pinger :: queuePinger
  reader :: "'t TableReader"
  routingTable :: 't
  targetMetric :: gint
  targetMetricInterceptor :: gint

definition newImpl :: "queuePinger \<Rightarrow> 't TableReader \<Rightarrow> 't \<Rightarrow> gint \<Rightarrow> gint \<Rightarrow> 't impl" where
  "newImpl p R t d di =
     \<lparr>pinger = p, reader = R, routingTable = t, targetMetric = d, targetMetricInterceptor = di\<rparr>"

definition impl_Ping :: "'t impl \<Rightarrow> unit \<Rightarrow> error + unit" where
  "impl_Ping e req = Inr ()"

definition getHostCount :: "string \<Rightarrow> gint smap \<Rightarrow> 't TableReader \<Rightarrow> 't \<Rightarrow> gint \<times> bool" where
  "getHostCount host counts R table =
     (case fmlookup counts host of
        Some n \<Rightarrow> (n, True)
      | None \<Rightarrow> (0, tr_HasHost R table host))"

text \<open>A nil message panics when its field is read; a nil map has no entries.\<close>

definition getHostsFromScaledObjectRef :: "ScaledObjectRef option \<Rightarrow> (error + string list) go" where
  "getHostsFromScaledObjectRef sor =
     (case sor of
        None \<Rightarrow> Panic ''invalid memory address or nil pointer dereference''
      | Some r \<Rightarrow>
          (case map_get (sor_ScalerMetadata r) ''hosts'' of
             None \<Rightarrow> Ret (Inl (Errorf (''no '' @ [CHR 0x27] @ ''hosts'' @ [CHR 0x27] @ '' field in the scaler metadata field'')))
           | Some serializedHosts \<Rightarrow> Ret (Inr (Split serializedHosts CHR '',''))))"

definition not_in_counts :: "string \<Rightarrow> error" where
  "not_in_counts host = Errorf (''host '' @ [CHR 0x27] @ host @ [CHR 0x27] @ '' not found in counts'')"

fun isActive_loop :: "'t impl \<Rightarrow> string list \<Rightarrow> gint \<Rightarrow> error + IsActiveResponse" where
  "isActive_loop e [] totalHostCount = Inr \<lparr>iar_Result = (0 <s totalHostCount)\<rparr>"
| "isActive_loop e (host # hosts) totalHostCount =
     (if host = interceptor_host then Inr \<lparr>iar_Result = True\<rparr>
      else
        (case getHostCount host (queuePinger_counts (pinger e)) (reader e) (routingTable e) of
           (hostCount, ok) \<Rightarrow>
             if \<not> ok then Inl (not_in_counts host)
             else isActive_loop e hosts (totalHostCount + hostCount)))"

definition impl_IsActive :: "'t impl \<Rightarrow> ScaledObjectRef option \<Rightarrow> (error + IsActiveResponse) go" where
  "impl_IsActive e scaledObject =
     bind_go (getHostsFromScaledObjectRef scaledObject) (\<lambda>h.
       (case h of Inl err \<Rightarrow> Ret (Inl err) | Inr hosts \<Rightarrow> Ret (isActive_loop e hosts 0)))"

text \<open>
  The stream: what each \<open>select\<close> receives, a tick with the scaler's state then and the result
  of the send. The result has what was sent and how the call returned.
\<close>

datatype 't stream_event = StreamDone | StreamTick "'t impl" "error option"

fun stream_loop :: "'t stream_event list \<Rightarrow> ScaledObjectRef option \<Rightarrow> (IsActiveResponse list \<times> error option option) go" where
  "stream_loop [] sor = Ret ([], None)"
| "stream_loop (StreamDone # evs) sor = Ret ([], Some None)"
| "stream_loop (StreamTick e sendErr # evs) sor =
     bind_go (impl_IsActive e sor) (\<lambda>res.
       (case res of
          Inl err \<Rightarrow> Ret ([], Some (Some err))
        | Inr active \<Rightarrow>
            (case sendErr of
               Some err \<Rightarrow> Ret ([], Some (Some err))
             | None \<Rightarrow> bind_go (stream_loop evs sor) (\<lambda>(sent, r). Ret (\<lparr>iar_Result = iar_Result active\<rparr> # sent, r)))))"

definition impl_StreamIsActive ::
    "'t stream_event list \<Rightarrow> ScaledObjectRef option \<Rightarrow> (IsActiveResponse list \<times> error option option) go" where
  "impl_StreamIsActive evs sor = stream_loop evs sor"

definition impl_GetMetricSpec :: "'t impl \<Rightarrow> ScaledObjectRef option \<Rightarrow> (error + GetMetricSpecResponse) go" where
  "impl_GetMetricSpec e sor =
     bind_go (getHostsFromScaledObjectRef sor) (\<lambda>h.
       (case h of
          Inl err \<Rightarrow> Ret (Inl err)
        | Inr [] \<Rightarrow> Panic ''index out of range [0] with length 0''
        | Inr (host # _) \<Rightarrow>
            if host = interceptor_host then
              Ret (Inr \<lparr>gmsr_MetricSpecs = [\<lparr>ms_MetricName = host, ms_TargetSize = targetMetricInterceptor e\<rparr>]\<rparr>)
            else
              (case tr_Lookup (reader e) (routingTable e) host of
                 Inl err \<Rightarrow> Ret (Inl err)
               | Inr target \<Rightarrow>
                   Ret (Inr \<lparr>gmsr_MetricSpecs = [\<lparr>ms_MetricName = httpRequests,
                     ms_TargetSize = scast (TargetPendingRequests target)\<rparr>]\<rparr>))))"

fun metrics_loop :: "'t impl \<Rightarrow> string list \<Rightarrow> gint \<Rightarrow> string \<Rightarrow> error + gint \<times> string" where
  "metrics_loop e [] totalCount metricName = Inr (totalCount, metricName)"
| "metrics_loop e (host # hosts) totalCount metricName =
     (case getHostCount host (queuePinger_counts (pinger e)) (reader e) (routingTable e) of
        (hostCount, ok) \<Rightarrow>
          if ok then metrics_loop e hosts (totalCount + hostCount) metricName
          else if host \<noteq> interceptor_host then Inl (not_in_counts host)
          else metrics_loop e hosts (totalCount + queuePinger_aggregate (pinger e)) interceptor_host)"

definition impl_GetMetrics :: "'t impl \<Rightarrow> GetMetricsRequest option \<Rightarrow> (error + GetMetricsResponse) go" where
  "impl_GetMetrics e metricRequest =
     (case metricRequest of
        None \<Rightarrow> Panic ''invalid memory address or nil pointer dereference''
      | Some req \<Rightarrow>
          bind_go (getHostsFromScaledObjectRef (gmr_ScaledObjectRef req)) (\<lambda>h.
            (case h of
               Inl err \<Rightarrow> Ret (Inl err)
             | Inr hosts \<Rightarrow>
                 (case metrics_loop e hosts 0 httpRequests of
                    Inl err \<Rightarrow> Ret (Inl err)
                  | Inr (totalCount, metricName) \<Rightarrow>
                      Ret (Inr \<lparr>gmr_MetricValues =
                        [\<lparr>mv_MetricName = metricName, mv_MetricValue = totalCount\<rparr>]\<rparr>)))))"

section \<open>Admin routes\<close>

type_synonym pinger_handler = "queuePinger \<Rightarrow> ResponseWriter \<Rightarrow> queuePinger \<times> ResponseWriter"

definition healthz_handler :: pinger_handler where
  "healthz_handler q w = (q, WriteHeader 200 w)"

definition queue_handler :: pinger_handler where
  "queue_handler q w =
     (q, (case EncodeTo (encode_map json_int (Some (queuePinger_counts q))) w of
            (w', None) \<Rightarrow> w' | (w', Some err) \<Rightarrow> WriteHeader 500 w'))"

definition queue_ping_handler :: "(string \<Rightarrow> error + string) \<Rightarrow> gotime \<Rightarrow> pinger_handler" where
  "queue_ping_handler get now q w =
     (case fetchAndSaveCounts get now q of
        (q', Some err) \<Rightarrow> (q', fst (Write ''error requesting counts from interceptors'' (WriteHeader 500 w)))
      | (q', None) \<Rightarrow>
          (q', (case EncodeTo (encode_map json_int (Some (queuePinger_counts q'))) w of
                  (w', None) \<Rightarrow> w'
                | (w', Some err) \<Rightarrow> fst (Write ''error writing counts data to caller'' (WriteHeader 500 w')))))"

definition startAdminServer_mux ::
    "(string \<Rightarrow> error + string) \<Rightarrow> gotime \<Rightarrow> json \<Rightarrow> pinger_handler ServeMux go" where
  "startAdminServer_mux get now cfg =
     bind_go (Handle ''/healthz'' healthz_handler []) (\<lambda>m1.
     bind_go (Handle ''/livez'' healthz_handler m1) (\<lambda>m2.
     bind_go (Handle ''/queue'' queue_handler m2) (\<lambda>m3.
     bind_go (Handle ''/queue_ping'' (queue_ping_handler get now) m3) (\<lambda>m4.
     bind_go (Handle ''/config'' (\<lambda>q w. (q, encode_or_500 (JObj [(''configs'', JArr [cfg])]) w)) m4) (\<lambda>m5.
     Handle ''/version'' (\<lambda>q w. (q, encode_or_500 (JObj [(''version'', JStr Version)]) w)) m5)))))"

section \<open>Configuration and the fake pinger\<close>

record scaler_config =
  GRPCPort :: gint
  HealthPort :: gint
  TargetNamespace :: string
  TargetService :: string
  TargetDeployment :: string
  TargetPort :: gint
  cfg_TargetPendingRequests :: gint
  cfg_ConfigMapCacheRsyncPeriod :: gint
  DeploymentCacheRsyncPeriod :: gint
  QueueTickDuration :: gint
  TargetPendingRequestsInterceptor :: gint

record fakeQueuePingerOpts =
  opt_endpoints :: Endpoints
  opt_tickDur :: gint
  opt_port :: string

definition newFakeQueuePinger ::
    "(string \<Rightarrow> error + string) \<Rightarrow> gotime \<Rightarrow> (fakeQueuePingerOpts \<Rightarrow> fakeQueuePingerOpts) list \<Rightarrow>
     (error + gint \<times> queuePinger) go" where
  "newFakeQueuePinger get now optsFuncs =
     (let opts = foldl (\<lambda>o1 f. f o1)
        \<lparr>opt_endpoints = \<lparr>ep_Namespace = [], ep_Name = [], Subsets = []\<rparr>, opt_tickDur = second, opt_port = ''8080''\<rparr>
        optsFuncs in
      if opt_tickDur opts \<le>s 0 then Panic ''non-positive interval for NewTicker''
      else
        case newQueuePinger get now (\<lambda>_ _. Inr (opt_endpoints opts)) ''testns'' ''testsvc'' ''testdepl'' (opt_port opts) of
        (p, Some err) \<Rightarrow> Ret (Inl err)
      | (p, None) \<Rightarrow> Ret (Inr (opt_tickDur opts, p)))"

section \<open>The goroutines of \<open>fetchCounts\<close>\<close>

text \<open>
  Per endpoint, the fetching goroutine of the error group, which hands its counts over the private
  channel, and the forwarding goroutine, which hands them on to \<open>countsCh\<close>; one goroutine that
  closes \<open>countsCh\<close> when all forwarders are done; and the caller, which waits for the group and then
  ranges over the channel. Channels are unbuffered, so a send and its receive are one step. The
  group keeps the first error and cancels the context, after which a request may fail for that
  reason instead.
\<close>

datatype fetcher = Fetching | Sending Counts | FetchOk | FetchErr error

datatype forwarder = Waiting | Forwarding Counts | ForwardDone

datatype fetch_caller = GrpWait | Collecting "gint smap \<times> gint" | Returned "error + gint smap \<times> gint"

record fetch_state =
  fetchers :: "fetcher list"
  forwarders :: "forwarder list"
  group_err :: "error option"
  ch_closed :: bool
  caller :: fetch_caller

definition fetch_init :: "nat \<Rightarrow> fetch_state" where
  "fetch_init n = \<lparr>fetchers = replicate n Fetching, forwarders = replicate n Waiting, group_err = None,
     ch_closed = False, caller = GrpWait\<rparr>"

definition fetch_finished :: "fetch_state \<Rightarrow> bool" where
  "fetch_finished s = list_all (\<lambda>f. case f of FetchOk \<Rightarrow> True | FetchErr _ \<Rightarrow> True | _ \<Rightarrow> False) (fetchers s)"

definition first_err :: "error \<Rightarrow> error option \<Rightarrow> error option" where
  "first_err e g = (case g of None \<Rightarrow> Some e | Some _ \<Rightarrow> g)"

inductive fetch_step :: "(error + Counts) list \<Rightarrow> fetch_state \<Rightarrow> fetch_state \<Rightarrow> bool" for rs where
  fetch_ok: "i < length rs \<Longrightarrow> fetchers s ! i = Fetching \<Longrightarrow> rs ! i = Inr c \<Longrightarrow>
    fetch_step rs s (s\<lparr>fetchers := (fetchers s)[i := Sending c]\<rparr>)"
| fetch_err: "i < length rs \<Longrightarrow> fetchers s ! i = Fetching \<Longrightarrow> rs ! i = Inl e \<Longrightarrow>
    fetch_step rs s (s\<lparr>fetchers := (fetchers s)[i := FetchErr e], group_err := first_err e (group_err s)\<rparr>)"
| fetch_cancelled: "i < length rs \<Longrightarrow> fetchers s ! i = Fetching \<Longrightarrow> group_err s \<noteq> None \<Longrightarrow>
    fetch_step rs s (s\<lparr>fetchers := (fetchers s)[i := FetchErr ContextCanceled]\<rparr>)"
| hand_over: "i < length rs \<Longrightarrow> fetchers s ! i = Sending c \<Longrightarrow> forwarders s ! i = Waiting \<Longrightarrow>
    fetch_step rs s (s\<lparr>fetchers := (fetchers s)[i := FetchOk], forwarders := (forwarders s)[i := Forwarding c]\<rparr>)"
| wait_err: "caller s = GrpWait \<Longrightarrow> fetch_finished s \<Longrightarrow> group_err s = Some e \<Longrightarrow>
    fetch_step rs s (s\<lparr>caller := Returned (Inl e)\<rparr>)"
| wait_ok: "caller s = GrpWait \<Longrightarrow> fetch_finished s \<Longrightarrow> group_err s = None \<Longrightarrow>
    fetch_step rs s (s\<lparr>caller := Collecting (fmempty, 0)\<rparr>)"
| receive: "i < length rs \<Longrightarrow> caller s = Collecting acc \<Longrightarrow> forwarders s ! i = Forwarding c \<Longrightarrow>
    mset es = mset (entries (Counts_m c)) \<Longrightarrow>
    fetch_step rs s (s\<lparr>forwarders := (forwarders s)[i := ForwardDone], caller := Collecting (add_counts es acc)\<rparr>)"
| close_ch: "list_all (\<lambda>f. f = ForwardDone) (forwarders s) \<Longrightarrow> \<not> ch_closed s \<Longrightarrow>
    fetch_step rs s (s\<lparr>ch_closed := True\<rparr>)"
| range_end: "caller s = Collecting acc \<Longrightarrow> ch_closed s \<Longrightarrow>
    fetch_step rs s (s\<lparr>caller := Returned (Inr acc)\<rparr>)"

text \<open>The states after a number of steps.\<close>

inductive fetch_run :: "(error + Counts) list \<Rightarrow> nat \<Rightarrow> fetch_state \<Rightarrow> bool" for rs where
  run_init: "fetch_run rs 0 (fetch_init (length rs))"
| run_step: "fetch_run rs k s \<Longrightarrow> fetch_step rs s s' \<Longrightarrow> fetch_run rs (Suc k) s'"

section \<open>Adding up counts\<close>

definition sum_for :: "string \<Rightarrow> (string \<times> gint) list \<Rightarrow> gint" where
  "sum_for h es = (\<Sum>(k, v) \<leftarrow> es. if k = h then v else 0)"

definition sum_all :: "(string \<times> gint) list \<Rightarrow> gint" where
  "sum_all es = (\<Sum>(k, v) \<leftarrow> es. v)"

lemma sum_all_Cons [simp]: "sum_all ((k, v) # es) = v + sum_all es" "sum_all [] = 0"
  by (simp_all add: sum_all_def)

lemma count_of_add_counts [simp]: "count_of (fst (add_counts es acc)) h = count_of (fst acc) h + sum_for h es"
  by (induction es acc rule: add_counts.induct) (auto simp: sum_for_def)

lemma snd_add_counts [simp]: "snd (add_counts es acc) = snd acc + sum_all es"
  by (induction es acc rule: add_counts.induct) (auto simp: sum_all_def)

lemma fmdom_add_counts: "fmdom' (fst (add_counts es acc)) = fmdom' (fst acc) \<union> fst ` set es"
  by (induction es acc rule: add_counts.induct) auto

lemma fmap_eq_count_of:
  assumes "fmdom' m = fmdom' m'" "\<And>h. count_of m h = count_of m' h"
  shows "m = m'"
proof (rule fmap_ext)
  fix h
  have "(fmlookup m h = None) = (fmlookup m' h = None)"
    using assms(1) by (metis fmdom'_notD fmdom'_notI)
  then show "fmlookup m h = fmlookup m' h"
    using assms(2) [of h] by (auto simp: count_of_def split: option.splits)
qed

lemma sum_mset_list:
  fixes f :: "'a \<Rightarrow> 'b::comm_monoid_add"
  assumes "mset xs = mset ys"
  shows "sum_list (map f xs) = sum_list (map f ys)"
  by (metis assms mset_map sum_mset_sum_list)

lemma add_counts_mset:
  assumes "mset es = mset es'"
  shows "add_counts es acc = add_counts es' acc"
proof (rule prod_eqI)
  have "fst ` set es = fst ` set es'"
    using assms by (metis set_mset_mset)
  then show "fst (add_counts es acc) = fst (add_counts es' acc)"
    by (intro fmap_eq_count_of)
      (simp_all add: fmdom_add_counts sum_for_def sum_mset_list [OF assms])
  show "snd (add_counts es acc) = snd (add_counts es' acc)"
    by (simp add: sum_all_def sum_mset_list [OF assms])
qed

lemma add_counts_append: "add_counts (xs @ ys) acc = add_counts ys (add_counts xs acc)"
  by (induction xs acc rule: add_counts.induct) auto

definition count_entries :: "Counts list \<Rightarrow> (string \<times> gint) list" where
  "count_entries cs = concat (map (\<lambda>c. entries (Counts_m c)) cs)"

lemma collect_counts_fold:
  "foldl (\<lambda>acc c. add_counts (entries (Counts_m c)) acc) acc cs = add_counts (count_entries cs) acc"
  by (induction cs arbitrary: acc) (auto simp: count_entries_def add_counts_append)

lemma collect_counts_entries: "collect_counts cs = add_counts (count_entries cs) (fmempty, 0)"
  by (simp add: collect_counts_def collect_counts_fold)

definition count_in :: "Counts \<Rightarrow> string \<Rightarrow> gint" where
  "count_in c h = (case map_get (Counts_m c) h of None \<Rightarrow> 0 | Some v \<Rightarrow> v)"

lemma sum_for_distinct:
  "distinct (map fst es) \<Longrightarrow> sum_for h es = (case map_of es h of None \<Rightarrow> 0 | Some v \<Rightarrow> v)"
proof (induction es)
  case (Cons e es)
  have "sum_for (fst e) es = 0"
    using Cons.prems by (induction es) (auto simp: sum_for_def)
  with Cons show ?case
    by (cases e) (auto simp: sum_for_def)
qed (simp add: sum_for_def)

lemma sum_for_entries: "sum_for h (entries (Counts_m c)) = count_in c h"
proof (cases "Counts_m c")
  case (Some f)
  then show ?thesis
    using enumerates_sorted [of f] by (simp add: count_in_def sum_for_distinct enumerates_def)
qed (simp add: count_in_def sum_for_def)

lemma sum_for_append [simp]: "sum_for h (xs @ ys) = sum_for h xs + sum_for h ys"
  by (simp add: sum_for_def)

lemma sum_for_count_entries: "sum_for h (count_entries cs) = (\<Sum>c \<leftarrow> cs. count_in c h)"
  by (induction cs) (auto simp: count_entries_def sum_for_entries, simp add: sum_for_def)

lemma sum_all_count_entries: "sum_all (count_entries cs) = (\<Sum>c \<leftarrow> cs. Counts_Aggregate c)"
  by (induction cs)
    (auto simp: count_entries_def sum_all_def Counts_Aggregate_def aggregate_loop_sum)

lemma fmdom_collect_counts:
  "h \<in> fmdom' (fst (collect_counts cs)) \<longleftrightarrow> (\<exists>c \<in> set cs. map_get (Counts_m c) h \<noteq> None)"
proof -
  have "h \<in> fst ` set (entries (Counts_m c)) \<longleftrightarrow> map_get (Counts_m c) h \<noteq> None" for c :: Counts
  proof (cases "Counts_m c")
    case (Some f)
    have "h \<in> fst ` set (sorted_list_of_fmap f) \<longleftrightarrow> h \<in> set (map fst (sorted_list_of_fmap f))"
      by simp
    also have "\<dots> \<longleftrightarrow> fmlookup f h \<noteq> None"
      unfolding fst_sorted_list_of_fmap by (simp add: sorted_list_of_fset.rep_eq fmlookup_dom_iff)
    finally show ?thesis using Some by simp
  qed simp
  then show ?thesis
    by (simp add: collect_counts_entries fmdom_add_counts count_entries_def image_UN)
qed

lemma fmap_sum_all: "sum_all (sorted_list_of_fmap m) = (\<Sum>h \<in> fmdom' m. count_of m h)"
proof -
  have "sum_all (sorted_list_of_fmap m) = (\<Sum>h \<leftarrow> sorted_list_of_fset (fmdom m). count_of m h)"
    by (auto simp: sum_all_def sorted_list_of_fmap_def count_of_def comp_def fmlookup_dom_iff
        intro!: arg_cong [of _ _ sum_list])
  also have "\<dots> = (\<Sum>h \<in> fmdom' m. count_of m h)"
    by (subst sum_list_distinct_conv_sum_set) (simp_all add: sorted_list_of_fset.rep_eq fmdom'_alt_def)
  finally show ?thesis .
qed

lemma sum_all_fmupd: "sum_all (sorted_list_of_fmap (fmupd h (count_of m h + v) m)) = sum_all (sorted_list_of_fmap m) + v"
proof -
  have fin: "finite (fmdom' m)" by simp
  have "(\<Sum>k \<in> insert h (fmdom' m). count_of (fmupd h (count_of m h + v) m) k) =
      count_of m h + v + (\<Sum>k \<in> fmdom' m - {h}. count_of m k)"
    by (subst sum.insert_remove [OF fin]) (auto intro!: sum.cong)
  moreover have "(\<Sum>k \<in> fmdom' m. count_of m k) = count_of m h + (\<Sum>k \<in> fmdom' m - {h}. count_of m k)"
  proof (cases "h \<in> fmdom' m")
    case True
    then show ?thesis by (simp add: sum.remove [OF fin])
  next
    case False
    then have "count_of m h = 0" by (simp add: count_of_def fmdom'_notD)
    with False show ?thesis by simp
  qed
  ultimately show ?thesis
    by (simp add: fmap_sum_all)
qed

lemma add_counts_total:
  "sum_all (sorted_list_of_fmap (fst (add_counts es acc))) =
     sum_all (sorted_list_of_fmap (fst acc)) + sum_all es"
  by (induction es acc rule: add_counts.induct)
    (simp_all add: sum_all_fmupd)

section \<open>Runs of the goroutines\<close>

definition done_entries :: "(error + Counts) list \<Rightarrow> forwarder list \<Rightarrow> (string \<times> gint) multiset" where
  "done_entries rs fw =
     (\<Sum>i < length rs. if fw ! i = ForwardDone then mset (entries (Counts_m (projr (rs ! i)))) else {#})"

text \<open>What the two goroutines of an endpoint may be in together, given its answer.\<close>

fun pair_ok :: "error + Counts \<Rightarrow> fetcher \<Rightarrow> forwarder \<Rightarrow> bool" where
  "pair_ok r Fetching w = (w = Waiting)"
| "pair_ok r (Sending c) w = (r = Inr c \<and> w = Waiting)"
| "pair_ok r (FetchErr e) w = (w = Waiting)"
| "pair_ok r FetchOk w = (\<exists>c. r = Inr c \<and> (w = Forwarding c \<or> w = ForwardDone))"

definition caller_ok :: "(error + Counts) list \<Rightarrow> fetch_state \<Rightarrow> bool" where
  "caller_ok rs s =
     (case caller s of
        GrpWait \<Rightarrow> \<forall>i < length rs. forwarders s ! i \<noteq> ForwardDone
      | Collecting acc \<Rightarrow> (\<forall>i < length rs. fetchers s ! i = FetchOk) \<and>
          (\<exists>es. acc = add_counts es (fmempty, 0) \<and> mset es = done_entries rs (forwarders s))
      | Returned (Inl e) \<Rightarrow> Inl e \<in> set rs
      | Returned (Inr acc) \<Rightarrow> (\<forall>i < length rs. \<exists>c. rs ! i = Inr c) \<and> acc = collect_counts (map projr rs))"

definition fetch_inv :: "(error + Counts) list \<Rightarrow> fetch_state \<Rightarrow> bool" where
  "fetch_inv rs s \<longleftrightarrow>
     length (fetchers s) = length rs \<and> length (forwarders s) = length rs \<and>
     (\<forall>i < length rs. pair_ok (rs ! i) (fetchers s ! i) (forwarders s ! i)) \<and>
     (\<forall>i < length rs. \<forall>e. fetchers s ! i = FetchErr e \<longrightarrow> group_err s \<noteq> None) \<and>
     (\<forall>e. group_err s = Some e \<longrightarrow> Inl e \<in> set rs) \<and>
     (ch_closed s \<longrightarrow> (\<forall>i < length rs. forwarders s ! i = ForwardDone)) \<and>
     caller_ok rs s"

lemma done_entries_update:
  assumes "i < length rs" "length fw = length rs" "fw ! i \<noteq> ForwardDone"
  shows "done_entries rs (fw[i := ForwardDone]) = done_entries rs fw + mset (entries (Counts_m (projr (rs ! i))))"
proof -
  have fin: "finite {..<length rs}" and i: "i \<in> {..<length rs}" using assms by auto
  have "(\<Sum>j \<in> {..<length rs} - {i}. if fw[i := ForwardDone] ! j = ForwardDone
            then mset (entries (Counts_m (projr (rs ! j)))) else {#}) =
        (\<Sum>j \<in> {..<length rs} - {i}. if fw ! j = ForwardDone
            then mset (entries (Counts_m (projr (rs ! j)))) else {#})"
    by (rule sum.cong) auto
  then show ?thesis
    using assms by (simp add: done_entries_def sum.remove [OF fin i])
qed

lemma done_entries_all:
  assumes "\<forall>i < length rs. fw ! i = ForwardDone"
  shows "done_entries rs fw = mset (count_entries (map projr rs))"
proof -
  have "done_entries rs fw = (\<Sum>i < length rs. mset (entries (Counts_m (projr (rs ! i)))))"
    unfolding done_entries_def by (rule sum.cong) (use assms in auto)
  also have "\<dots> = sum_list (map (\<lambda>r. mset (entries (Counts_m (projr r)))) rs)"
    by (simp add: sum_list_sum_nth atLeast0LessThan)
  also have "\<dots> = mset (count_entries (map projr rs))"
    by (induction rs) (auto simp: count_entries_def)
  finally show ?thesis .
qed

lemma done_entries_none: "\<forall>i < length rs. fw ! i \<noteq> ForwardDone \<Longrightarrow> done_entries rs fw = {#}"
  by (simp add: done_entries_def)

lemma fetch_finishedD:
  "fetch_finished s \<Longrightarrow> i < length (fetchers s) \<Longrightarrow> fetchers s ! i = FetchOk \<or> (\<exists>e. fetchers s ! i = FetchErr e)"
  by (cases "fetchers s ! i") (auto simp: fetch_finished_def list_all_length split: fetcher.splits)

lemma fetch_inv_init: "fetch_inv rs (fetch_init (length rs))"
  by (simp add: fetch_inv_def fetch_init_def caller_ok_def)

lemma fetch_inv_fetcher:
  assumes inv: "fetch_inv rs s" and i: "i < length rs" "fetchers s ! i = Fetching"
    and f: "pair_ok (rs ! i) f Waiting" "\<And>e. f = FetchErr e \<Longrightarrow> g \<noteq> None"
    and g: "g = group_err s \<or> (\<exists>e. g = Some e \<and> Inl e \<in> set rs)"
  shows "fetch_inv rs (s\<lparr>fetchers := (fetchers s)[i := f], group_err := g\<rparr>)"
proof -
  have w: "forwarders s ! i = Waiting"
    using inv i unfolding fetch_inv_def by (metis pair_ok.simps(1))
  have "caller_ok rs (s\<lparr>fetchers := (fetchers s)[i := f], group_err := g\<rparr>)"
    using inv i by (auto simp: fetch_inv_def caller_ok_def split: fetch_caller.splits)
  then show ?thesis
    using inv i f g w unfolding fetch_inv_def by (auto simp: nth_list_update)
qed

lemma fetch_inv_hand_over:
  assumes inv: "fetch_inv rs s" and i: "i < length rs" "fetchers s ! i = Sending c"
  shows "fetch_inv rs (s\<lparr>fetchers := (fetchers s)[i := FetchOk], forwarders := (forwarders s)[i := Forwarding c]\<rparr>)"
proof -
  have w: "forwarders s ! i = Waiting" "rs ! i = Inr c"
    using inv i unfolding fetch_inv_def by (metis pair_ok.simps(2))+
  have closed: "\<not> ch_closed s"
    using inv i w by (auto simp: fetch_inv_def)
  have "caller_ok rs (s\<lparr>fetchers := (fetchers s)[i := FetchOk], forwarders := (forwarders s)[i := Forwarding c]\<rparr>)"
    using inv i by (auto simp: fetch_inv_def caller_ok_def nth_list_update split: fetch_caller.splits)
  then show ?thesis
    using inv i w closed unfolding fetch_inv_def by (auto simp: nth_list_update)
qed

lemma fetch_inv_receive:
  assumes inv: "fetch_inv rs s" and i: "i < length rs" "forwarders s ! i = Forwarding c"
    and acc: "caller s = Collecting acc" and es: "mset es = mset (entries (Counts_m c))"
  shows "fetch_inv rs (s\<lparr>forwarders := (forwarders s)[i := ForwardDone], caller := Collecting (add_counts es acc)\<rparr>)"
proof -
  have ok: "fetchers s ! i = FetchOk" using inv i acc by (simp add: fetch_inv_def caller_ok_def)
  then have r: "rs ! i = Inr c"
    using inv i by (fastforce simp: fetch_inv_def)
  from inv acc obtain es0 where es0: "acc = add_counts es0 (fmempty, 0)" "mset es0 = done_entries rs (forwarders s)"
    by (auto simp: fetch_inv_def caller_ok_def)
  have "add_counts es acc = add_counts (es0 @ es) (fmempty, 0)"
    by (simp add: es0 add_counts_append)
  moreover have "mset (es0 @ es) = done_entries rs ((forwarders s)[i := ForwardDone])"
    using inv i es es0 r by (subst done_entries_update) (auto simp: fetch_inv_def)
  ultimately have "caller_ok rs (s\<lparr>forwarders := (forwarders s)[i := ForwardDone], caller := Collecting (add_counts es acc)\<rparr>)"
    using inv acc unfolding fetch_inv_def caller_ok_def by auto
  then show ?thesis
    using inv i ok r unfolding fetch_inv_def by (auto simp: nth_list_update)
qed

lemma fetch_inv_caller:
  assumes "fetch_inv rs s" "caller_ok rs (s\<lparr>caller := m\<rparr>)"
  shows "fetch_inv rs (s\<lparr>caller := m\<rparr>)"
  using assms by (simp add: fetch_inv_def)

lemma fetch_inv_wait_ok:
  assumes inv: "fetch_inv rs s" and "caller s = GrpWait" "fetch_finished s" "group_err s = None"
  shows "fetch_inv rs (s\<lparr>caller := Collecting (fmempty, 0)\<rparr>)"
proof (rule fetch_inv_caller [OF inv])
  have "\<forall>i < length rs. fetchers s ! i = FetchOk"
    using assms by (metis fetch_finishedD fetch_inv_def)
  moreover have "done_entries rs (forwarders s) = {#}"
    using assms by (intro done_entries_none) (simp add: fetch_inv_def caller_ok_def)
  ultimately show "caller_ok rs (s\<lparr>caller := Collecting (fmempty, 0)\<rparr>)"
    by (auto simp: caller_ok_def intro!: exI [of _ "[]"])
qed

lemma fetch_inv_range_end:
  assumes inv: "fetch_inv rs s" and "caller s = Collecting acc" "ch_closed s"
  shows "fetch_inv rs (s\<lparr>caller := Returned (Inr acc)\<rparr>)"
proof (rule fetch_inv_caller [OF inv])
  from assms obtain es where es: "acc = add_counts es (fmempty, 0)" "mset es = done_entries rs (forwarders s)"
    by (auto simp: fetch_inv_def caller_ok_def)
  have "mset es = mset (count_entries (map projr rs))"
    using assms es done_entries_all [of rs "forwarders s"] by (simp add: fetch_inv_def)
  then have "acc = collect_counts (map projr rs)"
    unfolding es(1) collect_counts_entries by (rule add_counts_mset)
  moreover have "\<exists>c. rs ! i = Inr c" if "i < length rs" for i
    using assms that by (fastforce simp: fetch_inv_def caller_ok_def)
  ultimately show "caller_ok rs (s\<lparr>caller := Returned (Inr acc)\<rparr>)"
    by (simp add: caller_ok_def)
qed

lemma fetch_inv_step: "fetch_step rs s s' \<Longrightarrow> fetch_inv rs s \<Longrightarrow> fetch_inv rs s'"
proof (induction rule: fetch_step.induct)
  case (fetch_ok i s c)
  then show ?case using fetch_inv_fetcher [of rs s i "Sending c" "group_err s"] by simp
next
  case (fetch_err i s e)
  then have "Inl e \<in> set rs" by (metis nth_mem)
  with fetch_err show ?case
    by (intro fetch_inv_fetcher) (auto simp: first_err_def split: option.splits)
next
  case (fetch_cancelled i s)
  then show ?case using fetch_inv_fetcher [of rs s i "FetchErr ContextCanceled" "group_err s"] by simp
next
  case (close_ch s)
  have "caller_ok rs (s\<lparr>ch_closed := True\<rparr>) = caller_ok rs s"
    by (simp add: caller_ok_def split: fetch_caller.splits)
  with close_ch show ?case by (auto simp: fetch_inv_def list_all_length)
next
  case (wait_err s e)
  then show ?case by (intro fetch_inv_caller) (auto simp: fetch_inv_def caller_ok_def)
qed (simp_all add: fetch_inv_hand_over fetch_inv_receive fetch_inv_wait_ok fetch_inv_range_end)

lemma fetch_inv_run: "fetch_run rs k s \<Longrightarrow> fetch_inv rs s"
  by (induction rule: fetch_run.induct) (auto intro: fetch_inv_init fetch_inv_step)

text \<open>No reachable state before the return is stuck.\<close>

lemma fetch_progress:
  assumes inv: "fetch_inv rs s" and "\<nexists>s'. fetch_step rs s s'"
  shows "\<exists>r. caller s = Returned r"
proof (rule ccontr)
  assume running: "\<nexists>r. caller s = Returned r"
  have no: "\<not> fetch_step rs s s'" for s' using assms(2) by blast
  have len: "length (fetchers s) = length rs" "length (forwarders s) = length rs"
    using inv by (auto simp: fetch_inv_def)
  have "fetchers s ! i \<noteq> Fetching" if "i < length rs" for i
    using that no fetch_ok [of i rs s] fetch_err [of i rs s] by (cases "rs ! i") blast+
  moreover have "fetchers s ! i \<noteq> Sending c" if "i < length rs" for i c
    using that no hand_over [of i rs s c] inv unfolding fetch_inv_def by (metis pair_ok.simps(2))
  ultimately have "fetch_finished s"
    using len by (auto simp: fetch_finished_def list_all_length split: fetcher.splits)
  with no have "caller s \<noteq> GrpWait"
    using wait_err [of s _ rs] wait_ok [of s rs] by (cases "group_err s") blast+
  with running obtain acc where acc: "caller s = Collecting acc"
    by (cases "caller s") auto
  have "forwarders s ! i = ForwardDone" if "i < length rs" for i
  proof -
    have "fetchers s ! i = FetchOk" using inv acc that by (auto simp: fetch_inv_def caller_ok_def)
    moreover have "forwarders s ! i \<noteq> Forwarding c" for c
      using receive [of i rs s acc c "entries (Counts_m c)"] that acc no by blast
    ultimately show ?thesis using inv that unfolding fetch_inv_def by (metis pair_ok.simps(4))
  qed
  then have "ch_closed s"
    using no close_ch [of s rs] len by (auto simp: list_all_length)
  with no acc range_end [of s acc rs] show False by blast
qed


text \<open>Every step uses up some of the work left, so every run is bounded.\<close>

fun fetcher_work :: "fetcher \<Rightarrow> nat" where
  "fetcher_work Fetching = 2"
| "fetcher_work (Sending _) = 1"
| "fetcher_work _ = 0"

fun forwarder_work :: "forwarder \<Rightarrow> nat" where
  "forwarder_work Waiting = 1"
| "forwarder_work (Forwarding _) = 1"
| "forwarder_work ForwardDone = 0"

fun caller_work :: "fetch_caller \<Rightarrow> nat" where
  "caller_work GrpWait = 2"
| "caller_work (Collecting _) = 1"
| "caller_work (Returned _) = 0"

definition fetch_work :: "fetch_state \<Rightarrow> nat" where
  "fetch_work s = sum_list (map fetcher_work (fetchers s)) + sum_list (map forwarder_work (forwarders s)) +
     caller_work (caller s) + (if ch_closed s then 0 else 1)"

lemma sum_list_work_update:
  fixes f :: "'a \<Rightarrow> nat"
  shows "i < length xs \<Longrightarrow> sum_list (map f (xs[i := x])) + f (xs ! i) = sum_list (map f xs) + f x"
proof (induction xs arbitrary: i)
  case (Cons y ys)
  then show ?case by (cases i) auto
qed simp

lemma fetch_work_step:
  assumes "fetch_step rs s s'" "fetch_inv rs s"
  shows "fetch_work s' < fetch_work s"
proof -
  have len: "length (fetchers s) = length rs" "length (forwarders s) = length rs"
    using assms(2) by (auto simp: fetch_inv_def)
  note upd = sum_list_work_update [of _ "fetchers s" fetcher_work]
    sum_list_work_update [of _ "forwarders s" forwarder_work]
  show ?thesis
    using assms(1)
  proof cases
    case (fetch_ok i c)
    with upd(1) [of i "Sending c"] len show ?thesis by (simp add: fetch_work_def)
  next
    case (fetch_err i e)
    with upd(1) [of i "FetchErr e"] len show ?thesis by (simp add: fetch_work_def)
  next
    case (fetch_cancelled i)
    with upd(1) [of i "FetchErr ContextCanceled"] len show ?thesis by (simp add: fetch_work_def)
  next
    case (hand_over i c)
    with upd(1) [of i FetchOk] upd(2) [of i "Forwarding c"] len show ?thesis by (simp add: fetch_work_def)
  next
    case (receive i acc c es)
    with upd(2) [of i ForwardDone] len show ?thesis by (simp add: fetch_work_def)
  qed (simp_all add: fetch_work_def)
qed

lemma fetch_run_bound: "fetch_run rs k s \<Longrightarrow> k + fetch_work s \<le> 3 * length rs + 3"
proof (induction rule: fetch_run.induct)
  case run_init
  then show ?case by (simp add: fetch_work_def fetch_init_def sum_list_replicate)
next
  case (run_step k s s')
  then show ?case using fetch_work_step [of rs s s'] fetch_inv_run [of rs k s] by simp
qed

lemma fetch_results_ok:
  "(\<forall>i < length rs. \<exists>c. rs ! i = Inr c) \<Longrightarrow> fetch_results rs = Inr (collect_counts (map projr rs))"
proof -
  assume *: "\<forall>i < length rs. \<exists>c. rs ! i = Inr c"
  have "List.find isl rs = None"
    unfolding find_None_iff using * by (metis in_set_conv_nth sum.disc(2))
  then show ?thesis by (simp add: fetch_results_def)
qed

text \<open>
  C9: However the goroutines of \<open>fetchCounts\<close> are scheduled, whichever request fails first and in
  whatever order the answers arrive and their maps are ranged over, at most three steps per
  endpoint and three more are taken, the call is never stuck before it returns, and it returns the
  sum of all answers as \<open>fetch_results\<close> computes it when every endpoint answered, and otherwise
  the error of an endpoint that failed.
\<close>

theorem fetchCounts_schedules:
  assumes "fetch_run rs k s"
  shows "k \<le> 3 * length rs + 3 \<and>
     ((\<nexists>s'. fetch_step rs s s') \<longrightarrow> (\<exists>r. caller s = Returned r)) \<and>
     (\<forall>r. caller s = Returned r \<longrightarrow>
        (if list_all (\<lambda>a. \<not> isl a) rs then r = fetch_results rs else \<exists>e. Inl e \<in> set rs \<and> r = Inl e))"
proof (intro conjI impI allI)
  note inv = fetch_inv_run [OF assms]
  show "k \<le> 3 * length rs + 3" using fetch_run_bound [OF assms] by simp
  show "\<exists>r. caller s = Returned r" if "\<nexists>s'. fetch_step rs s s'"
    using fetch_progress [OF inv that] .
  fix r
  assume r: "caller s = Returned r"
  show "if list_all (\<lambda>a. \<not> isl a) rs then r = fetch_results rs else \<exists>e. Inl e \<in> set rs \<and> r = Inl e"
  proof (cases r)
    case (Inl e)
    with inv r have "Inl e \<in> set rs" by (simp add: fetch_inv_def caller_ok_def)
    with Inl show ?thesis by (auto simp: list_all_iff)
  next
    case (Inr acc)
    with inv r have *: "\<forall>i < length rs. \<exists>c. rs ! i = Inr c" and "acc = collect_counts (map projr rs)"
      by (auto simp: fetch_inv_def caller_ok_def)
    with Inr fetch_results_ok [OF *] show ?thesis by (auto simp: list_all_length)
  qed
qed

text \<open>The run of one endpoint that counts two requests for one host.\<close>

theorem fetchCounts_schedules_witness:
  "\<exists>s. fetch_run [Inr \<lparr>Counts_m = Some (fmupd ''h'' 2 fmempty)\<rparr>] 6 s \<and>
     (6 :: nat) \<le> 3 * length [Inr \<lparr>Counts_m = Some (fmupd ''h'' 2 fmempty)\<rparr> :: error + Counts] + 3 \<and>
     caller s = Returned (Inr (fmupd ''h'' 2 fmempty, 2))"
proof -
  define c :: Counts where "c = \<lparr>Counts_m = Some (fmupd ''h'' 2 fmempty)\<rparr>"
  define st where "st f w g cl ca = \<lparr>fetchers = [f], forwarders = [w], group_err = g, ch_closed = cl, caller = ca\<rparr>"
    for f w g cl ca
  let ?rs = "[Inr c] :: (error + Counts) list"
  have es: "entries (Counts_m c) = [(''h'', 2)]"
    unfolding c_def by code_simp
  have 0: "fetch_run ?rs 0 (st Fetching Waiting None False GrpWait)"
    using run_init [of ?rs] by (simp add: fetch_init_def st_def)
  have 1: "fetch_run ?rs (Suc 0) (st (Sending c) Waiting None False GrpWait)"
    using run_step [OF 0 fetch_ok [of 0]] by (simp add: st_def)
  have 2: "fetch_run ?rs (Suc (Suc 0)) (st FetchOk (Forwarding c) None False GrpWait)"
    using run_step [OF 1 hand_over [of 0 _ _ c]] by (simp add: st_def)
  have 3: "fetch_run ?rs (Suc (Suc (Suc 0))) (st FetchOk (Forwarding c) None False (Collecting (fmempty, 0)))"
    using run_step [OF 2 wait_ok] by (simp add: st_def fetch_finished_def)
  have 4: "fetch_run ?rs (Suc (Suc (Suc (Suc 0)))) (st FetchOk ForwardDone None False (Collecting (fmupd ''h'' 2 fmempty, 2)))"
    using run_step [OF 3 receive [of 0 _ _ "(fmempty, 0)" c "[(''h'', 2)]"]] by (simp add: st_def es)
  have 5: "fetch_run ?rs (Suc (Suc (Suc (Suc (Suc 0))))) (st FetchOk ForwardDone None True (Collecting (fmupd ''h'' 2 fmempty, 2)))"
    using run_step [OF 4 close_ch] by (simp add: st_def)
  have 6: "fetch_run ?rs (Suc (Suc (Suc (Suc (Suc (Suc 0)))))) (st FetchOk ForwardDone None True (Returned (Inr (fmupd ''h'' 2 fmempty, 2))))"
    using run_step [OF 5 range_end] by (simp add: st_def)
  have "fetch_run ?rs 6 (st FetchOk ForwardDone None True (Returned (Inr (fmupd ''h'' 2 fmempty, 2))))"
    using 6 by (simp add: eval_nat_numeral)
  with fetchCounts_schedules [OF this] show ?thesis
    unfolding c_def by (auto simp: st_def)
qed

text \<open>
  When an endpoint fails, the goroutine that should forward its counts waits for ever on the
  private channel, in every reachable state: nothing ever sends there, so the channel is never
  closed and the goroutines are never released.
\<close>

theorem fetchCounts_error_leaks:
  assumes "fetch_run rs k s" "i < length rs" "rs ! i = Inl e"
  shows "forwarders s ! i = Waiting \<and> \<not> ch_closed s"
proof -
  have inv: "fetch_inv rs s" using fetch_inv_run [OF assms(1)] .
  then have "pair_ok (Inl e) (fetchers s ! i) (forwarders s ! i)"
    using assms by (auto simp: fetch_inv_def)
  then have "forwarders s ! i = Waiting" by (cases "fetchers s ! i") auto
  with inv assms(2) show ?thesis by (auto simp: fetch_inv_def)
qed

theorem fetchCounts_error_leaks_witness:
  "\<exists>s. fetch_run [Inl (Errorf ''refused'')] 2 s \<and> caller s = Returned (Inl (Errorf ''refused'')) \<and>
     forwarders s ! 0 = Waiting \<and> \<not> ch_closed s"
proof -
  define st where "st f g ca = \<lparr>fetchers = [f], forwarders = [Waiting], group_err = g, ch_closed = False, caller = ca\<rparr>"
    for f g ca
  let ?e = "Errorf ''refused''" and ?rs = "[Inl (Errorf ''refused'')] :: (error + Counts) list"
  have 0: "fetch_run ?rs 0 (st Fetching None GrpWait)"
    using run_init [of ?rs] by (simp add: fetch_init_def st_def)
  have 1: "fetch_run ?rs (Suc 0) (st (FetchErr ?e) (Some ?e) GrpWait)"
    using run_step [OF 0 fetch_err [of 0]] by (simp add: st_def first_err_def)
  have 2: "fetch_run ?rs (Suc (Suc 0)) (st (FetchErr ?e) (Some ?e) (Returned (Inl ?e)))"
    using run_step [OF 1 wait_err] by (simp add: st_def fetch_finished_def)
  have "fetch_run ?rs 2 (st (FetchErr ?e) (Some ?e) (Returned (Inl ?e)))"
    using 2 by (simp add: eval_nat_numeral)
  with fetchCounts_error_leaks [OF this, of 0 ?e] show ?thesis
    by (auto simp: st_def)
qed

section \<open>What the pinger holds\<close>

text \<open>The totals that a fetch returns: per host and over all hosts.\<close>

lemma fetch_results_Inr:
  assumes "fetch_results rs = Inr (m, agg)"
  obtains cs where "rs = map Inr cs" and "(m, agg) = collect_counts cs"
proof -
  have "List.find isl rs = None"
    using assms by (auto simp: fetch_results_def find_Some_iff split: option.splits sum.splits)
  then have "\<forall>r \<in> set rs. \<not> isl r" by (simp add: find_None_iff)
  then have "rs = map Inr (map projr rs)" by (induction rs) (auto simp: sum.collapse)
  moreover have "(m, agg) = collect_counts (map projr rs)"
    using assms \<open>List.find isl rs = None\<close> by (simp add: fetch_results_def)
  ultimately show thesis by (rule that)
qed

lemma sorted_list_of_fmempty [simp]: "sorted_list_of_fmap fmempty = []"
  by (simp add: sorted_list_of_fmap_def sorted_list_of_fset.rep_eq)

lemma aggregate_loop_sum_all: "aggregate_loop es = sum_all es"
  by (simp add: aggregate_loop_sum sum_all_def case_prod_beta)

lemma collect_counts_total: "snd (collect_counts cs) = aggregate_loop (sorted_list_of_fmap (fst (collect_counts cs)))"
  using add_counts_total [of "count_entries cs" "(fmempty, 0)"]
  by (simp add: collect_counts_entries aggregate_loop_sum_all)

definition pinger_consistent :: "queuePinger \<Rightarrow> bool" where
  "pinger_consistent q \<longleftrightarrow> aggregateCount q = aggregate_loop (sorted_list_of_fmap (allCounts q))"

lemma fetchAndSaveCounts_consistent:
  assumes "pinger_consistent q"
  shows "pinger_consistent (fst (fetchAndSaveCounts get now q))"
proof -
  have "agg = aggregate_loop (sorted_list_of_fmap m)"
    if "fetchCounts get epFn ns svc port = Inr (m, agg)" for epFn ns svc port m agg
  proof -
    from that obtain us where "fetch_results (map (GetCounts get) us) = Inr (m, agg)"
      by (auto simp: fetchCounts_def split: sum.splits)
    then obtain cs where "(m, agg) = collect_counts cs" by (rule fetch_results_Inr)
    then show ?thesis using collect_counts_total [of cs] by (metis fst_conv snd_conv)
  qed
  with assms show ?thesis
    by (auto simp: fetchAndSaveCounts_def pinger_consistent_def split: sum.splits)
qed

lemma pinger_loop_consistent: "pinger_consistent q \<Longrightarrow> pinger_consistent (fst (pinger_loop evs q))"
proof (induction evs q rule: pinger_loop.induct)
  case (3 get now evs q)
  then show ?case
    using fetchAndSaveCounts_consistent [of q get now] by (auto split: prod.splits option.splits)
qed (auto intro: fetchAndSaveCounts_consistent)

text \<open>
  C27: From its creation on, whatever ticks and deployment events arrive and whichever fetches fail,
  the aggregate that the pinger reports is the sum of the counts it reports.
\<close>

theorem pinger_aggregate_is_total:
  "let q = fst (queuePinger_start watchErr evs (fst (newQueuePinger get now epFn ns svc depl port)))
   in queuePinger_aggregate q = aggregate_loop (sorted_list_of_fmap (queuePinger_counts q))"
proof -
  have "pinger_consistent (fst (newQueuePinger get now epFn ns svc depl port))"
    unfolding newQueuePinger_def
    by (rule fetchAndSaveCounts_consistent) (simp add: pinger_consistent_def aggregate_loop_def)
  then have "pinger_consistent (fst (queuePinger_start watchErr evs (fst (newQueuePinger get now epFn ns svc depl port))))"
    by (auto simp: queuePinger_start_def pinger_loop_consistent split: option.split)
  then show ?thesis
    by (simp add: pinger_consistent_def queuePinger_aggregate_def queuePinger_counts_def Let_def)
qed


section \<open>Hosts and counts\<close>

lemma fmlookup_merge_hosts:
  "fmlookup (foldl (\<lambda>mc host. fmupd host 0 mc) m hs) h = (if h \<in> set hs then Some 0 else fmlookup m h)"
  by (induction hs arbitrary: m) auto

lemma fmlookup_merge_counts:
  "distinct (map fst es) \<Longrightarrow>
   fmlookup (foldl (\<lambda>mc (k, v). fmupd k v mc) m es) h = (case map_of es h of Some v \<Rightarrow> Some v | None \<Rightarrow> fmlookup m h)"
proof (induction es arbitrary: m)
  case (Cons e es)
  then have "map_of es (fst e) = None" by (simp add: map_of_eq_None_iff)
  with Cons show ?case by (cases e) (auto split: option.splits)
qed simp

lemma fmlookup_merge:
  "fmlookup (mergeCountsWithRoutingTable R table q) h =
     (case fmlookup (allCounts q) h of
        Some v \<Rightarrow> Some v
      | None \<Rightarrow> if h \<in> set (tr_Hosts R table) then Some 0 else None)"
  using enumerates_sorted [of "allCounts q"]
  by (simp add: mergeCountsWithRoutingTable_def fmlookup_merge_counts fmlookup_merge_hosts enumerates_def
      split: option.split)

text \<open>With a reader that keeps its contract, the merged counts are what \<open>getHostCount\<close> answers from.\<close>

context table_reader
begin

lemma getHostCount_merged:
  "getHostCount h (queuePinger_counts q) R t =
     (case fmlookup (mergeCountsWithRoutingTable R t q) h of Some n \<Rightarrow> (n, True) | None \<Rightarrow> (0, False))"
  by (auto simp: getHostCount_def queuePinger_counts_def fmlookup_merge Hosts_law split: option.splits)

lemma spec_for_known:
  "reader e = R \<Longrightarrow> tr_HasHost R (routingTable e) host \<Longrightarrow> host \<noteq> interceptor_host \<Longrightarrow>
   getHostsFromScaledObjectRef sor = Ret (Inr (host # hosts)) \<Longrightarrow>
   \<exists>tg. tr_Lookup R (routingTable e) host = Inr tg \<and>
     impl_GetMetricSpec e sor = Ret (Inr \<lparr>gmsr_MetricSpecs =
       [\<lparr>ms_MetricName = httpRequests, ms_TargetSize = scast (TargetPendingRequests tg)\<rparr>]\<rparr>)"
  using found_law [of "routingTable e" host] by (auto simp: impl_GetMetricSpec_def)

end

text \<open>
  The counts that the scaler answers from are the fetched counts completed with a zero for
  every host of the routing table: on the routing table, \<open>getHostCount\<close> and
  \<open>mergeCountsWithRoutingTable\<close> agree on every host, known or not.
\<close>

theorem getHostCount_is_merged:
  "getHostCount h (queuePinger_counts q) Table_Reader t =
     (case fmlookup (mergeCountsWithRoutingTable Table_Reader t q) h of Some n \<Rightarrow> (n, True) | None \<Rightarrow> (0, False))"
  by (rule tbl.getHostCount_merged)

section \<open>Answers to KEDA\<close>

definition known :: "'t impl \<Rightarrow> string \<Rightarrow> bool" where
  "known e h = snd (getHostCount h (queuePinger_counts (pinger e)) (reader e) (routingTable e))"

lemma fst_getHostCount: "fst (getHostCount h counts R t) = count_of counts h"
  by (auto simp: getHostCount_def count_of_def split: option.split)

lemma getHostCount_known:
  "getHostCount h (queuePinger_counts (pinger e)) (reader e) (routingTable e) =
     (count_of (queuePinger_counts (pinger e)) h, known e h)"
  unfolding known_def by (metis fst_getHostCount prod.collapse)

lemma isActive_loop_metrics:
  "interceptor_host \<notin> set hosts \<Longrightarrow>
   isActive_loop e hosts n = (case metrics_loop e hosts n nm of
     Inl err \<Rightarrow> Inl err | Inr (v, _) \<Rightarrow> Inr \<lparr>iar_Result = (0 <s v)\<rparr>)"
  by (induction e hosts n rule: isActive_loop.induct) (auto simp: getHostCount_known)

lemma metrics_loop_known:
  "\<forall>h \<in> set hosts. known e h \<Longrightarrow>
   metrics_loop e hosts n nm = Inr (n + (\<Sum>h \<leftarrow> hosts. count_of (queuePinger_counts (pinger e)) h), nm)"
  by (induction e hosts n nm rule: metrics_loop.induct) (auto simp: getHostCount_known add.assoc)

lemma metrics_loop_unknown:
  "\<forall>h \<in> set pre. known e h \<Longrightarrow> \<not> known e host \<Longrightarrow> host \<noteq> interceptor_host \<Longrightarrow>
   metrics_loop e (pre @ host # post) n nm = Inl (not_in_counts host)"
  by (induction pre arbitrary: n) (auto simp: getHostCount_known)

lemma getHosts_Some:
  "map_get (sor_ScalerMetadata r) ''hosts'' = Some s \<Longrightarrow> getHostsFromScaledObjectRef (Some r) = Ret (Inr (Split s CHR '',''))"
  by (simp add: getHostsFromScaledObjectRef_def)

text \<open>
  C25: \<open>IsActive\<close> and \<open>GetMetrics\<close> tell KEDA the same story. For a scaled object whose hosts do not
  name the interceptor, either both fail with the same error, or \<open>GetMetrics\<close> reports one value,
  named \<open>http-requests\<close>, and the object is active exactly when that value is positive.
\<close>

theorem IsActive_agrees_GetMetrics:
  assumes "map_get (sor_ScalerMetadata r) ''hosts'' = Some s"
    and "interceptor_host \<notin> set (Split s CHR '','')"
  shows "(\<exists>err. impl_GetMetrics e (Some \<lparr>gmr_ScaledObjectRef = Some r, gmr_MetricName = nm\<rparr>) = Ret (Inl err) \<and>
            impl_IsActive e (Some r) = Ret (Inl err)) \<or>
     (\<exists>v. impl_GetMetrics e (Some \<lparr>gmr_ScaledObjectRef = Some r, gmr_MetricName = nm\<rparr>) =
            Ret (Inr \<lparr>gmr_MetricValues = [\<lparr>mv_MetricName = httpRequests, mv_MetricValue = v\<rparr>]\<rparr>) \<and>
          impl_IsActive e (Some r) = Ret (Inr \<lparr>iar_Result = (0 <s v)\<rparr>))"
proof -
  have name: "m = nm'" if "metrics_loop e hosts n nm' = Inr (v, m)" "interceptor_host \<notin> set hosts" for hosts n v m nm'
    using that by (induction e hosts n nm' rule: metrics_loop.induct) (auto split: if_splits prod.splits)
  show ?thesis
    using assms isActive_loop_metrics [OF assms(2), of e 0 httpRequests] name [of "Split s CHR '',''" 0 httpRequests]
    by (cases "metrics_loop e (Split s CHR '','') 0 httpRequests")
      (auto simp: impl_GetMetrics_def impl_IsActive_def getHosts_Some)
qed

definition sample_pinger :: queuePinger where
  "sample_pinger = \<lparr>getEndpointsFn = (\<lambda>_ _. Inl (Errorf [])), interceptorNS = [], interceptorSvcName = [],
     interceptorDeplName = [], adminPort = [], lastPingTime = 0,
     allCounts = fmap_of_list [(''a.com'', 2), (''b.com'', 3)], aggregateCount = 5\<rparr>"

definition sample_impl :: "Table impl" where
  "sample_impl = newImpl sample_pinger Table_Reader sample_table 100 200"

definition sample_ref :: "string \<Rightarrow> ScaledObjectRef" where
  "sample_ref s = \<lparr>sor_Name = [], sor_Namespace = [], sor_ScalerMetadata = Some (fmap_of_list [(''hosts'', s)])\<rparr>"

lemma sample_hosts [simp]: "map_get (sor_ScalerMetadata (sample_ref s)) ''hosts'' = Some s"
  by (simp add: sample_ref_def)

theorem IsActive_agrees_GetMetrics_witness:
  "impl_IsActive sample_impl (Some (sample_ref ''a.com,b.com'')) = Ret (Inr \<lparr>iar_Result = True\<rparr>)"
proof -
  have "interceptor_host \<notin> set (Split ''a.com,b.com'' CHR '','')" by code_simp
  note * = IsActive_agrees_GetMetrics [OF sample_hosts this, of sample_impl "[]"]
  have "impl_GetMetrics sample_impl (Some \<lparr>gmr_ScaledObjectRef = Some (sample_ref ''a.com,b.com''), gmr_MetricName = []\<rparr>) =
      Ret (Inr \<lparr>gmr_MetricValues = [\<lparr>mv_MetricName = httpRequests, mv_MetricValue = 5\<rparr>]\<rparr>)"
    by code_simp
  moreover have "(0 :: gint) <s 5" by code_simp
  ultimately show ?thesis using * by auto
qed


text \<open>
  \<open>GetMetrics\<close> reports the number of pending requests of a scaled object: when every one of its
  hosts is known, from a count or from the routing table, the one value returned is the sum of the
  counts over all hosts; and when some host is not known, and is not the interceptor, the call
  fails and names the first such host.
\<close>

theorem GetMetrics_value:
  assumes "map_get (sor_ScalerMetadata r) ''hosts'' = Some s"
  shows "(list_all (known e) (Split s CHR '','') \<longrightarrow>
      impl_GetMetrics e (Some \<lparr>gmr_ScaledObjectRef = Some r, gmr_MetricName = nm\<rparr>) =
        Ret (Inr \<lparr>gmr_MetricValues = [\<lparr>mv_MetricName = httpRequests,
          mv_MetricValue = (\<Sum>h \<leftarrow> Split s CHR '',''. count_of (queuePinger_counts (pinger e)) h)\<rparr>]\<rparr>)) \<and>
    (\<forall>pre host post. Split s CHR '','' = pre @ host # post \<and> list_all (known e) pre \<and> \<not> known e host \<and>
        host \<noteq> interceptor_host \<longrightarrow>
      impl_GetMetrics e (Some \<lparr>gmr_ScaledObjectRef = Some r, gmr_MetricName = nm\<rparr>) = Ret (Inl (not_in_counts host)))"
  using assms
  by (auto simp: impl_GetMetrics_def getHosts_Some metrics_loop_known metrics_loop_unknown list_all_iff)

theorem GetMetrics_value_witness:
  "impl_GetMetrics sample_impl (Some \<lparr>gmr_ScaledObjectRef = Some (sample_ref ''a.com,b.com''), gmr_MetricName = []\<rparr>) =
     Ret (Inr \<lparr>gmr_MetricValues = [\<lparr>mv_MetricName = httpRequests, mv_MetricValue = 5\<rparr>]\<rparr>) \<and>
   impl_GetMetrics sample_impl (Some \<lparr>gmr_ScaledObjectRef = Some (sample_ref ''a.com,c.com''), gmr_MetricName = []\<rparr>) =
     Ret (Inl (not_in_counts ''c.com''))"
proof
  have "list_all (known sample_impl) (Split ''a.com,b.com'' CHR '','')" by code_simp
  moreover have "(\<Sum>h \<leftarrow> Split ''a.com,b.com'' CHR '',''. count_of (queuePinger_counts (pinger sample_impl)) h) = 5"
    by code_simp
  ultimately show "impl_GetMetrics sample_impl (Some \<lparr>gmr_ScaledObjectRef = Some (sample_ref ''a.com,b.com''), gmr_MetricName = []\<rparr>) =
     Ret (Inr \<lparr>gmr_MetricValues = [\<lparr>mv_MetricName = httpRequests, mv_MetricValue = 5\<rparr>]\<rparr>)"
    using GetMetrics_value [of "sample_ref ''a.com,b.com''" "''a.com,b.com''" sample_impl "[]", OF sample_hosts] by simp
  have "Split ''a.com,c.com'' CHR '','' = [''a.com''] @ ''c.com'' # [] \<and> list_all (known sample_impl) [''a.com''] \<and>
      \<not> known sample_impl ''c.com'' \<and> ''c.com'' \<noteq> interceptor_host"
    by code_simp
  then show "impl_GetMetrics sample_impl (Some \<lparr>gmr_ScaledObjectRef = Some (sample_ref ''a.com,c.com''), gmr_MetricName = []\<rparr>) =
     Ret (Inl (not_in_counts ''c.com''))"
    using GetMetrics_value [of "sample_ref ''a.com,c.com''" "''a.com,c.com''" sample_impl "[]", OF sample_hosts] by blast
qed

text \<open>
  C26: \<open>GetMetricSpec\<close> never indexes an empty host list, since \<open>strings.Split\<close> returns at least
  one part: on every message it returns a specification or an error. When the first host is in
  the routing table it is the target of that host, widened from 32 to 64 bits with its sign, and
  for the interceptor it is the configured one.
\<close>

theorem GetMetricSpec_first_host:
  "(\<exists>res. impl_GetMetricSpec e (Some r) = Ret res) \<and>
   (\<forall>host hosts. getHostsFromScaledObjectRef (Some r) = Ret (Inr (host # hosts)) \<longrightarrow> reader e = Table_Reader \<longrightarrow>
      (host = interceptor_host \<longrightarrow> impl_GetMetricSpec e (Some r) = Ret (Inr \<lparr>gmsr_MetricSpecs =
         [\<lparr>ms_MetricName = interceptor_host, ms_TargetSize = targetMetricInterceptor e\<rparr>]\<rparr>)) \<and>
      (host \<noteq> interceptor_host \<and> Table_HasHost (routingTable e) host \<longrightarrow>
         (\<exists>tg size. Table_Lookup (routingTable e) host = Inr tg \<and> sint size = sint (TargetPendingRequests tg) \<and>
            impl_GetMetricSpec e (Some r) = Ret (Inr \<lparr>gmsr_MetricSpecs =
              [\<lparr>ms_MetricName = httpRequests, ms_TargetSize = size\<rparr>]\<rparr>))))"
proof (intro conjI allI impI)
  show "\<exists>res. impl_GetMetricSpec e (Some r) = Ret res"
    using Split_not_Nil by (auto simp: impl_GetMetricSpec_def getHostsFromScaledObjectRef_def
        split: option.splits list.splits sum.splits)
next
  fix host hosts
  assume hosts: "getHostsFromScaledObjectRef (Some r) = Ret (Inr (host # hosts))" and R: "reader e = Table_Reader"
  show "impl_GetMetricSpec e (Some r) = Ret (Inr \<lparr>gmsr_MetricSpecs =
         [\<lparr>ms_MetricName = interceptor_host, ms_TargetSize = targetMetricInterceptor e\<rparr>]\<rparr>)" if "host = interceptor_host"
    using that hosts by (simp add: impl_GetMetricSpec_def)
  assume host: "host \<noteq> interceptor_host \<and> Table_HasHost (routingTable e) host"
  from sint_scast_32 tbl.spec_for_known [OF R _ _ hosts] host
  show "\<exists>tg size. Table_Lookup (routingTable e) host = Inr tg \<and> sint size = sint (TargetPendingRequests tg) \<and>
            impl_GetMetricSpec e (Some r) = Ret (Inr \<lparr>gmsr_MetricSpecs =
              [\<lparr>ms_MetricName = httpRequests, ms_TargetSize = size\<rparr>]\<rparr>)"
    by (auto simp: Table_Reader_def)
qed

theorem GetMetricSpec_first_host_witness:
  "\<exists>size. sint size = 100 \<and>
     impl_GetMetricSpec sample_impl (Some (sample_ref ''a.com,b.com'')) = Ret (Inr \<lparr>gmsr_MetricSpecs =
       [\<lparr>ms_MetricName = httpRequests, ms_TargetSize = size\<rparr>]\<rparr>)"
proof -
  have "getHostsFromScaledObjectRef (Some (sample_ref ''a.com,b.com'')) = Ret (Inr (''a.com'' # [''b.com'']))"
    by code_simp
  moreover have "reader sample_impl = Table_Reader" by (simp add: sample_impl_def newImpl_def)
  moreover have "''a.com'' \<noteq> interceptor_host \<and> Table_HasHost (routingTable sample_impl) ''a.com''" by code_simp
  ultimately obtain tg size where "Table_Lookup (routingTable sample_impl) ''a.com'' = Inr tg"
    "sint size = sint (TargetPendingRequests tg)"
    "impl_GetMetricSpec sample_impl (Some (sample_ref ''a.com,b.com'')) = Ret (Inr \<lparr>gmsr_MetricSpecs =
       [\<lparr>ms_MetricName = httpRequests, ms_TargetSize = size\<rparr>]\<rparr>)"
    using GetMetricSpec_first_host [of sample_impl "sample_ref ''a.com,b.com''"] by blast
  moreover have "Table_Lookup (routingTable sample_impl) ''a.com'' = Inr sample_target" by code_simp
  moreover have "sint (TargetPendingRequests sample_target) = 100" by code_simp
  ultimately show ?thesis by auto
qed

text \<open>
  A \<open>GetMetrics\<close> request without its \<open>ScaledObjectRef\<close>, which the protocol allows, makes the
  handler dereference a nil pointer, although the generated getter for the field is safe on it.
\<close>

theorem GetMetrics_nil_ref_panics:
  "(\<exists>msg. impl_GetMetrics e (Some \<lparr>gmr_ScaledObjectRef = None, gmr_MetricName = nm\<rparr>) = Panic msg) \<and>
   ScaledObjectRef_GetScalerMetadata (GetMetricsRequest_GetScaledObjectRef
     (Some \<lparr>gmr_ScaledObjectRef = None, gmr_MetricName = nm\<rparr>)) = None"
  by (simp add: impl_GetMetrics_def getHostsFromScaledObjectRef_def ScaledObjectRef_GetScalerMetadata_def
      GetMetricsRequest_GetScaledObjectRef_def)

text \<open>
  The stream of a scaled object sends, tick by tick, exactly what \<open>IsActive\<close> answers then, and
  as long as the context lives and neither \<open>IsActive\<close> nor a send fails, it does not end.
\<close>

theorem StreamIsActive_sends:
  assumes "\<And>e. e \<in> set es \<Longrightarrow> impl_IsActive e sor = Ret (Inr (act e))"
  shows "impl_StreamIsActive (map (\<lambda>e. StreamTick e None) es) sor = Ret (map act es, None) \<and>
    impl_StreamIsActive (map (\<lambda>e. StreamTick e None) es @ StreamDone # evs) sor = Ret (map act es, Some None)"
  using assms by (induction es) (auto simp: impl_StreamIsActive_def)

theorem StreamIsActive_sends_witness:
  "impl_StreamIsActive [StreamTick sample_impl None, StreamDone] (Some (sample_ref ''a.com'')) =
     Ret ([\<lparr>iar_Result = True\<rparr>], Some None)"
proof -
  have "impl_IsActive sample_impl (Some (sample_ref ''a.com'')) = Ret (Inr \<lparr>iar_Result = True\<rparr>)" by code_simp
  then show ?thesis
    using StreamIsActive_sends [of "[sample_impl]" "Some (sample_ref ''a.com'')" "\<lambda>_. \<lparr>iar_Result = True\<rparr>" "[]"] by simp
qed

end
