(* ===== verification/Operator.thy ===== *)
theory Operator
  imports Routing Net
begin

text \<open>
  The operator: the \<open>HTTPScaledObject\<close> resource, the reconciler with its finalizer, status
  conditions, KEDA ScaledObject and routing table, and the operator's configuration and admin
  routes. The Kubernetes client is a record of operations on the API server's state \<open>'w\<close>, and the
  laws the theorems use of it are hypotheses. An update fills the object that was passed from
  the server's answer, as the client does.
\<close>

section \<open>The resource\<close>

record ScaleTargetRef =
  ref_Deployment :: string
  ref_Service :: string
  ref_Port :: i32

record ReplicaStruct =
  Min :: "i32 option"
  Max :: "i32 option"

record HTTPScaledObjectSpec =
  spec_Host :: "string option"
  spec_Hosts :: "string list option"
  spec_ScaleTargetRef :: "ScaleTargetRef option"
  spec_Replicas :: "ReplicaStruct option"
  spec_TargetPendingRequests :: "i32 option"
  spec_CooldownPeriod :: "i32 option"

datatype HTTPScaledObjectCreationStatus =
    Created | Terminated | Error | Pending | Terminating | Unknown | Ready

datatype HTTPScaledObjectConditionReason =
    ErrorCreatingAppScaledObject | AppScaledObjectCreated | TerminatingResources
  | AppScaledObjectTerminated | AppScaledObjectTerminationError | PendingCreation
  | HTTPScaledObjectIsReady

datatype ConditionStatus = ConditionTrue | ConditionFalse | ConditionUnknown

record HTTPScaledObjectCondition =
  cond_Timestamp :: string
  cond_Type :: HTTPScaledObjectCreationStatus
  cond_Status :: ConditionStatus
  cond_Reason :: HTTPScaledObjectConditionReason
  cond_Message :: string

record HTTPScaledObject =
  ho_Namespace :: string
  ho_Name :: string
  ho_ResourceVersion :: string
  ho_DeletionTimestamp :: "gotime option"
  ho_Finalizers :: "string list"
  ho_Spec :: HTTPScaledObjectSpec
  ho_Conditions :: "HTTPScaledObjectCondition list"   \<comment> \<open>\<open>Status.Conditions\<close>\<close>

record 'w Client =
  cl_GetHTTPScaledObject :: "ObjectKey \<Rightarrow> 'w \<Rightarrow> error + HTTPScaledObject"
  cl_GetScaledObject :: "ObjectKey \<Rightarrow> 'w \<Rightarrow> error + ScaledObject"
  cl_GetConfigMap :: "ObjectKey \<Rightarrow> 'w \<Rightarrow> error + ConfigMap"
  cl_Create :: "ScaledObject \<Rightarrow> 'w \<Rightarrow> 'w \<times> error option"
  cl_Patch :: "ScaledObject \<Rightarrow> 'w \<Rightarrow> 'w \<times> error option"
  cl_PatchConfigMap :: "ConfigMap \<Rightarrow> ConfigMap \<Rightarrow> 'w \<Rightarrow> 'w \<times> (error + ConfigMap)"
  cl_DeleteScaledObject :: "ObjectKey \<Rightarrow> 'w \<Rightarrow> 'w \<times> error option"
  cl_Update :: "HTTPScaledObject \<Rightarrow> 'w \<Rightarrow> 'w \<times> (error + HTTPScaledObject)"
  cl_UpdateStatus :: "HTTPScaledObject \<Rightarrow> 'w \<Rightarrow> 'w \<times> (error + HTTPScaledObject)"

section \<open>Configuration\<close>

record InterceptorCfg =
  ic_ServiceName :: string
  ic_ProxyPort :: i32
  ic_AdminPort :: i32

record ExternalScalerCfg =
  es_ServiceName :: string
  es_Port :: i32

record BaseCfg =
  base_TargetPendingRequests :: i32
  base_CurrentNamespace :: string
  base_WatchNamespace :: string

definition AppScaledObjectName :: "HTTPScaledObject \<Rightarrow> string go" where
  "AppScaledObjectName httpso =
     (case spec_ScaleTargetRef (ho_Spec httpso) of
        None \<Rightarrow> Panic ''invalid memory address or nil pointer dereference''
      | Some ref \<Rightarrow> Ret (ref_Deployment ref @ ''-app''))"

definition ExternalScaler_HostName :: "ExternalScalerCfg \<Rightarrow> string \<Rightarrow> string" where
  "ExternalScaler_HostName e namespace = es_ServiceName e @ ''.'' @ namespace @ '':'' @ fmt_d32 (es_Port e)"

definition Interceptor_AdminPortString :: "InterceptorCfg \<Rightarrow> string" where
  "Interceptor_AdminPortString i = fmt_d (scast (ic_AdminPort i))"

definition NewInterceptorFromEnv :: "(string \<Rightarrow> string) \<Rightarrow> error + InterceptorCfg" where
  "NewInterceptorFromEnv getenv =
     (case env_Get getenv ''KEDAHTTP_INTERCEPTOR_SERVICE'' of
        Inl err \<Rightarrow> Inl (Errorf (''missing '' @ [CHR 0x27] @ ''KEDAHTTP_INTERCEPTOR_SERVICE'' @ [CHR 0x27]))
      | Inr serviceName \<Rightarrow>
          (let adminPort = GetInt32Or getenv ''KEDAHTTP_INTERCEPTOR_ADMIN_PORT'' 8090;
               proxyPort = GetInt32Or getenv ''KEDAHTTP_INTERCEPTOR_PROXY_PORT'' 8091 in
           Inr \<lparr>ic_ServiceName = serviceName, ic_ProxyPort = proxyPort, ic_AdminPort = adminPort\<rparr>))"

definition NewExternalScalerFromEnv :: "(string \<Rightarrow> string) \<Rightarrow> error + ExternalScalerCfg" where
  "NewExternalScalerFromEnv getenv =
     (case env_Get getenv ''KEDAHTTP_OPERATOR_EXTERNAL_SCALER_SERVICE'' of
        Inl err \<Rightarrow> Inl (Errorf ''missing KEDAHTTP_EXTERNAL_SCALER_SERVICE'')
      | Inr serviceName \<Rightarrow>
          (let port = GetInt32Or getenv ''KEDAHTTP_OPERATOR_EXTERNAL_SCALER_PORT'' 8091 in
           Inr \<lparr>es_ServiceName = serviceName, es_Port = port\<rparr>))"

section \<open>Conditions\<close>

text \<open>
  \<open>now\<close> is the time each condition is created at, by its reason: every reason belongs to one
  place of the code.
\<close>

type_synonym stamps = "HTTPScaledObjectConditionReason \<Rightarrow> string"

definition CreateCondition ::
    "stamps \<Rightarrow> HTTPScaledObjectCreationStatus \<Rightarrow> ConditionStatus \<Rightarrow> HTTPScaledObjectConditionReason \<Rightarrow>
     HTTPScaledObjectCondition" where
  "CreateCondition now condType status reason =
     \<lparr>cond_Timestamp = now reason, cond_Type = condType, cond_Status = status, cond_Reason = reason,
      cond_Message = []\<rparr>"

definition SetMessage :: "HTTPScaledObjectCondition \<Rightarrow> string \<Rightarrow> HTTPScaledObjectCondition" where
  "SetMessage c message = c\<lparr>cond_Message := message\<rparr>"

definition AddCondition :: "HTTPScaledObject \<Rightarrow> HTTPScaledObjectCondition \<Rightarrow> HTTPScaledObject" where
  "AddCondition httpso condition = httpso\<lparr>ho_Conditions := ho_Conditions httpso @ [condition]\<rparr>"

definition SaveStatus :: "'w Client \<Rightarrow> HTTPScaledObject \<Rightarrow> 'w \<Rightarrow> 'w \<times> HTTPScaledObject" where
  "SaveStatus cl httpso w =
     (case cl_UpdateStatus cl httpso w of
        (w', Inl err) \<Rightarrow> (w', httpso)
      | (w', Inr httpso') \<Rightarrow> (w', httpso'))"

section \<open>The finalizer\<close>

definition httpScaledObjectFinalizer :: string where
  "httpScaledObjectFinalizer = ''httpscaledobject.http.keda.sh''"

fun contains :: "string list \<Rightarrow> string \<Rightarrow> bool" where
  "contains [] s = False"
| "contains (v # list) s = (if v = s then True else contains list s)"

text \<open>
  The loop ranges over the slice as it was at the start, of the indices \<open>is\<close> still to come, while
  its body shifts the same array \<open>arr\<close>; \<open>m\<close> is the length of the slice that \<open>list\<close> now is. Slicing
  \<open>list[i+1:]\<close> beyond that length panics.
\<close>

fun remove_loop :: "string \<Rightarrow> nat list \<Rightarrow> string list \<Rightarrow> nat \<Rightarrow> string list go" where
  "remove_loop s [] arr m = Ret (take m arr)"
| "remove_loop s (i # is) arr m =
     (if arr ! i = s then
        (if i + 1 > m then Panic ''slice bounds out of range''
         else remove_loop s is (take i arr @ drop (i + 1) (take m arr) @ drop (m - 1) arr) (m - 1))
      else remove_loop s is arr m)"

definition remove_string :: "string list \<Rightarrow> string \<Rightarrow> string list go" where
  "remove_string list s = remove_loop s [0..<length list] list (length list)"

definition ensureFinalizer :: "'w Client \<Rightarrow> HTTPScaledObject \<Rightarrow> 'w \<Rightarrow> 'w \<times> HTTPScaledObject \<times> error option" where
  "ensureFinalizer cl httpso w =
     (if \<not> contains (ho_Finalizers httpso) httpScaledObjectFinalizer then
        (let httpso' = httpso\<lparr>ho_Finalizers := ho_Finalizers httpso @ [httpScaledObjectFinalizer]\<rparr> in
         case cl_Update cl httpso' w of
           (w', Inl err) \<Rightarrow> (w', httpso', Some err)
         | (w', Inr httpso'') \<Rightarrow> (w', httpso'', None))
      else (w, httpso, None))"

definition finalizeScaledObject ::
    "'w Client \<Rightarrow> HTTPScaledObject \<Rightarrow> 'w \<Rightarrow> ('w \<times> HTTPScaledObject \<times> error option) go" where
  "finalizeScaledObject cl httpso w =
     (if contains (ho_Finalizers httpso) httpScaledObjectFinalizer then
        bind_go (remove_string (ho_Finalizers httpso) httpScaledObjectFinalizer) (\<lambda>fs.
          let httpso' = httpso\<lparr>ho_Finalizers := fs\<rparr> in
          case cl_Update cl httpso' w of
            (w', Inl err) \<Rightarrow> Ret (w', httpso', Some err)
          | (w', Inr httpso'') \<Rightarrow> Ret (w', httpso'', None))
      else Ret (w, httpso, None))"


section \<open>The routing table\<close>

definition updateRoutingMap :: "'w Client \<Rightarrow> string \<Rightarrow> Table \<Rightarrow> 'w \<Rightarrow> ('w \<times> error option) go" where
  "updateRoutingMap cl namespace table w =
     (case GetConfigMap (cl_GetConfigMap cl) namespace ConfigMapRoutingTableName w of
        Inl err \<Rightarrow> Ret (w, Some (Wrap err ''routing table ConfigMap fetch error''))
      | Inr routingConfigMap \<Rightarrow>
          bind_go (SaveTableToConfigMap table routingConfigMap) (\<lambda>(newCM, saveErr).
            (case saveErr of
               Some err \<Rightarrow> Ret (w, Some (Wrap err ''ConfigMap save error''))
             | None \<Rightarrow>
                 (case PatchConfigMap (cl_PatchConfigMap cl) routingConfigMap newCM w of
                    (w', Inl err) \<Rightarrow> Ret (w', Some (Wrap err ''saving routing table ConfigMap to Kubernetes''))
                  | (w', Inr _) \<Rightarrow> Ret (w', None)))))"

fun remove_targets :: "string list \<Rightarrow> Table \<Rightarrow> Table" where
  "remove_targets [] table = table"
| "remove_targets (host # hosts) table = remove_targets hosts (fst (Table_RemoveTarget host table))"

fun add_targets :: "string list \<Rightarrow> Target \<Rightarrow> Table \<Rightarrow> Table go" where
  "add_targets [] target table = Ret table"
| "add_targets (host # hosts) target table =
     bind_go (Table_AddTarget host target table) (\<lambda>(table', _). add_targets hosts target table')"

definition removeAndUpdateRoutingTable ::
    "'w Client \<Rightarrow> string list \<Rightarrow> string \<Rightarrow> Table \<Rightarrow> 'w \<Rightarrow> (Table \<times> 'w \<times> error option) go" where
  "removeAndUpdateRoutingTable cl hosts namespace table w =
     (let table' = remove_targets hosts table in
      bind_go (updateRoutingMap cl namespace table' w) (\<lambda>(w', err). Ret (table', w', err)))"

definition addAndUpdateRoutingTable ::
    "'w Client \<Rightarrow> string list \<Rightarrow> Target \<Rightarrow> string \<Rightarrow> Table \<Rightarrow> 'w \<Rightarrow> (Table \<times> 'w \<times> error option) go" where
  "addAndUpdateRoutingTable cl hosts target namespace table w =
     bind_go (add_targets hosts target table) (\<lambda>table'.
       bind_go (updateRoutingMap cl namespace table' w) (\<lambda>(w', err). Ret (table', w', err)))"

section \<open>The KEDA ScaledObject\<close>

definition IsNotFound :: "error \<Rightarrow> bool" where
  "IsNotFound err = (case err of StatusNotFound _ \<Rightarrow> True | _ \<Rightarrow> False)"

definition IsAlreadyExists :: "error \<Rightarrow> bool" where
  "IsAlreadyExists err = (case err of StatusAlreadyExists _ \<Rightarrow> True | _ \<Rightarrow> False)"

definition go_slice :: "'a list option \<Rightarrow> 'a list" where
  "go_slice xs = (case xs of None \<Rightarrow> [] | Some l \<Rightarrow> l)"

definition appScaledObject :: "string \<Rightarrow> HTTPScaledObject \<Rightarrow> ScaledObject go" where
  "appScaledObject externalScalerHostName httpso =
     (let minReplicaCount = (case spec_Replicas (ho_Spec httpso) of None \<Rightarrow> None | Some r \<Rightarrow> Min r);
          maxReplicaCount = (case spec_Replicas (ho_Spec httpso) of None \<Rightarrow> None | Some r \<Rightarrow> Max r) in
      case spec_ScaleTargetRef (ho_Spec httpso) of
        None \<Rightarrow> Panic ''invalid memory address or nil pointer dereference''
      | Some ref \<Rightarrow>
          Ret (NewScaledObject (ho_Namespace httpso) (ho_Name httpso @ ''-app'') (ref_Deployment ref)
            externalScalerHostName (go_slice (spec_Hosts (ho_Spec httpso))) minReplicaCount maxReplicaCount
            (spec_CooldownPeriod (ho_Spec httpso))))"

definition scaledObject_created :: "stamps \<Rightarrow> HTTPScaledObject \<Rightarrow> HTTPScaledObject" where
  "scaledObject_created now httpso =
     AddCondition httpso (SetMessage (CreateCondition now Created ConditionTrue AppScaledObjectCreated)
       ''App ScaledObject created'')"

definition createOrUpdateScaledObject ::
    "'w Client \<Rightarrow> stamps \<Rightarrow> string \<Rightarrow> HTTPScaledObject \<Rightarrow> 'w \<Rightarrow> ('w \<times> HTTPScaledObject \<times> error option) go" where
  "createOrUpdateScaledObject cl now externalScalerHostName httpso w =
     bind_go (appScaledObject externalScalerHostName httpso) (\<lambda>so.
       (case cl_Create cl so w of
          (w', None) \<Rightarrow> Ret (w', scaledObject_created now httpso, None)
        | (w', Some err) \<Rightarrow>
            if IsAlreadyExists err then
              (case cl_GetScaledObject cl (ho_Namespace httpso, so_Name so) w' of
                 Inl err \<Rightarrow> Ret (w', httpso, Some err)
               | Inr _ \<Rightarrow>
                   (case cl_Patch cl so w' of
                      (w'', Some err) \<Rightarrow> Ret (w'', httpso, Some err)
                    | (w'', None) \<Rightarrow> Ret (w'', scaledObject_created now httpso, None)))
            else
              Ret (w', AddCondition httpso (SetMessage
                (CreateCondition now Error ConditionFalse ErrorCreatingAppScaledObject) (error_text err)), Some err)))"

section \<open>Application resources\<close>

text \<open>\<open>deferred\<close> is the deferred \<open>SaveStatus\<close>, run on the object as it is when the function returns.\<close>

definition deferred ::
    "'w Client \<Rightarrow> Table \<times> 'w \<times> HTTPScaledObject \<times> error option \<Rightarrow> Table \<times> 'w \<times> HTTPScaledObject \<times> error option" where
  "deferred cl r =
     (case r of (table, w, httpso, err) \<Rightarrow>
        (case SaveStatus cl httpso w of (w', httpso') \<Rightarrow> (table, w', httpso', err)))"

text \<open>The end of the removal, after the ScaledObject is gone.\<close>

definition remove_routes ::
    "'w Client \<Rightarrow> stamps \<Rightarrow> BaseCfg \<Rightarrow> Table \<Rightarrow> HTTPScaledObject \<Rightarrow> 'w \<Rightarrow>
     (Table \<times> 'w \<times> HTTPScaledObject \<times> error option) go" where
  "remove_routes cl now baseConfig table httpso w =
     (let httpso' = AddCondition httpso (CreateCondition now Terminated ConditionTrue AppScaledObjectTerminated) in
      bind_go (removeAndUpdateRoutingTable cl (go_slice (spec_Hosts (ho_Spec httpso')))
          (base_CurrentNamespace baseConfig) table w)
        (\<lambda>(table', w', err). Ret (deferred cl (table', w', httpso', err))))"

definition removeApplicationResources ::
    "'w Client \<Rightarrow> stamps \<Rightarrow> BaseCfg \<Rightarrow> Table \<Rightarrow> HTTPScaledObject \<Rightarrow> 'w \<Rightarrow>
     (Table \<times> 'w \<times> HTTPScaledObject \<times> error option) go" where
  "removeApplicationResources cl now baseConfig table httpso w =
     (let httpso1 = AddCondition httpso (SetMessage
            (CreateCondition now Terminating ConditionUnknown TerminatingResources) ''Received termination signal'') in
      bind_go (AppScaledObjectName httpso1) (\<lambda>name.
        (case cl_DeleteScaledObject cl (ho_Namespace httpso1, name) w of
           (w1, None) \<Rightarrow> remove_routes cl now baseConfig table httpso1 w1
         | (w1, Some err) \<Rightarrow>
             if IsNotFound err then remove_routes cl now baseConfig table httpso1 w1
             else
               Ret (deferred cl (table, w1, AddCondition httpso1 (SetMessage
                 (CreateCondition now Error ConditionFalse AppScaledObjectTerminationError) (error_text err)), Some err)))))"

definition app_target :: "BaseCfg \<Rightarrow> HTTPScaledObject \<Rightarrow> Target go" where
  "app_target baseConfig httpso =
     (let targetPendingReqs =
        (case spec_TargetPendingRequests (ho_Spec httpso) of
           None \<Rightarrow> base_TargetPendingRequests baseConfig | Some tpr \<Rightarrow> tpr) in
      case spec_ScaleTargetRef (ho_Spec httpso) of
        None \<Rightarrow> Panic ''invalid memory address or nil pointer dereference''
      | Some ref \<Rightarrow> Ret (NewTarget (ho_Namespace httpso) (ref_Service ref) (scast (ref_Port ref))
          (ref_Deployment ref) targetPendingReqs))"

definition createOrUpdateApplicationResources ::
    "'w Client \<Rightarrow> stamps \<Rightarrow> BaseCfg \<Rightarrow> ExternalScalerCfg \<Rightarrow> Table \<Rightarrow> HTTPScaledObject \<Rightarrow> 'w \<Rightarrow>
     (Table \<times> 'w \<times> HTTPScaledObject \<times> error option) go" where
  "createOrUpdateApplicationResources cl now baseConfig externalScalerConfig table httpso w =
     (let httpso1 = AddCondition httpso (SetMessage
            (CreateCondition now Pending ConditionUnknown PendingCreation) ''Identified HTTPScaledObject creation signal'') in
      bind_go (createOrUpdateScaledObject cl now
          (ExternalScaler_HostName externalScalerConfig (base_CurrentNamespace baseConfig)) httpso1 w)
        (\<lambda>(w1, httpso2, err).
          (case err of
             Some err \<Rightarrow> Ret (deferred cl (table, w1, httpso2, Some err))
           | None \<Rightarrow>
               bind_go (app_target baseConfig httpso2) (\<lambda>target.
                 bind_go (addAndUpdateRoutingTable cl (go_slice (spec_Hosts (ho_Spec httpso2))) target
                     (base_CurrentNamespace baseConfig) table w1)
                   (\<lambda>(table', w2, err). Ret (deferred cl (table', w2, httpso2, err)))))))"

section \<open>Reconciliation\<close>

definition sanitizeHosts :: "HTTPScaledObject \<Rightarrow> HTTPScaledObject \<times> error option" where
  "sanitizeHosts httpso =
     (case (spec_Hosts (ho_Spec httpso), spec_Host (ho_Spec httpso)) of
        (Some _, Some _) \<Rightarrow> (httpso, Some (Errorf ''mutually exclusive fields Error''))
      | (None, None) \<Rightarrow> (httpso, Some (Errorf ''no host specified Error''))
      | (None, Some h) \<Rightarrow>
          (httpso\<lparr>ho_Spec := (ho_Spec httpso)\<lparr>spec_Hosts := Some [h], spec_Host := None\<rparr>\<rparr>, None)
      | (Some _, None) \<Rightarrow> (httpso, None))"

record HTTPScaledObjectReconciler =
  rc_ExternalScalerConfig :: ExternalScalerCfg
  rc_BaseConfig :: BaseCfg

text \<open>\<open>RequeueAfter\<close>, zero in an empty result, and the error.\<close>

type_synonym reconcile_result = "gint \<times> error option"

definition Reconcile ::
    "HTTPScaledObjectReconciler \<Rightarrow> 'w Client \<Rightarrow> stamps \<Rightarrow> ObjectKey \<Rightarrow> Table \<Rightarrow> 'w \<Rightarrow>
     (Table \<times> 'w \<times> reconcile_result) go" where
  "Reconcile r cl now req table w =
     (case cl_GetHTTPScaledObject cl req w of
        Inl err \<Rightarrow> if IsNotFound err then Ret (table, w, 0, None) else Ret (table, w, 500 * millisecond, Some err)
      | Inr httpso \<Rightarrow>
          if ho_DeletionTimestamp httpso \<noteq> None then
            bind_go (removeApplicationResources cl now (rc_BaseConfig r) table httpso w)
              (\<lambda>(table', w1, httpso1, removeErr).
                (case removeErr of
                   Some err \<Rightarrow> Ret (table', w1, 1000 * millisecond, Some err)
                 | None \<Rightarrow>
                     bind_go (finalizeScaledObject cl httpso1 w1) (\<lambda>(w2, _, err). Ret (table', w2, 0, err))))
          else
            (case ensureFinalizer cl httpso w of (w1, httpso1, finErr) \<Rightarrow>
               (case finErr of
                  Some err \<Rightarrow> Ret (table, w1, 0, Some err)
                | None \<Rightarrow>
                    (case sanitizeHosts httpso1 of (httpso2, hostErr) \<Rightarrow>
                       (case hostErr of
                          Some err \<Rightarrow> Ret (table, w1, 0, Some err)
                        | None \<Rightarrow>
                            bind_go (createOrUpdateApplicationResources cl now (rc_BaseConfig r)
                                (rc_ExternalScalerConfig r) table httpso2 w1)
                              (\<lambda>(table', w2, httpso3, createErr).
                                (case createErr of
                                   Some err \<Rightarrow>
                                     bind_go (removeApplicationResources cl now (rc_BaseConfig r) table' httpso3 w2)
                                       (\<lambda>(table'', w3, _, _). Ret (table'', w3, 0, Some err))
                                 | None \<Rightarrow>
                                     (case SaveStatus cl (AddCondition httpso3 (SetMessage
                                         (CreateCondition now Ready ConditionTrue HTTPScaledObjectIsReady)
                                         ''Finished object creation'')) w2 of
                                        (w3, _) \<Rightarrow> Ret (table', w3, 0, None)))))))))"

section \<open>Pings, start-up and admin routes\<close>

text \<open>The error group returns the error of the request that failed first; here, of the first endpoint.\<close>

definition pingInterceptors ::
    "(ObjectKey \<Rightarrow> error + Endpoints) \<Rightarrow> (string \<Rightarrow> error + string) \<Rightarrow> string \<Rightarrow> string \<Rightarrow> string \<Rightarrow> error option" where
  "pingInterceptors get httpGet ns interceptorSvcName interceptorPort =
     (case EndpointsForService ns interceptorSvcName interceptorPort (EndpointsFuncForControllerClient get) of
        Inl err \<Rightarrow> Some (Wrap err ''pingInterceptors'')
      | Inr endpointURLs \<Rightarrow>
          (case List.find isl (map (\<lambda>u. httpGet (URL_String u @ ''/routing_ping'')) endpointURLs) of
             Some (Inl err) \<Rightarrow> Some err
           | _ \<Rightarrow> None))"

definition ensureConfigMap ::
    "(error + (string \<Rightarrow> string \<Rightarrow> error + ConfigMap)) \<Rightarrow> string \<Rightarrow> string \<Rightarrow> error option" where
  "ensureConfigMap newClientset ns name =
     (case newClientset of
        Inl err \<Rightarrow> Some err
      | Inr get \<Rightarrow> (case get ns name of Inl err \<Rightarrow> Some err | Inr _ \<Rightarrow> None))"

definition operator_admin_mux :: "json list \<Rightarrow> table_handler ServeMux go" where
  "operator_admin_mux configs =
     bind_go (AddFetchRoute []) (\<lambda>m1.
     bind_go (Handle ''/config'' (\<lambda>t w. (t, encode_or_500 (JObj [(''configs'', JArr configs)]) w)) m1) (\<lambda>m2.
     Handle ''/version'' (\<lambda>t w. (t, encode_or_500 (JObj [(''version'', JStr Version)]) w)) m2))"


section \<open>Targets of many hosts\<close>

lemma add_targets_lookup:
  assumes "tm t \<noteq> None"
  obtains t' where "add_targets hosts tg t = Ret t'" and "tm t' \<noteq> None"
    and "\<And>h. map_get (tm t') h =
      (case map_get (tm t) h of Some x \<Rightarrow> Some x | None \<Rightarrow> if h \<in> set hosts then Some tg else None)"
proof -
  have "\<exists>t'. add_targets hosts tg t = Ret t' \<and> tm t' \<noteq> None \<and> (\<forall>h. map_get (tm t') h =
      (case map_get (tm t) h of Some x \<Rightarrow> Some x | None \<Rightarrow> if h \<in> set hosts then Some tg else None))"
    using assms
  proof (induction hosts arbitrary: t)
    case (Cons host hosts)
    from Cons.prems obtain f where f: "tm t = Some f" by auto
    obtain t1 e1 where t1: "Table_AddTarget host tg t = Ret (t1, e1)" "tm t1 \<noteq> None"
      "\<And>h. map_get (tm t1) h = (case map_get (tm t) h of Some x \<Rightarrow> Some x | None \<Rightarrow> if h = host then Some tg else None)"
    proof (cases "fmlookup f host")
      case None
      with f show thesis by (intro that [of "t\<lparr>tm := Some (fmupd host tg f)\<rparr>" None])
          (auto simp: Table_AddTarget_def split: option.split)
    next
      case (Some x)
      with f show thesis by (intro that [of t]) (auto simp: Table_AddTarget_def split: option.split)
    qed
    from Cons.IH [OF t1(2)] obtain t' where t': "add_targets hosts tg t1 = Ret t'" "tm t' \<noteq> None"
      "\<And>h. map_get (tm t') h = (case map_get (tm t1) h of Some x \<Rightarrow> Some x | None \<Rightarrow> if h \<in> set hosts then Some tg else None)"
      by blast
    have "map_get (tm t') h =
        (case map_get (tm t) h of Some x \<Rightarrow> Some x | None \<Rightarrow> if h \<in> set (host # hosts) then Some tg else None)" for h
      unfolding t'(3) t1(3) by (cases "map_get (tm t) h") auto
    with t' t1(1) show ?case by simp
  qed (auto split: option.split)
  then show thesis using that by blast
qed

lemma remove_targets_lookup:
  "map_get (tm (remove_targets hosts t)) h = (if h \<in> set hosts then None else map_get (tm t) h)"
  by (induction hosts t rule: remove_targets.induct)
    (auto simp: Table_RemoveTarget_def split: option.splits)

lemma valid_table_iff: "valid_table t \<longleftrightarrow> (\<forall>k v. map_get (tm t) k = Some v \<longrightarrow> valid_utf8 k \<and> valid_target v)"
  by (cases "tm t") (auto simp: valid_table_def list_all_iff set_sorted_list_of_fmap)

lemma valid_remove_targets: "valid_table t \<Longrightarrow> valid_table (remove_targets hosts t)"
  by (simp add: valid_table_iff remove_targets_lookup)

lemma remove_targets_not_nil: "tm (remove_targets hosts t) = None \<longleftrightarrow> tm t = None"
  by (induction hosts t rule: remove_targets.induct)
    (auto simp: Table_RemoveTarget_def map_del_def split: option.splits)

section \<open>The API server\<close>

text \<open>
  What is assumed of the API server: a ConfigMap read has the name asked for; a merge patch computed
  from the object as it is on the server makes it the new object; the calls for other kinds leave
  ConfigMaps alone; and an update answers with the specification that was sent, under the same name.
\<close>

definition api_server :: "'w Client \<Rightarrow> bool" where
  "api_server cl \<longleftrightarrow>
     (\<forall>k w cm. cl_GetConfigMap cl k w = Inr cm \<longrightarrow> (cm_Namespace cm, cm_Name cm) = k) \<and>
     (\<forall>k w w' old new patched. cl_GetConfigMap cl k w = Inr old \<longrightarrow> (cm_Namespace new, cm_Name new) = k \<longrightarrow>
        cl_PatchConfigMap cl new old w = (w', Inr patched) \<longrightarrow> cl_GetConfigMap cl k w' = Inr new) \<and>
     (\<forall>k w so. cl_GetConfigMap cl k (fst (cl_Create cl so w)) = cl_GetConfigMap cl k w) \<and>
     (\<forall>k w so. cl_GetConfigMap cl k (fst (cl_Patch cl so w)) = cl_GetConfigMap cl k w) \<and>
     (\<forall>k w k'. cl_GetConfigMap cl k (fst (cl_DeleteScaledObject cl k' w)) = cl_GetConfigMap cl k w) \<and>
     (\<forall>k w ho. cl_GetConfigMap cl k (fst (cl_Update cl ho w)) = cl_GetConfigMap cl k w) \<and>
     (\<forall>k w ho. cl_GetConfigMap cl k (fst (cl_UpdateStatus cl ho w)) = cl_GetConfigMap cl k w) \<and>
     (\<forall>w w' ho ho'. cl_Update cl ho w = (w', Inr ho') \<longrightarrow>
        ho_Spec ho' = ho_Spec ho \<and> ho_Namespace ho' = ho_Namespace ho \<and> ho_Name ho' = ho_Name ho)"

lemma api_name: "api_server cl \<Longrightarrow> cl_GetConfigMap cl k w = Inr cm \<Longrightarrow> (cm_Namespace cm, cm_Name cm) = k"
  unfolding api_server_def by (elim conjE) metis

lemma api_patch:
  "api_server cl \<Longrightarrow> cl_GetConfigMap cl k w = Inr old \<Longrightarrow> (cm_Namespace new, cm_Name new) = k \<Longrightarrow>
   cl_PatchConfigMap cl new old w = (w', Inr patched) \<Longrightarrow> cl_GetConfigMap cl k w' = Inr new"
  unfolding api_server_def by (elim conjE) metis

lemma api_keeps:
  assumes "api_server cl"
  shows "cl_GetConfigMap cl k (fst (cl_Create cl so w)) = cl_GetConfigMap cl k w"
    and "cl_GetConfigMap cl k (fst (cl_Patch cl so w)) = cl_GetConfigMap cl k w"
    and "cl_GetConfigMap cl k (fst (cl_DeleteScaledObject cl k' w)) = cl_GetConfigMap cl k w"
    and "cl_GetConfigMap cl k (fst (cl_Update cl ho w)) = cl_GetConfigMap cl k w"
    and "cl_GetConfigMap cl k (fst (cl_UpdateStatus cl ho w)) = cl_GetConfigMap cl k w"
  using assms unfolding api_server_def by blast+

lemma api_update:
  "api_server cl \<Longrightarrow> cl_Update cl ho w = (w', Inr ho') \<Longrightarrow>
   ho_Spec ho' = ho_Spec ho \<and> ho_Namespace ho' = ho_Namespace ho \<and> ho_Name ho' = ho_Name ho"
  unfolding api_server_def by blast

text \<open>The routing table that interceptors and scalers read from the ConfigMap.\<close>

definition published :: "'w Client \<Rightarrow> string \<Rightarrow> 'w \<Rightarrow> (error + Table)" where
  "published cl ns w =
     (case cl_GetConfigMap cl (ns, ConfigMapRoutingTableName) w of
        Inl err \<Rightarrow> Inl err | Inr cm \<Rightarrow> FetchTableFromConfigMap cm)"

lemma updateRoutingMap_published:
  assumes "api_server cl" "valid_table t" "updateRoutingMap cl ns t w = Ret (w', None)"
  shows "published cl ns w' = Inr t"
proof -
  let ?k = "(ns, ConfigMapRoutingTableName)"
  from assms(3) obtain cm newCM patched where cm: "cl_GetConfigMap cl ?k w = Inr cm"
    and save: "SaveTableToConfigMap t cm = Ret (newCM, None)"
    and patch: "cl_PatchConfigMap cl newCM cm w = (w', Inr patched)"
    by (cases "SaveTableToConfigMap t (projr (cl_GetConfigMap cl ?k w))")
      (auto simp: updateRoutingMap_def GetConfigMap_def PatchConfigMap_def split: sum.splits option.splits prod.splits)
  have "(cm_Namespace newCM, cm_Name newCM) = (cm_Namespace cm, cm_Name cm)"
    using save by (cases "cm_Data cm") (auto simp: SaveTableToConfigMap_def Table_MarshalJSON_def)
  also have "\<dots> = ?k" by (rule api_name [OF assms(1) cm])
  finally have "cl_GetConfigMap cl ?k w' = Inr newCM"
    using api_patch [OF assms(1) cm _ patch] by simp
  then show ?thesis
    using Fetch_Save [OF assms(2) save] by (simp add: published_def)
qed

lemma SaveStatus_published: "api_server cl \<Longrightarrow> published cl ns (fst (SaveStatus cl h w)) = published cl ns w"
proof -
  assume "api_server cl"
  moreover have "fst (SaveStatus cl h w) = fst (cl_UpdateStatus cl h w)"
    by (auto simp: SaveStatus_def split: prod.splits sum.splits)
  ultimately show ?thesis by (simp add: published_def api_keeps)
qed

lemma Update_published: "api_server cl \<Longrightarrow> published cl ns (fst (cl_Update cl h w)) = published cl ns w"
  by (simp add: published_def api_keeps)

lemma deferred_published:
  "api_server cl \<Longrightarrow> deferred cl (t, w, h, e) = (t', w', h', e') \<Longrightarrow> t' = t \<and> e' = e \<and> published cl ns w' = published cl ns w"
  using SaveStatus_published [of cl ns h w] by (auto simp: deferred_def split: prod.splits)


section \<open>What a reconciliation publishes\<close>

definition effective_hosts :: "HTTPScaledObjectSpec \<Rightarrow> string list" where
  "effective_hosts spec =
     (case spec_Hosts spec of Some hs \<Rightarrow> hs | None \<Rightarrow> (case spec_Host spec of Some h \<Rightarrow> [h] | None \<Rightarrow> []))"

definition valid_object :: "HTTPScaledObject \<Rightarrow> bool" where
  "valid_object httpso \<longleftrightarrow> valid_utf8 (ho_Namespace httpso) \<and> list_all valid_utf8 (effective_hosts (ho_Spec httpso)) \<and>
     (case spec_ScaleTargetRef (ho_Spec httpso) of
        None \<Rightarrow> True | Some ref \<Rightarrow> valid_utf8 (ref_Service ref) \<and> valid_utf8 (ref_Deployment ref))"

lemma AddCondition_simps [simp]:
  "ho_Spec (AddCondition h c) = ho_Spec h" "ho_Namespace (AddCondition h c) = ho_Namespace h"
  "ho_Name (AddCondition h c) = ho_Name h" "ho_Finalizers (AddCondition h c) = ho_Finalizers h"
  by (simp_all add: AddCondition_def)

lemma removeAndUpdate_result:
  assumes "removeAndUpdateRoutingTable cl hosts ns t w = Ret (t', w', e)"
  shows "t' = remove_targets hosts t \<and> updateRoutingMap cl ns t' w = Ret (w', e)"
  using assms by (cases "updateRoutingMap cl ns (remove_targets hosts t) w")
    (auto simp: removeAndUpdateRoutingTable_def Let_def)

lemma addAndUpdate_result:
  assumes "addAndUpdateRoutingTable cl hosts tg ns t w = Ret (t', w', e)"
  shows "add_targets hosts tg t = Ret t' \<and> updateRoutingMap cl ns t' w = Ret (w', e)"
proof (cases "add_targets hosts tg t")
  case (Ret t1)
  then show ?thesis
    using assms by (cases "updateRoutingMap cl ns t1 w") (auto simp: addAndUpdateRoutingTable_def)
qed (use assms in \<open>simp add: addAndUpdateRoutingTable_def\<close>)

lemma remove_routes_result:
  assumes "api_server cl" "valid_table t" "remove_routes cl now base t h w = Ret (t', w', h', None)"
  shows "t' = remove_targets (go_slice (spec_Hosts (ho_Spec h))) t \<and>
    published cl (base_CurrentNamespace base) w' = Inr t'"
proof -
  from assms(3) obtain t1 w1 e1 h1 where
    rem: "removeAndUpdateRoutingTable cl (go_slice (spec_Hosts (ho_Spec h))) (base_CurrentNamespace base) t w = Ret (t1, w1, e1)"
    and d: "deferred cl (t1, w1, h1, e1) = (t', w', h', None)"
    by (cases "removeAndUpdateRoutingTable cl (go_slice (spec_Hosts (ho_Spec h))) (base_CurrentNamespace base) t w")
      (auto simp: remove_routes_def Let_def)
  note d' = deferred_published [OF assms(1) d, of "base_CurrentNamespace base"]
  note rem' = removeAndUpdate_result [OF rem]
  then have "published cl (base_CurrentNamespace base) w1 = Inr t1"
    using d' by (intro updateRoutingMap_published [OF assms(1)]) (auto intro: valid_remove_targets assms(2))
  with d' rem' show ?thesis by simp
qed

lemma removeApplicationResources_result:
  assumes "api_server cl" "valid_table t" "removeApplicationResources cl now base t h w = Ret (t', w', h', None)"
  shows "t' = remove_targets (go_slice (spec_Hosts (ho_Spec h))) t \<and>
    published cl (base_CurrentNamespace base) w' = Inr t'"
proof -
  from assms(3) obtain h1 w1 where "remove_routes cl now base t h1 w1 = Ret (t', w', h', None)" "ho_Spec h1 = ho_Spec h"
    by (cases "AppScaledObjectName (AddCondition h (SetMessage
            (CreateCondition now Terminating ConditionUnknown TerminatingResources) ''Received termination signal''))")
      (auto simp: removeApplicationResources_def deferred_def Let_def split: prod.splits option.splits if_splits)
  with remove_routes_result [OF assms(1,2)] show ?thesis by metis
qed

lemma createOrUpdateScaledObject_keeps:
  assumes "createOrUpdateScaledObject cl now host h w = Ret (w', h', e)"
  shows "ho_Spec h' = ho_Spec h \<and> ho_Namespace h' = ho_Namespace h"
  using assms by (cases "appScaledObject host h")
    (auto simp: createOrUpdateScaledObject_def scaledObject_created_def split: prod.splits option.splits sum.splits if_splits)

lemma app_target_cong:
  "ho_Spec h = ho_Spec h' \<Longrightarrow> ho_Namespace h = ho_Namespace h' \<Longrightarrow> app_target base h = app_target base h'"
  by (simp add: app_target_def split: option.split)

lemma createOrUpdateApplicationResources_result:
  assumes "api_server cl" "createOrUpdateApplicationResources cl now base es t h w = Ret (t', w', h', None)"
  shows "\<exists>tg. app_target base h = Ret tg \<and> add_targets (go_slice (spec_Hosts (ho_Spec h))) tg t = Ret t' \<and>
    (valid_table t' \<longrightarrow> published cl (base_CurrentNamespace base) w' = Inr t')"
proof -
  let ?h1 = "AddCondition h (SetMessage (CreateCondition now Pending ConditionUnknown PendingCreation)
      ''Identified HTTPScaledObject creation signal'')"
  let ?es = "ExternalScaler_HostName es (base_CurrentNamespace base)"
  from assms(2) obtain w1 h2 e1 where so: "createOrUpdateScaledObject cl now ?es ?h1 w = Ret (w1, h2, e1)"
    by (cases "createOrUpdateScaledObject cl now ?es ?h1 w")
      (auto simp: createOrUpdateApplicationResources_def Let_def)
  have keeps: "ho_Spec h2 = ho_Spec h" "ho_Namespace h2 = ho_Namespace h"
    using createOrUpdateScaledObject_keeps [OF so] by simp_all
  have "e1 = None"
    using assms(2) so by (cases e1) (auto simp: createOrUpdateApplicationResources_def deferred_def Let_def split: prod.splits)
  with assms(2) so obtain tg t1 w2 e2 where tg: "app_target base h2 = Ret tg"
    and add: "addAndUpdateRoutingTable cl (go_slice (spec_Hosts (ho_Spec h))) tg (base_CurrentNamespace base) t w1 = Ret (t1, w2, e2)"
    and d: "deferred cl (t1, w2, h2, e2) = (t', w', h', None)"
    by (cases "app_target base h2";
        cases "addAndUpdateRoutingTable cl (go_slice (spec_Hosts (ho_Spec h))) (case app_target base h2 of Ret x \<Rightarrow> x)
          (base_CurrentNamespace base) t w1")
      (auto simp: createOrUpdateApplicationResources_def Let_def keeps)
  note d' = deferred_published [OF assms(1) d, of "base_CurrentNamespace base"]
  note add' = addAndUpdate_result [OF add]
  have "published cl (base_CurrentNamespace base) w2 = Inr t1" if "valid_table t1"
    using updateRoutingMap_published [OF assms(1) that, of "base_CurrentNamespace base" w1 w2] add' d' by simp
  with add' d' tg app_target_cong [OF keeps] show ?thesis by simp
qed

lemma valid_add_targets:
  assumes "valid_table t" "tm t \<noteq> None" "add_targets hosts tg t = Ret t'" "valid_target tg" "list_all valid_utf8 hosts"
  shows "valid_table t'"
proof -
  obtain t1 where "add_targets hosts tg t = Ret t1"
    and "\<And>h. map_get (tm t1) h = (case map_get (tm t) h of Some x \<Rightarrow> Some x | None \<Rightarrow> if h \<in> set hosts then Some tg else None)"
    using add_targets_lookup [OF assms(2)] by metis
  with assms show ?thesis
    by (auto simp: valid_table_iff list_all_iff split: option.splits if_splits)
qed


lemma sanitizeHosts_ok:
  assumes "sanitizeHosts h = (h', None)"
  shows "go_slice (spec_Hosts (ho_Spec h')) = effective_hosts (ho_Spec h) \<and> ho_Namespace h' = ho_Namespace h \<and>
    app_target base h' = app_target base h"
  using assms by (auto simp: sanitizeHosts_def go_slice_def effective_hosts_def app_target_def split: option.splits)

lemma ensureFinalizer_keeps:
  assumes "api_server cl" "ensureFinalizer cl h w = (w', h', None)"
  shows "ho_Spec h' = ho_Spec h \<and> ho_Namespace h' = ho_Namespace h"
  using assms api_update [OF assms(1)]
  by (fastforce simp: ensureFinalizer_def Let_def split: if_splits prod.splits sum.splits)

lemma app_target_fields:
  assumes "app_target base h = Ret tg"
  shows "\<exists>ref. spec_ScaleTargetRef (ho_Spec h) = Some ref \<and> Namespace tg = ho_Namespace h \<and> Service tg = ref_Service ref \<and>
    sint (Port tg) = sint (ref_Port ref) \<and> Deployment tg = ref_Deployment ref \<and>
    TargetPendingRequests tg = (case spec_TargetPendingRequests (ho_Spec h) of
      None \<Rightarrow> base_TargetPendingRequests base | Some n \<Rightarrow> n)"
  using assms by (auto simp: app_target_def NewTarget_def sint_scast_32 Let_def split: option.splits)

lemma valid_app_target: "valid_object h \<Longrightarrow> app_target base h = Ret tg \<Longrightarrow> valid_target tg"
  by (auto simp: valid_object_def app_target_def valid_target_def NewTarget_def Let_def split: option.splits)

lemma Reconcile_live:
  assumes api: "api_server cl" and get: "cl_GetHTTPScaledObject cl req w = Inr httpso"
    and live: "ho_DeletionTimestamp httpso = None"
    and ok: "Reconcile r cl now req t w = Ret (t', w', ra, None)"
  shows "\<exists>tg. app_target (rc_BaseConfig r) httpso = Ret tg \<and> add_targets (effective_hosts (ho_Spec httpso)) tg t = Ret t' \<and>
    (valid_table t' \<longrightarrow> published cl (base_CurrentNamespace (rc_BaseConfig r)) w' = Inr t')"
proof -
  obtain w1 h1 e1 where fin: "ensureFinalizer cl httpso w = (w1, h1, e1)" by (cases "ensureFinalizer cl httpso w")
  then have "e1 = None" using ok get live by (cases e1) (auto simp: Reconcile_def)
  obtain h2 e2 where san: "sanitizeHosts h1 = (h2, e2)" by (cases "sanitizeHosts h1")
  then have "e2 = None" using ok get live fin \<open>e1 = None\<close> by (cases e2) (auto simp: Reconcile_def)
  let ?create = "createOrUpdateApplicationResources cl now (rc_BaseConfig r) (rc_ExternalScalerConfig r) t h2 w1"
  obtain t1 w2 h3 e3 where cr: "?create = Ret (t1, w2, h3, e3)"
    using ok get live fin san \<open>e1 = None\<close> \<open>e2 = None\<close> by (cases ?create) (auto simp: Reconcile_def)
  have "e3 = None"
  proof (cases e3)
    case (Some err)
    then show ?thesis
      using ok get live fin san cr \<open>e1 = None\<close> \<open>e2 = None\<close>
      by (cases "removeApplicationResources cl now (rc_BaseConfig r) t1 h3 w2") (auto simp: Reconcile_def)
  qed
  then obtain h4 h5 where "t' = t1" "SaveStatus cl h4 w2 = (w', h5)"
    using ok get live fin san cr \<open>e1 = None\<close> \<open>e2 = None\<close> by (auto simp: Reconcile_def split: prod.splits)
  then have end_: "t' = t1" "w' = fst (SaveStatus cl h4 w2)" by simp_all
  have keep: "ho_Spec h1 = ho_Spec httpso" "ho_Namespace h1 = ho_Namespace httpso"
    using ensureFinalizer_keeps [OF api] fin \<open>e1 = None\<close> by simp_all
  have "effective_hosts (ho_Spec httpso) = go_slice (spec_Hosts (ho_Spec h2))"
    "app_target (rc_BaseConfig r) httpso = app_target (rc_BaseConfig r) h2"
    using sanitizeHosts_ok [of h1 h2] san \<open>e2 = None\<close> keep app_target_cong [OF keep] by auto
  with createOrUpdateApplicationResources_result [OF api, of now "rc_BaseConfig r" "rc_ExternalScalerConfig r" t h2 w1 t1 w2 h3]
    cr \<open>e3 = None\<close> end_ SaveStatus_published [OF api]
  show ?thesis by simp
qed

lemma Reconcile_routes:
  assumes "api_server cl"
    and "cl_GetHTTPScaledObject cl req w = Inr httpso" "ho_DeletionTimestamp httpso = None"
    and "valid_object httpso" "valid_table t" "tm t \<noteq> None"
    and "Reconcile r cl now req t w = Ret (t', w', ra, None)"
  shows "\<exists>tg. app_target (rc_BaseConfig r) httpso = Ret tg \<and>
    (\<forall>h. map_get (tm t') h = (case map_get (tm t) h of
       Some old \<Rightarrow> Some old
     | None \<Rightarrow> if h \<in> set (effective_hosts (ho_Spec httpso)) then Some tg else None)) \<and>
    published cl (base_CurrentNamespace (rc_BaseConfig r)) w' = Inr t'"
proof -
  from Reconcile_live [OF assms(1-3,7)] obtain tg where tg: "app_target (rc_BaseConfig r) httpso = Ret tg"
    and add: "add_targets (effective_hosts (ho_Spec httpso)) tg t = Ret t'"
    and pub: "valid_table t' \<longrightarrow> published cl (base_CurrentNamespace (rc_BaseConfig r)) w' = Inr t'"
    by blast
  have "valid_table t'"
    using valid_add_targets [OF assms(5,6) add valid_app_target [OF assms(4) tg]] assms(4) by (simp add: valid_object_def)
  moreover obtain t1 where "add_targets (effective_hosts (ho_Spec httpso)) tg t = Ret t1"
    "\<And>h. map_get (tm t1) h = (case map_get (tm t) h of
       Some old \<Rightarrow> Some old | None \<Rightarrow> if h \<in> set (effective_hosts (ho_Spec httpso)) then Some tg else None)"
    using add_targets_lookup [OF assms(6)] by metis
  ultimately show ?thesis using tg add pub by auto
qed

text \<open>
  C10: A reconciliation that succeeds publishes its hosts. For a live object, every host it names,
  by \<open>hosts\<close> or by the deprecated \<open>host\<close>, is routed afterwards, unless the host was routed before, to
  the service, port and deployment of its scale target in its own namespace, with its target for
  pending requests or the operator's default; all other routes are kept; and the ConfigMap then
  holds exactly the operator's table, so that is what interceptors and scalers will read.
\<close>

theorem Reconcile_publishes:
  assumes "api_server cl"
    and "cl_GetHTTPScaledObject cl req w = Inr httpso" "ho_DeletionTimestamp httpso = None"
    and "valid_object httpso" "valid_table t" "tm t \<noteq> None"
    and "Reconcile r cl now req t w = Ret (t', w', ra, None)"
  shows "\<exists>ref tg. spec_ScaleTargetRef (ho_Spec httpso) = Some ref \<and>
    Namespace tg = ho_Namespace httpso \<and> Service tg = ref_Service ref \<and> sint (Port tg) = sint (ref_Port ref) \<and>
    Deployment tg = ref_Deployment ref \<and>
    TargetPendingRequests tg = (case spec_TargetPendingRequests (ho_Spec httpso) of
      None \<Rightarrow> base_TargetPendingRequests (rc_BaseConfig r) | Some n \<Rightarrow> n) \<and>
    (\<forall>h. map_get (tm t') h = (case map_get (tm t) h of
       Some old \<Rightarrow> Some old
     | None \<Rightarrow> if h \<in> set (effective_hosts (ho_Spec httpso)) then Some tg else None)) \<and>
    published cl (base_CurrentNamespace (rc_BaseConfig r)) w' = Inr t'"
proof -
  from Reconcile_routes [OF assms] obtain tg where tg: "app_target (rc_BaseConfig r) httpso = Ret tg"
    and rest: "\<forall>h. map_get (tm t') h = (case map_get (tm t) h of
       Some old \<Rightarrow> Some old
     | None \<Rightarrow> if h \<in> set (effective_hosts (ho_Spec httpso)) then Some tg else None)"
    "published cl (base_CurrentNamespace (rc_BaseConfig r)) w' = Inr t'" by blast
  from app_target_fields [OF tg] rest show ?thesis by blast
qed

section \<open>An API server in memory\<close>

text \<open>
  A client of a server that keeps the three kinds of objects in maps, to show that the hypotheses
  can hold and to run the reconciler: an update replaces everything but the status and drops an
  object that is being deleted and has no finalizers left; a status update changes the status only.
\<close>

record api_state =
  st_ho :: "ObjectKey \<Rightarrow> HTTPScaledObject option"
  st_so :: "ObjectKey \<Rightarrow> ScaledObject option"
  st_cm :: "ObjectKey \<Rightarrow> ConfigMap option"

definition get_or_404 :: "(ObjectKey \<Rightarrow> 'a option) \<Rightarrow> ObjectKey \<Rightarrow> error + 'a" where
  "get_or_404 m k = (case m k of None \<Rightarrow> Inl (StatusNotFound (snd k)) | Some x \<Rightarrow> Inr x)"

definition memory_client :: "api_state Client" where
  "memory_client =
     \<lparr>cl_GetHTTPScaledObject = (\<lambda>k w. case get_or_404 (st_ho w) k of
        Inl e \<Rightarrow> Inl e | Inr h \<Rightarrow> Inr (h\<lparr>ho_Namespace := fst k, ho_Name := snd k\<rparr>)),
      cl_GetScaledObject = (\<lambda>k w. get_or_404 (st_so w) k),
      cl_GetConfigMap = (\<lambda>k w. case get_or_404 (st_cm w) k of
        Inl e \<Rightarrow> Inl e | Inr cm \<Rightarrow> Inr (cm\<lparr>cm_Namespace := fst k, cm_Name := snd k\<rparr>)),
      cl_Create = (\<lambda>so w. let k = (so_Namespace so, so_Name so) in
        case st_so w k of Some _ \<Rightarrow> (w, Some (StatusAlreadyExists (so_Name so)))
        | None \<Rightarrow> (w\<lparr>st_so := (st_so w)(k := Some so)\<rparr>, None)),
      cl_Patch = (\<lambda>so w. let k = (so_Namespace so, so_Name so) in
        case st_so w k of None \<Rightarrow> (w, Some (StatusNotFound (so_Name so)))
        | Some _ \<Rightarrow> (w\<lparr>st_so := (st_so w)(k := Some so)\<rparr>, None)),
      cl_PatchConfigMap = (\<lambda>new old w. let k = (cm_Namespace new, cm_Name new) in
        case st_cm w k of None \<Rightarrow> (w, Inl (StatusNotFound (cm_Name new)))
        | Some _ \<Rightarrow> (w\<lparr>st_cm := (st_cm w)(k := Some new)\<rparr>, Inr new)),
      cl_DeleteScaledObject = (\<lambda>k w. case st_so w k of None \<Rightarrow> (w, Some (StatusNotFound (snd k)))
        | Some _ \<Rightarrow> (w\<lparr>st_so := (st_so w)(k := None)\<rparr>, None)),
      cl_Update = (\<lambda>h w. let k = (ho_Namespace h, ho_Name h) in
        case st_ho w k of None \<Rightarrow> (w, Inl (StatusNotFound (ho_Name h)))
        | Some old \<Rightarrow>
            let h' = h\<lparr>ho_Conditions := ho_Conditions old\<rparr> in
            (w\<lparr>st_ho := (st_ho w)(k := if ho_DeletionTimestamp h \<noteq> None \<and> ho_Finalizers h = [] then None else Some h')\<rparr>,
             Inr h')),
      cl_UpdateStatus = (\<lambda>h w. let k = (ho_Namespace h, ho_Name h) in
        case st_ho w k of None \<Rightarrow> (w, Inl (StatusNotFound (ho_Name h)))
        | Some old \<Rightarrow>
            let h' = old\<lparr>ho_Namespace := fst k, ho_Name := snd k, ho_Conditions := ho_Conditions h\<rparr> in
            (w\<lparr>st_ho := (st_ho w)(k := Some h')\<rparr>, Inr h'))\<rparr>"

lemma memory_client_api: "api_server memory_client"
  unfolding api_server_def
proof (intro conjI allI impI)
qed (auto simp: memory_client_def get_or_404_def Let_def split: option.splits sum.splits)

definition sample_object :: HTTPScaledObject where
  "sample_object = \<lparr>ho_Namespace = ''ns'', ho_Name = ''xkcd'', ho_ResourceVersion = [], ho_DeletionTimestamp = None,
     ho_Finalizers = [],
     ho_Spec = \<lparr>spec_Host = None, spec_Hosts = Some [''a.com'', ''b.com''],
       spec_ScaleTargetRef = Some \<lparr>ref_Deployment = ''depl'', ref_Service = ''svc'', ref_Port = 8080\<rparr>,
       spec_Replicas = None, spec_TargetPendingRequests = None, spec_CooldownPeriod = None\<rparr>,
     ho_Conditions = []\<rparr>"

definition sample_state :: "HTTPScaledObject \<Rightarrow> api_state" where
  "sample_state ho =
     \<lparr>st_ho = (\<lambda>k. if k = (ho_Namespace ho, ho_Name ho) then Some ho else None),
      st_so = (\<lambda>_. None),
      st_cm = (\<lambda>k. if k = (''keda'', ConfigMapRoutingTableName)
        then Some \<lparr>cm_Namespace = ''keda'', cm_Name = ConfigMapRoutingTableName, cm_Labels = None, cm_Data = Some fmempty\<rparr>
        else None)\<rparr>"

definition sample_reconciler :: HTTPScaledObjectReconciler where
  "sample_reconciler =
     \<lparr>rc_ExternalScalerConfig = \<lparr>es_ServiceName = ''scaler'', es_Port = 9090\<rparr>,
      rc_BaseConfig = \<lparr>base_TargetPendingRequests = 100, base_CurrentNamespace = ''keda'', base_WatchNamespace = []\<rparr>\<rparr>"

definition sample_reconcile :: "HTTPScaledObject \<Rightarrow> Table \<Rightarrow> (Table \<times> api_state \<times> reconcile_result) go" where
  "sample_reconcile ho t =
     Reconcile sample_reconciler memory_client (\<lambda>_. []) (ho_Namespace ho, ho_Name ho) t (sample_state ho)"

lemmas operator_defs =
  Reconcile_def removeApplicationResources_def remove_routes_def createOrUpdateApplicationResources_def
  createOrUpdateScaledObject_def scaledObject_created_def appScaledObject_def app_target_def AppScaledObjectName_def
  removeAndUpdateRoutingTable_def addAndUpdateRoutingTable_def updateRoutingMap_def GetConfigMap_def PatchConfigMap_def
  SaveTableToConfigMap_def Table_MarshalJSON_def Table_AddTarget_def Table_RemoveTarget_def
  ensureFinalizer_def finalizeScaledObject_def sanitizeHosts_def deferred_def SaveStatus_def AddCondition_def
  CreateCondition_def SetMessage_def IsNotFound_def IsAlreadyExists_def go_slice_def

lemmas sample_defs =
  sample_object_def sample_state_def sample_reconciler_def sample_reconcile_def memory_client_def get_or_404_def

lemma sample_reconcile_ok: "\<exists>t' w' ra. sample_reconcile sample_object NewTable = Ret (t', w', ra, None)"
  by (simp add: sample_defs operator_defs NewTable_def NewScaledObject_def Let_def)

theorem Reconcile_publishes_witness:
  "\<exists>t' w' ra tg. sample_reconcile sample_object NewTable = Ret (t', w', ra, None) \<and>
     map_get (tm t') ''b.com'' = Some tg \<and> Service tg = ''svc'' \<and> sint (Port tg) = 8080 \<and>
     published memory_client ''keda'' w' = Inr t'"
proof -
  obtain t' w' ra where ok: "sample_reconcile sample_object NewTable = Ret (t', w', ra, None)"
    using sample_reconcile_ok by blast
  have "valid_object sample_object" "valid_table NewTable" "tm NewTable \<noteq> None"
    by code_simp+
  moreover have "cl_GetHTTPScaledObject memory_client (ho_Namespace sample_object, ho_Name sample_object)
      (sample_state sample_object) = Inr sample_object"
    by (simp add: memory_client_def sample_state_def get_or_404_def)
  moreover have "ho_DeletionTimestamp sample_object = None" by (simp add: sample_object_def)
  ultimately obtain ref tg where "spec_ScaleTargetRef (ho_Spec sample_object) = Some ref" "Service tg = ref_Service ref"
    "sint (Port tg) = sint (ref_Port ref)" "\<forall>h. map_get (tm t') h = (case map_get (tm NewTable) h of
       Some old \<Rightarrow> Some old | None \<Rightarrow> if h \<in> set (effective_hosts (ho_Spec sample_object)) then Some tg else None)"
    "published memory_client (base_CurrentNamespace (rc_BaseConfig sample_reconciler)) w' = Inr t'"
    using Reconcile_publishes [OF memory_client_api _ _ _ _ _ ok [unfolded sample_reconcile_def]] by blast
  moreover from this have "Service tg = ''svc'' \<and> sint (Port tg) = 8080"
    by (auto simp: sample_object_def)
  moreover have "map_get (tm NewTable) ''b.com'' = None" "''b.com'' \<in> set (effective_hosts (ho_Spec sample_object))"
    "base_CurrentNamespace (rc_BaseConfig sample_reconciler) = ''keda''"
    by code_simp+
  ultimately show ?thesis using ok by auto
qed


section \<open>Deletion\<close>

lemma finalizeScaledObject_published:
  assumes "api_server cl" "finalizeScaledObject cl h w = Ret (w', h', e)"
  shows "published cl ns w' = published cl ns w"
proof (cases "remove_string (ho_Finalizers h) httpScaledObjectFinalizer")
  case (Ret fs)
  then show ?thesis
    using assms(2) Update_published [OF assms(1), of ns "h\<lparr>ho_Finalizers := fs\<rparr>" w]
    by (auto simp: finalizeScaledObject_def Let_def split: if_splits prod.splits sum.splits)
qed (use assms(2) in \<open>auto simp: finalizeScaledObject_def split: if_splits\<close>)

lemma Reconcile_deleted:
  assumes api: "api_server cl" and get: "cl_GetHTTPScaledObject cl req w = Inr httpso"
    and del: "ho_DeletionTimestamp httpso \<noteq> None" and t: "valid_table t"
    and ok: "Reconcile r cl now req t w = Ret (t', w', ra, None)"
  shows "t' = remove_targets (go_slice (spec_Hosts (ho_Spec httpso))) t \<and>
    published cl (base_CurrentNamespace (rc_BaseConfig r)) w' = Inr t'"
proof -
  let ?rem = "removeApplicationResources cl now (rc_BaseConfig r) t httpso w"
  obtain t1 w1 h1 e1 where rem: "?rem = Ret (t1, w1, h1, e1)"
    using ok get del by (cases ?rem) (auto simp: Reconcile_def)
  have "e1 = None" using ok get del rem by (cases e1) (auto simp: Reconcile_def)
  obtain h2 where "finalizeScaledObject cl h1 w1 = Ret (w', h2, None)" "t' = t1"
    using ok get del rem \<open>e1 = None\<close> by (cases "finalizeScaledObject cl h1 w1") (auto simp: Reconcile_def)
  with finalizeScaledObject_published [OF api] removeApplicationResources_result [OF api t] rem \<open>e1 = None\<close>
  show ?thesis by metis
qed

text \<open>
  C21: A reconciliation of an object that is being deleted, when it succeeds, has withdrawn the
  hosts in the object's \<open>hosts\<close> list, whoever routed them, kept every other route, and published
  exactly the table that remains.
\<close>

theorem Reconcile_withdraws:
  assumes "api_server cl"
    and "cl_GetHTTPScaledObject cl req w = Inr httpso" "ho_DeletionTimestamp httpso \<noteq> None"
    and "valid_table t" "Reconcile r cl now req t w = Ret (t', w', ra, None)"
  shows "(\<forall>h. map_get (tm t') h = (if h \<in> set (go_slice (spec_Hosts (ho_Spec httpso))) then None else map_get (tm t) h)) \<and>
    published cl (base_CurrentNamespace (rc_BaseConfig r)) w' = Inr t'"
  using Reconcile_deleted [OF assms] by (simp add: remove_targets_lookup)

definition deleted_object :: "string option \<Rightarrow> string list option \<Rightarrow> HTTPScaledObject" where
  "deleted_object host hosts = sample_object\<lparr>ho_DeletionTimestamp := Some 1, ho_Finalizers := [httpScaledObjectFinalizer],
     ho_Spec := (ho_Spec sample_object)\<lparr>spec_Host := host, spec_Hosts := hosts\<rparr>\<rparr>"

definition live_object :: "string option \<Rightarrow> string list option \<Rightarrow> HTTPScaledObject" where
  "live_object host hosts = sample_object\<lparr>ho_Spec := (ho_Spec sample_object)\<lparr>spec_Host := host, spec_Hosts := hosts\<rparr>\<rparr>"

lemma sample_host_ok: "\<exists>t' w' ra. sample_reconcile (live_object (Some h) None) NewTable = Ret (t', w', ra, None)"
  by (simp add: sample_defs operator_defs live_object_def NewTable_def NewScaledObject_def Let_def)

lemma sample_deletion_ok:
  "\<exists>t' w' ra. sample_reconcile (deleted_object host hosts) t = Ret (t', w', ra, None) \<and> st_ho w' (''ns'', ''xkcd'') = None"
proof -
  have "contains [httpScaledObjectFinalizer] httpScaledObjectFinalizer"
    "remove_string [httpScaledObjectFinalizer] httpScaledObjectFinalizer = Ret []"
    by (simp_all add: remove_string_def)
  then show ?thesis
    by (simp add: sample_defs operator_defs deleted_object_def Let_def)
qed

lemma sample_deletion_get:
  "cl_GetHTTPScaledObject memory_client (ho_Namespace h, ho_Name h) (sample_state h) = Inr h"
  by (simp add: memory_client_def sample_state_def get_or_404_def)

theorem Reconcile_withdraws_witness:
  "\<exists>t' w' ra. sample_reconcile (deleted_object None (Some [''a.com''])) sample_table = Ret (t', w', ra, None) \<and>
     map_get (tm t') ''a.com'' = None \<and> published memory_client ''keda'' w' = Inr t'"
proof -
  let ?ho = "deleted_object None (Some [''a.com''])"
  obtain t' w' ra where ok: "sample_reconcile ?ho sample_table = Ret (t', w', ra, None)"
    using sample_deletion_ok by blast
  have "valid_table sample_table" by code_simp
  moreover have "ho_DeletionTimestamp ?ho \<noteq> None" "spec_Hosts (ho_Spec ?ho) = Some [''a.com'']"
    by (simp_all add: deleted_object_def)
  ultimately show ?thesis
    using Reconcile_withdraws [OF memory_client_api sample_deletion_get [of ?ho] _ _ ok [unfolded sample_reconcile_def]] ok
    by (auto simp: go_slice_def sample_reconciler_def)
qed

text \<open>
  C39: A route of the deprecated \<open>host\<close> field outlives its object. A live object that names a host by
  \<open>host\<close> alone is reconciled with success, and so is the same object later on, when it is being
  deleted. The first reconciliation routes the host, to the object's service if it was not routed
  before; the second, which reads \<open>hosts\<close> without the conversion that the first made, withdraws
  nothing: the host keeps its target in the operator's table and in the ConfigMap.
\<close>

theorem deprecated_host_stays:
  assumes "api_server cl"
    and "cl_GetHTTPScaledObject cl req w = Inr httpso" "ho_DeletionTimestamp httpso = None"
    and "spec_Host (ho_Spec httpso) = Some h" "spec_Hosts (ho_Spec httpso) = None"
    and "valid_object httpso" "valid_table t" "tm t \<noteq> None"
    and "Reconcile r cl now req t w = Ret (t1, w1, ra, None)"
    and "cl_GetHTTPScaledObject cl req w2 = Inr deleted" "ho_DeletionTimestamp deleted \<noteq> None"
    and "ho_Spec deleted = ho_Spec httpso"
    and "Reconcile r cl now' req t1 w2 = Ret (t2, w3, ra', None)"
  shows "\<exists>tg. map_get (tm t1) h = Some tg \<and> map_get (tm t2) h = Some tg \<and>
    published cl (base_CurrentNamespace (rc_BaseConfig r)) w3 = Inr t2 \<and>
    (map_get (tm t) h = None \<longrightarrow> Namespace tg = ho_Namespace httpso \<and>
       (\<exists>ref. spec_ScaleTargetRef (ho_Spec httpso) = Some ref \<and> Service tg = ref_Service ref))"
proof -
  have hosts: "effective_hosts (ho_Spec httpso) = [h]" using assms(4,5) by (simp add: effective_hosts_def)
  from Reconcile_live [OF assms(1-3,9)] obtain tg where tg: "app_target (rc_BaseConfig r) httpso = Ret tg"
    and add: "add_targets [h] tg t = Ret t1"
    unfolding hosts by blast
  have valid: "valid_table t1"
    by (rule valid_add_targets [OF assms(7,8) add valid_app_target [OF assms(6) tg]])
      (use assms(6) hosts in \<open>simp add: valid_object_def\<close>)
  have t1: "map_get (tm t1) h = (case map_get (tm t) h of Some x \<Rightarrow> Some x | None \<Rightarrow> Some tg)"
    by (rule add_targets_lookup [OF assms(8), of "[h]" tg]) (use add in simp)
  have "t2 = t1" "published cl (base_CurrentNamespace (rc_BaseConfig r)) w3 = Inr t2"
    using Reconcile_deleted [OF assms(1,10,11) valid assms(13)] assms(5,12) by (simp_all add: go_slice_def)
  with t1 app_target_fields [OF tg] show ?thesis by (cases "map_get (tm t) h") auto
qed

theorem deprecated_host_stays_witness:
  "\<exists>t1 w1 ra t2 w3 ra' tg. sample_reconcile (live_object (Some ''a.com'') None) NewTable = Ret (t1, w1, ra, None) \<and>
     sample_reconcile (deleted_object (Some ''a.com'') None) t1 = Ret (t2, w3, ra', None) \<and>
     st_ho w3 (''ns'', ''xkcd'') = None \<and> map_get (tm t2) ''a.com'' = Some tg \<and> Service tg = ''svc'' \<and>
     published memory_client ''keda'' w3 = Inr t2"
proof -
  let ?live = "live_object (Some ''a.com'') None" and ?del = "deleted_object (Some ''a.com'') None"
  obtain t1 w1 ra where live: "sample_reconcile ?live NewTable = Ret (t1, w1, ra, None)"
    using sample_host_ok by blast
  obtain t2 w3 ra' where del: "sample_reconcile ?del t1 = Ret (t2, w3, ra', None)" "st_ho w3 (''ns'', ''xkcd'') = None"
    using sample_deletion_ok by blast
  have valid: "valid_object ?live" "valid_table NewTable" and new: "map_get (tm NewTable) ''a.com'' = None" by code_simp+
  have table: "tm NewTable \<noteq> None" by (simp add: NewTable_def)
  have objs: "ho_DeletionTimestamp ?live = None" "spec_Host (ho_Spec ?live) = Some ''a.com''" "spec_Hosts (ho_Spec ?live) = None"
    "ho_DeletionTimestamp ?del \<noteq> None" "ho_Spec ?del = ho_Spec ?live"
    by (simp_all add: live_object_def deleted_object_def sample_object_def)
  have key: "(ho_Namespace ?live, ho_Name ?live) = (''ns'', ''xkcd'')" "(ho_Namespace ?del, ho_Name ?del) = (''ns'', ''xkcd'')"
    by (simp_all add: live_object_def deleted_object_def sample_object_def)
  note run = live [unfolded sample_reconcile_def key] del(1) [unfolded sample_reconcile_def key]
    and get = sample_deletion_get [of ?live, unfolded key] sample_deletion_get [of ?del, unfolded key]
  from deprecated_host_stays [OF memory_client_api get(1) objs(1-3) valid table run(1) get(2) objs(4,5) run(2)] new
  obtain tg ref where tg: "map_get (tm t2) ''a.com'' = Some tg" "spec_ScaleTargetRef (ho_Spec ?live) = Some ref" "Service tg = ref_Service ref"
    and pub: "published memory_client (base_CurrentNamespace (rc_BaseConfig sample_reconciler)) w3 = Inr t2" by blast
  have "base_CurrentNamespace (rc_BaseConfig sample_reconciler) = ''keda''" by (simp add: sample_reconciler_def)
  moreover have "Service tg = ''svc''" using tg(2,3) by (auto simp: live_object_def sample_object_def)
  ultimately show ?thesis using live del tg(1) pub by metis
qed

text \<open>
  The ScaledObject that is created for an object is not the one that is deleted with it: the
  name created is the object's, the name deleted is the deployment's, and they agree only when the
  object is named as its deployment.
\<close>

theorem scaled_object_names:
  assumes "appScaledObject es httpso = Ret so" "AppScaledObjectName httpso = Ret n"
  shows "so_Name so = n \<longleftrightarrow> (\<exists>ref. spec_ScaleTargetRef (ho_Spec httpso) = Some ref \<and> ho_Name httpso = ref_Deployment ref)"
  using assms by (auto simp: appScaledObject_def AppScaledObjectName_def NewScaledObject_def Let_def split: option.splits)

theorem scaled_object_names_witness:
  "\<exists>so n. appScaledObject ''scaler:9090'' sample_object = Ret so \<and> AppScaledObjectName sample_object = Ret n \<and> so_Name so \<noteq> n"
proof -
  obtain so n where so: "appScaledObject ''scaler:9090'' sample_object = Ret so" and n: "AppScaledObjectName sample_object = Ret n"
    by (auto simp: appScaledObject_def AppScaledObjectName_def sample_object_def Let_def)
  from scaled_object_names [OF so n] have "so_Name so \<noteq> n" by (simp add: sample_object_def)
  with so n show ?thesis by blast
qed


section \<open>When a reconciliation panics\<close>

text \<open>
  What is assumed of the API server for HTTPScaledObjects: a read gives the object of that name;
  the calls for other kinds leave the objects alone; the status subresource ignores everything but
  the status; an update that succeeds answers with the finalizers that were sent, and leaves the
  object as it was or as it was sent; and a merge patch of a ConfigMap, whatever its answer, leaves
  it as it was or makes it the new one.
\<close>

definition same_core :: "HTTPScaledObject \<Rightarrow> HTTPScaledObject \<Rightarrow> bool" where
  "same_core h h' \<longleftrightarrow> ho_Spec h = ho_Spec h' \<and> ho_Finalizers h = ho_Finalizers h'"

abbreviation key_of :: "HTTPScaledObject \<Rightarrow> ObjectKey" where
  "key_of h \<equiv> (ho_Namespace h, ho_Name h)"

definition object_server :: "'w Client \<Rightarrow> bool" where
  "object_server cl \<longleftrightarrow>
     (\<forall>k w h. cl_GetHTTPScaledObject cl k w = Inr h \<longrightarrow> key_of h = k) \<and>
     (\<forall>k w so. cl_GetHTTPScaledObject cl k (fst (cl_Create cl so w)) = cl_GetHTTPScaledObject cl k w) \<and>
     (\<forall>k w so. cl_GetHTTPScaledObject cl k (fst (cl_Patch cl so w)) = cl_GetHTTPScaledObject cl k w) \<and>
     (\<forall>k w k'. cl_GetHTTPScaledObject cl k (fst (cl_DeleteScaledObject cl k' w)) = cl_GetHTTPScaledObject cl k w) \<and>
     (\<forall>k w new old. cl_GetHTTPScaledObject cl k (fst (cl_PatchConfigMap cl new old w)) = cl_GetHTTPScaledObject cl k w) \<and>
     (\<forall>h w w' h'. cl_UpdateStatus cl h w = (w', Inr h') \<longrightarrow> key_of h' = key_of h \<and>
        (\<exists>old. cl_GetHTTPScaledObject cl (key_of h) w = Inr old \<and> same_core h' old)) \<and>
     (\<forall>k h w new. cl_GetHTTPScaledObject cl k (fst (cl_UpdateStatus cl h w)) = Inr new \<longrightarrow>
        (\<exists>old. cl_GetHTTPScaledObject cl k w = Inr old \<and> same_core new old)) \<and>
     (\<forall>h w w' h'. cl_Update cl h w = (w', Inr h') \<longrightarrow> key_of h' = key_of h \<and> same_core h' h) \<and>
     (\<forall>k h w new. cl_GetHTTPScaledObject cl k (fst (cl_Update cl h w)) = Inr new \<longrightarrow>
        cl_GetHTTPScaledObject cl k w = Inr new \<or> same_core new h) \<and>
     (\<forall>k w old new cm. cl_GetConfigMap cl k w = Inr old \<longrightarrow>
        cl_GetConfigMap cl k (fst (cl_PatchConfigMap cl new old w)) = Inr cm \<longrightarrow> cm = old \<or> cm = new)"

lemma object_serverD:
  assumes "object_server cl"
  shows "cl_GetHTTPScaledObject cl k w = Inr h \<Longrightarrow> key_of h = k"
    and "cl_GetHTTPScaledObject cl k (fst (cl_Create cl so w)) = cl_GetHTTPScaledObject cl k w"
    and "cl_GetHTTPScaledObject cl k (fst (cl_Patch cl so w)) = cl_GetHTTPScaledObject cl k w"
    and "cl_GetHTTPScaledObject cl k (fst (cl_DeleteScaledObject cl k' w)) = cl_GetHTTPScaledObject cl k w"
    and "cl_GetHTTPScaledObject cl k (fst (cl_PatchConfigMap cl new old w)) = cl_GetHTTPScaledObject cl k w"
    and "cl_UpdateStatus cl h w = (w', Inr h') \<Longrightarrow> key_of h' = key_of h"
    and "cl_UpdateStatus cl h w = (w', Inr h') \<Longrightarrow>
      \<exists>old. cl_GetHTTPScaledObject cl (key_of h) w = Inr old \<and> same_core h' old"
    and "cl_GetHTTPScaledObject cl k (fst (cl_UpdateStatus cl h w)) = Inr stored \<Longrightarrow>
      \<exists>old. cl_GetHTTPScaledObject cl k w = Inr old \<and> same_core stored old"
    and "cl_Update cl h w = (w', Inr h') \<Longrightarrow> key_of h' = key_of h \<and> same_core h' h"
    and "cl_GetHTTPScaledObject cl k (fst (cl_Update cl h w)) = Inr stored \<Longrightarrow>
      cl_GetHTTPScaledObject cl k w = Inr stored \<or> same_core stored h"
    and "cl_GetConfigMap cl k w = Inr old \<Longrightarrow> cl_GetConfigMap cl k (fst (cl_PatchConfigMap cl new old w)) = Inr cm \<Longrightarrow>
      cm = old \<or> cm = new"
  using assms unfolding object_server_def by - (elim conjE, metis)+

text \<open>
  An object that no code path trips over, and a state of the server in which the object under the
  key is one, if it is there, and the routing ConfigMap has data.
\<close>

definition ok_object :: "HTTPScaledObject \<Rightarrow> bool" where
  "ok_object h \<longleftrightarrow> spec_ScaleTargetRef (ho_Spec h) \<noteq> None \<and> count_list (ho_Finalizers h) httpScaledObjectFinalizer \<le> 1"

definition calm :: "'w Client \<Rightarrow> ObjectKey \<Rightarrow> string \<Rightarrow> 'w \<Rightarrow> bool" where
  "calm cl k ns w \<longleftrightarrow>
     (\<forall>h. cl_GetHTTPScaledObject cl k w = Inr h \<longrightarrow> ok_object h) \<and>
     (\<forall>cm. cl_GetConfigMap cl (ns, ConfigMapRoutingTableName) w = Inr cm \<longrightarrow> cm_Data cm \<noteq> None)"

definition held :: "ObjectKey \<Rightarrow> HTTPScaledObject \<Rightarrow> bool" where
  "held k h \<longleftrightarrow> ok_object h \<and> key_of h = k"

lemma ok_same_core: "same_core h h' \<Longrightarrow> ok_object h = ok_object h'"
  by (simp add: same_core_def ok_object_def)

lemma held_AddCondition [simp]: "held k (AddCondition h c) = held k h"
  by (simp add: held_def ok_object_def)

lemma calm_keeps:
  assumes "api_server cl" "object_server cl" "calm cl k ns w"
  shows "calm cl k ns (fst (cl_Create cl so w))" and "calm cl k ns (fst (cl_Patch cl so w))"
    and "calm cl k ns (fst (cl_DeleteScaledObject cl k' w))" and "calm cl k ns (fst (cl_UpdateStatus cl h w))"
    and "ok_object h \<Longrightarrow> calm cl k ns (fst (cl_Update cl h w))"
proof -
  show "calm cl k ns (fst (cl_Create cl so w))" "calm cl k ns (fst (cl_Patch cl so w))"
    "calm cl k ns (fst (cl_DeleteScaledObject cl k' w))"
    using assms(3) by (simp_all add: calm_def api_keeps [OF assms(1)] object_serverD(2-4) [OF assms(2)])
  have "ok_object g" if "cl_GetHTTPScaledObject cl k (fst (cl_UpdateStatus cl h w)) = Inr g" for g
    using object_serverD(8) [OF assms(2) that] assms(3) ok_same_core by (auto simp: calm_def)
  then show "calm cl k ns (fst (cl_UpdateStatus cl h w))"
    using assms(3) by (simp add: calm_def api_keeps [OF assms(1)])
  have "ok_object g" if "cl_GetHTTPScaledObject cl k (fst (cl_Update cl h w)) = Inr g" "ok_object h" for g
    using object_serverD(10) [OF assms(2) that(1)] assms(3) ok_same_core that(2) by (auto simp: calm_def)
  then show "ok_object h \<Longrightarrow> calm cl k ns (fst (cl_Update cl h w))"
    using assms(3) by (simp add: calm_def api_keeps [OF assms(1)])
qed

lemma SaveStatus_calm:
  assumes "api_server cl" "object_server cl" "calm cl k ns w" "held k h"
  obtains w' h' where "SaveStatus cl h w = (w', h')" "held k h'" "calm cl k ns w'"
proof -
  obtain w1 res where r: "cl_UpdateStatus cl h w = (w1, res)" by fastforce
  have "calm cl k ns w1" using calm_keeps(4) [OF assms(1-3), of h] r by simp
  moreover have "held k h'" if "res = Inr h'" for h'
  proof -
    from r that have upd: "cl_UpdateStatus cl h w = (w1, Inr h')" by simp
    from object_serverD(7) [OF assms(2) upd] obtain old where "cl_GetHTTPScaledObject cl k w = Inr old" "same_core h' old"
      using assms(4) by (auto simp: held_def)
    with assms(3) ok_same_core have "ok_object h'" by (auto simp: calm_def)
    with object_serverD(6) [OF assms(2) upd] assms(4) show ?thesis by (simp add: held_def)
  qed
  ultimately show thesis using that assms(4) r by (cases res) (auto simp: SaveStatus_def)
qed

lemma deferred_calm:
  assumes "api_server cl" "object_server cl" "calm cl k ns w" "held k h"
  obtains w' h' where "deferred cl (t, w, h, e) = (t, w', h', e)" "held k h'" "calm cl k ns w'"
  by (rule SaveStatus_calm [OF assms]) (use that in \<open>simp add: deferred_def\<close>)

lemma updateRoutingMap_returns:
  assumes "api_server cl" "object_server cl" "calm cl k ns w"
  obtains w' e where "updateRoutingMap cl ns t w = Ret (w', e)" "calm cl k ns w'"
proof (cases "cl_GetConfigMap cl (ns, ConfigMapRoutingTableName) w")
  case (Inl err)
  then show thesis using that assms(3) by (simp add: updateRoutingMap_def GetConfigMap_def)
next
  case (Inr cm)
  then obtain d where d: "cm_Data cm = Some d" using assms(3) by (auto simp: calm_def)
  then obtain newCM where save: "SaveTableToConfigMap t cm = Ret (newCM, None)" "cm_Data newCM \<noteq> None"
    by (simp add: SaveTableToConfigMap_def Table_MarshalJSON_def)
  obtain w' r where patch: "cl_PatchConfigMap cl newCM cm w = (w', r)" by fastforce
  have "cm_Data g \<noteq> None" if "cl_GetConfigMap cl (ns, ConfigMapRoutingTableName) w' = Inr g" for g
    using object_serverD(11) [OF assms(2) Inr, of newCM g] patch that d save(2) by auto
  then have "calm cl k ns w'"
    using assms(3) object_serverD(5) [OF assms(2), of k newCM cm w] patch by (simp add: calm_def)
  with Inr save patch that show thesis
    by (cases r) (simp_all add: updateRoutingMap_def GetConfigMap_def PatchConfigMap_def)
qed

lemma remove_routes_returns:
  assumes "api_server cl" "object_server cl" "calm cl k (base_CurrentNamespace base) w" "held k h"
  obtains t' w' h' e where "remove_routes cl now base t h w = Ret (t', w', h', e)" "held k h'"
    "calm cl k (base_CurrentNamespace base) w'"
proof -
  let ?t = "remove_targets (go_slice (spec_Hosts (ho_Spec h))) t"
    and ?h = "AddCondition h (CreateCondition now Terminated ConditionTrue AppScaledObjectTerminated)"
  obtain w1 e where upd: "updateRoutingMap cl (base_CurrentNamespace base) ?t w = Ret (w1, e)" "calm cl k (base_CurrentNamespace base) w1"
    by (rule updateRoutingMap_returns [OF assms(1-3)])
  obtain w' h' where d: "deferred cl (?t, w1, ?h, e) = (?t, w', h', e)" "held k h'" "calm cl k (base_CurrentNamespace base) w'"
    by (rule deferred_calm [OF assms(1,2) upd(2), of ?h]) (use assms(4) in auto)
  show thesis
    by (rule that [of ?t w' h' e]) (use upd d in \<open>simp_all add: remove_routes_def removeAndUpdateRoutingTable_def Let_def\<close>)
qed

lemma removeApplicationResources_returns:
  assumes "api_server cl" "object_server cl" "calm cl k (base_CurrentNamespace base) w" "held k h"
  obtains t' w' h' e where "removeApplicationResources cl now base t h w = Ret (t', w', h', e)" "held k h'"
    "calm cl k (base_CurrentNamespace base) w'"
proof -
  let ?h = "AddCondition h (SetMessage
      (CreateCondition now Terminating ConditionUnknown TerminatingResources) ''Received termination signal'')"
  from assms(4) obtain ref where ref: "spec_ScaleTargetRef (ho_Spec h) = Some ref" by (auto simp: held_def ok_object_def)
  obtain w1 delErr where del: "cl_DeleteScaledObject cl (ho_Namespace h, ref_Deployment ref @ ''-app'') w = (w1, delErr)"
    by fastforce
  have w1: "calm cl k (base_CurrentNamespace base) w1"
    using calm_keeps(3) [OF assms(1-3), of "(ho_Namespace h, ref_Deployment ref @ ''-app'')"] del by simp
  show thesis
  proof (cases "\<exists>err. delErr = Some err \<and> \<not> IsNotFound err")
    case True
    then obtain err where err: "delErr = Some err" "\<not> IsNotFound err" by blast
    let ?h2 = "AddCondition ?h (SetMessage
        (CreateCondition now Error ConditionFalse AppScaledObjectTerminationError) (error_text err))"
    obtain w' h' where "deferred cl (t, w1, ?h2, Some err) = (t, w', h', Some err)" "held k h'"
      "calm cl k (base_CurrentNamespace base) w'"
      by (rule deferred_calm [OF assms(1,2) w1, of ?h2]) (use assms(4) in auto)
    with err del ref that show thesis
      by (simp add: removeApplicationResources_def AppScaledObjectName_def Let_def)
  next
    case False
    obtain t' w' h' e where "remove_routes cl now base t ?h w1 = Ret (t', w', h', e)" "held k h'"
      "calm cl k (base_CurrentNamespace base) w'"
      by (rule remove_routes_returns [OF assms(1,2) w1, of ?h]) (use assms(4) in auto)
    with False del ref that show thesis
      by (cases delErr) (auto simp: removeApplicationResources_def AppScaledObjectName_def Let_def)
  qed
qed

lemma createOrUpdateScaledObject_returns:
  assumes "api_server cl" "object_server cl" "calm cl k ns w" "held k h"
  obtains w' h' e where "createOrUpdateScaledObject cl now es h w = Ret (w', h', e)" "held k h'" "calm cl k ns w'"
proof -
  obtain so where so: "appScaledObject es h = Ret so"
    using assms(4) by (auto simp: appScaledObject_def held_def ok_object_def Let_def)
  obtain w1 e1 where create: "cl_Create cl so w = (w1, e1)" by fastforce
  then have w1: "calm cl k ns w1" using calm_keeps(1) [OF assms(1-3), of so] by simp
  obtain w2 e2 where patch: "cl_Patch cl so w1 = (w2, e2)" by fastforce
  then have w2: "calm cl k ns w2" using calm_keeps(2) [OF assms(1,2) w1, of so] by simp
  have "\<exists>w' h' e. createOrUpdateScaledObject cl now es h w = Ret (w', h', e) \<and> held k h' \<and> calm cl k ns w'"
    using assms(4) so create patch w1 w2
    by (auto simp: createOrUpdateScaledObject_def scaledObject_created_def split: option.split sum.split)
  then show thesis using that by blast
qed

lemma createOrUpdateApplicationResources_returns:
  assumes "api_server cl" "object_server cl" "calm cl k (base_CurrentNamespace base) w" "held k h" "tm t \<noteq> None"
  obtains t' w' h' e where "createOrUpdateApplicationResources cl now base es t h w = Ret (t', w', h', e)" "held k h'"
    "calm cl k (base_CurrentNamespace base) w'"
proof -
  let ?h = "AddCondition h (SetMessage (CreateCondition now Pending ConditionUnknown PendingCreation)
      ''Identified HTTPScaledObject creation signal'')"
  obtain w1 h2 e1 where so: "createOrUpdateScaledObject cl now (ExternalScaler_HostName es (base_CurrentNamespace base)) ?h w = Ret (w1, h2, e1)"
    and h2: "held k h2" and w1: "calm cl k (base_CurrentNamespace base) w1"
    by (rule createOrUpdateScaledObject_returns [OF assms(1-3), of ?h]) (use assms(4) in auto)
  obtain tg where tg: "app_target base h2 = Ret tg"
    using h2 by (auto simp: app_target_def held_def ok_object_def)
  obtain t1 where t1: "add_targets (go_slice (spec_Hosts (ho_Spec h2))) tg t = Ret t1"
    using add_targets_lookup [OF assms(5)] by metis
  obtain w2 e2 where upd: "updateRoutingMap cl (base_CurrentNamespace base) t1 w1 = Ret (w2, e2)"
    and w2: "calm cl k (base_CurrentNamespace base) w2"
    by (rule updateRoutingMap_returns [OF assms(1,2) w1])
  show thesis
  proof (cases e1)
    case (Some err)
    obtain w' h' where "deferred cl (t, w1, h2, Some err) = (t, w', h', Some err)" "held k h'"
      "calm cl k (base_CurrentNamespace base) w'"
      by (rule deferred_calm [OF assms(1,2) w1 h2])
    with Some so that show thesis by (simp add: createOrUpdateApplicationResources_def Let_def)
  next
    case None
    obtain w' h' where "deferred cl (t1, w2, h2, e2) = (t1, w', h', e2)" "held k h'"
      "calm cl k (base_CurrentNamespace base) w'"
      by (rule deferred_calm [OF assms(1,2) w2 h2])
    with None so tg t1 upd that show thesis
      by (simp add: createOrUpdateApplicationResources_def addAndUpdateRoutingTable_def Let_def)
  qed
qed

lemma remove_loop_skip:
  "\<forall>i \<in> set is. arr ! i \<noteq> s \<Longrightarrow> remove_loop s (is @ js) arr m = remove_loop s js arr m"
  by (induction "is") auto

lemma remove_loop_none: "\<forall>i \<in> set is. arr ! i \<noteq> s \<Longrightarrow> remove_loop s is arr m = Ret (take m arr)"
  using remove_loop_skip [of "is" arr s "[]" m] by simp

lemma remove_string_once:
  assumes "s \<notin> set xs" "s \<notin> set ys"
  shows "remove_string (xs @ s # ys) s = Ret (xs @ ys)"
proof -
  let ?l = "xs @ s # ys" and ?k = "length xs"
  let ?arr = "xs @ ys @ drop (length ys) (s # ys)"
  have idx: "[0..<length ?l] = [0..<?k] @ ?k # [Suc ?k..<length ?l]"
    using upt_add_eq_append [of 0 ?k "length ys + 1"] by (simp add: upt_conv_Cons del: upt_Suc)
  have "\<forall>i \<in> set [0..<?k]. ?l ! i \<noteq> s"
    using assms(1) by (auto simp: nth_append)
  then have "remove_string ?l s = remove_loop s (?k # [Suc ?k..<length ?l]) ?l (length ?l)"
    unfolding remove_string_def idx by (rule remove_loop_skip)
  also have "\<dots> = remove_loop s [Suc ?k..<length ?l] ?arr (?k + length ys)"
    by simp
  also have "\<dots> = Ret (take (?k + length ys) ?arr)"
  proof (rule remove_loop_none, rule ballI)
    fix i assume "i \<in> set [Suc ?k..<length ?l]"
    then have "Suc ?k \<le> i" "i < Suc (?k + length ys)" by (auto simp del: upt_Suc)
    then obtain j where i: "i = ?k + Suc j" "j < length ys" by (auto simp: le_iff_add)
    then have "?arr ! i = (ys @ [last ys]) ! Suc j"
      by (cases ys rule: rev_cases) (auto simp: nth_append)
    also have "\<dots> \<in> set ys"
      using i(2) by (cases "Suc j < length ys") (auto simp: nth_append intro!: last_in_set)
    finally show "?arr ! i \<noteq> s" using assms(2) by metis
  qed
  finally show ?thesis by simp
qed

lemma contains_iff: "contains xs s \<longleftrightarrow> s \<in> set xs"
  by (induction xs) auto

text \<open>
  \<open>remove\<close> deletes a string that occurs once and keeps the order of the others. It ranges over
  the slice that it shifts, so on a repeated string it goes wrong: of two equal strings alone it
  slices out of range and panics, and of two equal strings before another one it leaves one behind.
\<close>

theorem remove_exact:
  "(s \<notin> set xs \<and> s \<notin> set ys \<longrightarrow> remove_string (xs @ s # ys) s = Ret (xs @ ys)) \<and>
   (s \<notin> set xs \<longrightarrow> remove_string xs s = Ret xs) \<and>
   \<not> returns (remove_string [s, s] s) \<and>
   (y \<noteq> s \<longrightarrow> remove_string [s, s, y] s = Ret [s, y])"
proof (intro conjI impI)
  show "remove_string xs s = Ret xs" if "s \<notin> set xs"
    using that by (auto simp: remove_string_def intro!: remove_loop_none trans [OF remove_loop_none])
  show "remove_string [s, s, y] s = Ret [s, y]" if "y \<noteq> s"
    using that by (simp add: remove_string_def upt_rec numeral_2_eq_2)
  show "\<not> returns (remove_string [s, s] s)" by (simp add: remove_string_def)
qed (simp add: remove_string_once)

theorem remove_exact_witness:
  "remove_string ([''x''] @ ''f'' # [''y'']) ''f'' = Ret [''x'', ''y''] \<and> remove_string [''f'', ''f'', ''y''] ''f'' = Ret [''f'', ''y'']"
  using remove_exact [of "''f''" "[''x'']" "[''y'']" "''y''"] by simp

lemma finalizeScaledObject_returns:
  assumes "held k h"
  obtains res where "finalizeScaledObject cl h w = Ret res"
proof (cases "contains (ho_Finalizers h) httpScaledObjectFinalizer")
  case True
  then obtain xs ys where fs: "ho_Finalizers h = xs @ httpScaledObjectFinalizer # ys"
    by (metis contains_iff in_set_conv_decomp)
  then have "count_list xs httpScaledObjectFinalizer = 0" "count_list ys httpScaledObjectFinalizer = 0"
    using assms by (simp_all add: held_def ok_object_def)
  then have "remove_string (ho_Finalizers h) httpScaledObjectFinalizer = Ret (xs @ ys)"
    using fs by (simp add: count_list_0_iff remove_string_once)
  moreover obtain w1 r1 where "cl_Update cl (h\<lparr>ho_Finalizers := xs @ ys\<rparr>) w = (w1, r1)" by fastforce
  ultimately show thesis
    using that True by (cases r1) (simp_all add: finalizeScaledObject_def Let_def)
qed (use that in \<open>simp add: finalizeScaledObject_def\<close>)

lemma held_sanitizeHosts: "sanitizeHosts h = (h', e) \<Longrightarrow> held k h \<Longrightarrow> held k h'"
  by (auto simp: sanitizeHosts_def held_def ok_object_def split: option.splits)

lemma ensureFinalizer_held:
  assumes "api_server cl" "object_server cl" "calm cl k ns w" "held k h" "ensureFinalizer cl h w = (w', h', None)"
  shows "held k h' \<and> calm cl k ns w'"
proof (cases "contains (ho_Finalizers h) httpScaledObjectFinalizer")
  case False
  let ?h = "h\<lparr>ho_Finalizers := ho_Finalizers h @ [httpScaledObjectFinalizer]\<rparr>"
  have "ok_object ?h" using assms(4) False by (simp add: held_def ok_object_def contains_iff count_list_0_iff)
  moreover from assms(5) False have upd: "cl_Update cl ?h w = (w', Inr h')"
    by (auto simp: ensureFinalizer_def Let_def split: prod.splits sum.splits)
  ultimately have "calm cl k ns w'" "ok_object h'"
    using calm_keeps(5) [OF assms(1-3), of ?h] object_serverD(9) [OF assms(2) upd] ok_same_core [of h' ?h] by simp_all
  with object_serverD(9) [OF assms(2) upd] assms(4) show ?thesis by (simp add: held_def)
qed (use assms(3-5) in \<open>simp add: ensureFinalizer_def\<close>)

lemma Reconcile_returns:
  assumes srv: "api_server cl" "object_server cl" and calm: "calm cl req (base_CurrentNamespace (rc_BaseConfig r)) w" and t: "tm t \<noteq> None"
  shows "\<exists>res. Reconcile r cl now req t w = Ret res"
proof (cases "cl_GetHTTPScaledObject cl req w")
  case (Inl err)
  then show ?thesis by (simp add: Reconcile_def)
next
  case (Inr httpso)
  then have held: "held req httpso"
    using calm object_serverD(1) [OF srv(2) Inr] by (simp add: calm_def held_def)
  show ?thesis
  proof (cases "ho_DeletionTimestamp httpso")
    case (Some ts)
    obtain t1 w1 h1 e1 where rem: "removeApplicationResources cl now (rc_BaseConfig r) t httpso w = Ret (t1, w1, h1, e1)"
      and h1: "held req h1" by (rule removeApplicationResources_returns [OF srv calm held])
    obtain res where "finalizeScaledObject cl h1 w1 = Ret res" by (rule finalizeScaledObject_returns [OF h1])
    with Inr Some rem show ?thesis by (cases e1; cases res) (simp_all add: Reconcile_def)
  next
    case None
    obtain w1 h1 e1 where fin: "ensureFinalizer cl httpso w = (w1, h1, e1)" by (cases "ensureFinalizer cl httpso w")
    obtain h2 e2 where san: "sanitizeHosts h1 = (h2, e2)" by (cases "sanitizeHosts h1")
    show ?thesis
    proof (cases "e1 = None \<and> e2 = None")
      case True
      then have h2: "held req h2" and w1: "calm cl req (base_CurrentNamespace (rc_BaseConfig r)) w1"
        using ensureFinalizer_held [OF srv calm held, of w1 h1] held_sanitizeHosts [OF san, of req] fin by simp_all
      obtain t2 w2 h3 e3 where cr: "createOrUpdateApplicationResources cl now (rc_BaseConfig r)
          (rc_ExternalScalerConfig r) t h2 w1 = Ret (t2, w2, h3, e3)"
        and h3: "held req h3" and w2: "calm cl req (base_CurrentNamespace (rc_BaseConfig r)) w2"
        by (rule createOrUpdateApplicationResources_returns [OF srv w1 h2 t])
      obtain t4 w4 h4 e4 where rem: "removeApplicationResources cl now (rc_BaseConfig r) t2 h3 w2 = Ret (t4, w4, h4, e4)"
        by (rule removeApplicationResources_returns [OF srv w2 h3])
      show ?thesis
        using Inr None fin san True cr rem by (cases e3) (auto simp: Reconcile_def split: prod.split)
    next
      case False
      with Inr None fin san show ?thesis
        by (cases e1; cases e2) (auto simp: Reconcile_def)
    qed
  qed
qed

text \<open>
  C22: When the reconciler panics. A reconciliation panics only if the object has no scale target, or
  lists the operator's finalizer twice, or the routing ConfigMap has no data, in the state in which
  the reconciliation starts; otherwise it returns, whichever of the calls to the server fail. And an
  object without a scale target, which the resource definition admits when it has no \<open>spec\<close> at all,
  does make the operator panic when it is being deleted.
\<close>

theorem Reconcile_panics:
  assumes "api_server cl" "object_server cl" "tm t \<noteq> None"
  shows "(\<forall>msg. Reconcile r cl now req t w = Panic msg \<longrightarrow>
      (\<exists>httpso. cl_GetHTTPScaledObject cl req w = Inr httpso \<and>
         (spec_ScaleTargetRef (ho_Spec httpso) = None \<or> 2 \<le> count_list (ho_Finalizers httpso) httpScaledObjectFinalizer)) \<or>
      (\<exists>cm. cl_GetConfigMap cl (base_CurrentNamespace (rc_BaseConfig r), ConfigMapRoutingTableName) w = Inr cm \<and> cm_Data cm = None)) \<and>
    (\<forall>httpso. cl_GetHTTPScaledObject cl req w = Inr httpso \<and> ho_DeletionTimestamp httpso \<noteq> None \<and>
       spec_ScaleTargetRef (ho_Spec httpso) = None \<longrightarrow> (\<exists>msg. Reconcile r cl now req t w = Panic msg))"
proof (intro conjI allI impI)
  fix msg
  assume "Reconcile r cl now req t w = Panic msg"
  with Reconcile_returns [OF assms(1,2) _ assms(3), of req r w now] have "\<not> calm cl req (base_CurrentNamespace (rc_BaseConfig r)) w"
    by auto
  then show "(\<exists>httpso. cl_GetHTTPScaledObject cl req w = Inr httpso \<and>
         (spec_ScaleTargetRef (ho_Spec httpso) = None \<or> 2 \<le> count_list (ho_Finalizers httpso) httpScaledObjectFinalizer)) \<or>
      (\<exists>cm. cl_GetConfigMap cl (base_CurrentNamespace (rc_BaseConfig r), ConfigMapRoutingTableName) w = Inr cm \<and> cm_Data cm = None)"
    by (auto simp: calm_def ok_object_def)
qed (auto simp: Reconcile_def removeApplicationResources_def AppScaledObjectName_def Let_def)

lemma memory_client_object: "object_server memory_client"
  unfolding object_server_def
proof (intro conjI allI impI)
qed (auto simp: memory_client_def get_or_404_def same_core_def Let_def split: option.splits sum.splits if_splits)

text \<open>An object that was made without a \<open>spec\<close> and is being deleted while another finalizer holds it.\<close>

definition empty_object :: HTTPScaledObject where
  "empty_object = sample_object\<lparr>ho_DeletionTimestamp := Some 1, ho_Finalizers := [''foregroundDeletion''],
     ho_Spec := (ho_Spec sample_object)\<lparr>spec_Hosts := None, spec_ScaleTargetRef := None\<rparr>\<rparr>"

theorem Reconcile_panics_witness:
  "(\<exists>msg. sample_reconcile empty_object NewTable = Panic msg) \<and> (\<forall>msg. sample_reconcile sample_object NewTable \<noteq> Panic msg)"
proof
  have table: "tm NewTable \<noteq> None" by (simp add: NewTable_def)
  have "ho_DeletionTimestamp empty_object \<noteq> None" "spec_ScaleTargetRef (ho_Spec empty_object) = None"
    by (simp_all add: empty_object_def)
  with Reconcile_panics [OF memory_client_api memory_client_object table] sample_deletion_get [of empty_object]
  show "\<exists>msg. sample_reconcile empty_object NewTable = Panic msg"
    unfolding sample_reconcile_def by blast
  have get: "cl_GetConfigMap memory_client (base_CurrentNamespace (rc_BaseConfig sample_reconciler), ConfigMapRoutingTableName)
      (sample_state sample_object) = Inr cm \<Longrightarrow> cm_Data cm \<noteq> None" for cm
    by (auto simp: memory_client_def sample_state_def sample_reconciler_def get_or_404_def)
  have "spec_ScaleTargetRef (ho_Spec sample_object) \<noteq> None" "count_list (ho_Finalizers sample_object) httpScaledObjectFinalizer = 0"
    by (simp_all add: sample_object_def)
  with get show "\<forall>msg. sample_reconcile sample_object NewTable \<noteq> Panic msg"
    using conjunct1 [OF Reconcile_panics [OF memory_client_api memory_client_object table, where w = "sample_state sample_object"
        and req = "key_of sample_object" and r = sample_reconciler and now = "\<lambda>_. []"], unfolded sample_deletion_get]
    unfolding sample_reconcile_def by fastforce
qed

section \<open>Hosts of an object\<close>

text \<open>
  \<open>sanitizeHosts\<close> accepts an object exactly when one of \<open>host\<close> and \<open>hosts\<close> is set. It then
  leaves \<open>hosts\<close> set to the hosts of the object and \<open>host\<close> unset, changes nothing else, and a second
  call changes nothing; a refused object is left as it was.
\<close>

theorem sanitizeHosts_spec:
  "let (httpso', err) = sanitizeHosts httpso; spec = ho_Spec httpso in
   (err = None \<longleftrightarrow> (spec_Host spec = None) \<noteq> (spec_Hosts spec = None)) \<and>
   (if err = None
    then ho_Spec httpso' = spec\<lparr>spec_Host := None, spec_Hosts := Some (effective_hosts spec)\<rparr> \<and>
      httpso' = httpso\<lparr>ho_Spec := ho_Spec httpso'\<rparr> \<and> sanitizeHosts httpso' = (httpso', None)
    else httpso' = httpso)"
  by (cases httpso; cases "ho_Spec httpso")
    (auto simp: sanitizeHosts_def effective_hosts_def Let_def split: option.splits)

text \<open>
  The ping reaches every interceptor: when the endpoints of the service are known and every
  address parses, no error means that each endpoint answered the request for its ping route, and
  an error is that of an endpoint that did not.
\<close>

theorem pingInterceptors_reaches:
  assumes "EndpointsForService ns svc port (EndpointsFuncForControllerClient get) = Inr urls"
  shows "case pingInterceptors get httpGet ns svc port of
      None \<Rightarrow> list_all (\<lambda>u. \<not> isl (httpGet (URL_String u @ ''/routing_ping''))) urls
    | Some err \<Rightarrow> list_ex (\<lambda>u. httpGet (URL_String u @ ''/routing_ping'') = Inl err) urls"
proof (cases "List.find isl (map (\<lambda>u. httpGet (URL_String u @ ''/routing_ping'')) urls)")
  case None
  then have "list_all (\<lambda>u. \<not> isl (httpGet (URL_String u @ ''/routing_ping''))) urls"
    by (auto simp: find_None_iff list_all_iff)
  with assms None show ?thesis by (simp add: pingInterceptors_def)
next
  case (Some a)
  then have "isl a" "a \<in> set (map (\<lambda>u. httpGet (URL_String u @ ''/routing_ping'')) urls)"
    unfolding find_Some_iff by (metis nth_mem)+
  then obtain err u where "a = Inl err" "u \<in> set urls" "httpGet (URL_String u @ ''/routing_ping'') = Inl err"
    by (cases a) auto
  with assms Some show ?thesis by (auto simp: pingInterceptors_def list_ex_iff)
qed

end
