(* ===== verification/Process.thy ===== *)
theory Process
  imports Errgroup Interceptor Scaler Operator
begin

text \<open>
  The three programs as their \<open>main\<close> functions put them together: the start-up with its early
  exits, the handler that the interceptor's proxy server runs, and the group of goroutines that
  each \<open>main\<close> waits for. What the libraries return (configuration, Kubernetes clients, listeners,
  the controller manager) is a parameter.
\<close>

section \<open>Servers\<close>

text \<open>
  \<open>pkg/http/server.go\<close>. \<open>listenErr\<close> is what \<open>ListenAndServe\<close> returns by itself, \<open>ctxErr\<close> the error
  of the context once it is done; the result is \<open>None\<close> while the server serves. Once \<open>Shutdown\<close> is
  called, \<open>ListenAndServe\<close> returns \<open>ErrServerClosed\<close>.
\<close>

definition ErrServerClosed :: error where
  "ErrServerClosed = External ''http: Server closed''"

definition ServeContext :: "error option \<Rightarrow> error option \<Rightarrow> error option option" where
  "ServeContext listenErr ctxErr =
     (case listenErr of
        Some err \<Rightarrow> Some (Some err)
      | None \<Rightarrow> (case ctxErr of Some _ \<Rightarrow> Some (Some ErrServerClosed) | None \<Rightarrow> None))"

text \<open>
  The gRPC server of the scaler: the implementation it registers, none when listening fails, and
  what \<open>Serve\<close> returns. When the context is done the listener is closed, which ends \<open>Serve\<close>.
\<close>

definition startGrpcServer ::
    "error option \<Rightarrow> error option \<Rightarrow> error option \<Rightarrow> queuePinger \<Rightarrow> Table \<Rightarrow> gint \<Rightarrow> gint \<Rightarrow>
     Table impl option \<times> error option option" where
  "startGrpcServer listenErr serveErr ctxErr p table d di =
     (case listenErr of
        Some err \<Rightarrow> (None, Some (Some err))
      | None \<Rightarrow>
          (Some (newImpl p Table_Reader table d di),
           case serveErr of
             Some err \<Rightarrow> Some (Some err)
           | None \<Rightarrow>
               (case ctxErr of
                  Some _ \<Rightarrow> Some (Some (External ''use of closed network connection''))
                | None \<Rightarrow> None)))"

text \<open>\<open>NewClientset\<close> of \<open>pkg/k8s/client.go\<close>, over the constructors of client-go.\<close>

definition NewClientset ::
    "(error + 'cfg) \<Rightarrow> ('cfg \<Rightarrow> error + 'cl) \<Rightarrow> ('cfg \<Rightarrow> error + 'dyn) \<Rightarrow> error + 'cl \<times> 'dyn" where
  "NewClientset inClusterConfig newForConfig newDynamic =
     (case inClusterConfig of
        Inl err \<Rightarrow> Inl (Wrap err ''Getting in-cluster config'')
      | Inr config \<Rightarrow>
          (case newForConfig config of
             Inl err \<Rightarrow> Inl (Wrap err ''Creating k8s clientset'')
           | Inr clientset \<Rightarrow>
               (case newDynamic config of Inl err \<Rightarrow> Inl err | Inr dyn \<Rightarrow> Inr (clientset, dyn))))"

section \<open>The proxy server of the interceptor\<close>

text \<open>A counter beside the state of the network.\<close>

definition on_fst :: "'s Counter \<Rightarrow> ('s \<times> 'n) Counter" where
  "on_fst q =
     \<lparr>c_Current = \<lambda>s. c_Current q (fst s),
      c_Count = \<lambda>host s. c_Count q host (fst s),
      c_PostponeDuration = \<lambda>s. c_PostponeDuration q (fst s),
      c_ShouldPostponeResize = \<lambda>s. c_ShouldPostponeResize q (fst s),
      c_Resize = \<lambda>host delta s. bind_go (c_Resize q host delta (fst s)) (\<lambda>(s', err). Ret ((s', snd s), err)),
      c_Ensure = \<lambda>host s. bind_go (c_Ensure q host (fst s)) (\<lambda>s'. Ret (s', snd s)),
      c_Remove = \<lambda>host s. bind_go (c_Remove q host (fst s)) (\<lambda>(s', b). Ret ((s', snd s), b)),
      c_PostponeResize = \<lambda>host time s. bind_go (c_PostponeResize q host time (fst s)) (\<lambda>s'. Ret (s', snd s))\<rparr>"

text \<open>
  The handler of \<open>runProxyServer\<close>: the counting middleware around the forwarding handler.
  \<open>mkTransport\<close> is the transport of the standard library, made from the dialer, the dial function
  with retries and the configuration.
\<close>

type_synonym 'n round_tripper = "Request \<Rightarrow> 'n \<Rightarrow> 'n \<times> (error + Response)"

type_synonym ('c, 'n) transport_maker =
  "Dialer \<Rightarrow> ((nat \<Rightarrow> error + 'c) \<Rightarrow> (nat \<Rightarrow> error option) \<Rightarrow> 'c option \<times> error option \<times> nat) \<Rightarrow>
   forwardingConfig \<Rightarrow> 'n round_tripper"

definition runProxyServer_handler ::
    "(string \<Rightarrow> error + string list) \<Rightarrow> 's Counter \<Rightarrow> gotime \<Rightarrow>
     (gint \<Rightarrow> string \<Rightarrow> string \<Rightarrow> gint \<times> error option) \<Rightarrow> Table \<Rightarrow> Timeouts \<Rightarrow>
     ('c, 'n) transport_maker \<Rightarrow> 'n round_tripper \<Rightarrow>
     Request \<Rightarrow> ResponseWriter \<Rightarrow> 's \<times> 'n \<Rightarrow> (ResponseWriter \<times> ('s \<times> 'n) \<times> string option) go" where
  "runProxyServer_handler lookupAddr q now waitFunc table timeouts mkTransport defaultTransport r w sn =
     (let dialer = NewNetDialer (Connect timeouts) (KeepAlive timeouts);
          dialContextFunc = DialContextWithRetry (DefaultBackoff timeouts);
          next = (\<lambda>r w (s, n).
            case newForwardingHandler lookupAddr table waitFunc ServiceURL (newForwardingConfigFromTimeouts timeouts)
                   (mkTransport dialer dialContextFunc) defaultTransport r w n of
              (n', w', panicked) \<Rightarrow> (w', (s, n'), panicked)) in
      countMiddleware lookupAddr (on_fst q) now next r w sn)"

section \<open>Starting up\<close>

text \<open>A process has left through \<open>os.Exit\<close> (or \<open>log.Fatal\<close>) with a code and a message, or it runs.\<close>

datatype 'p started = Exit int string | Started 'p

record interceptor_proc =
  ip_timeouts :: Timeouts
  ip_serving :: Serving
  ip_q :: Memory
  ip_table :: Table

text \<open>
  \<open>interceptor/main.go\<close> up to the group: the logger, the two configurations, which \<open>envconfig\<close> reads
  or panics, their validation, the Kubernetes client, and the routing table as the ConfigMap has it.
\<close>

definition interceptor_main ::
    "error option \<Rightarrow> Timeouts go \<Rightarrow> Serving go \<Rightarrow> (error + 'cfg) \<Rightarrow> ('cfg \<Rightarrow> error + 'cl) \<Rightarrow>
     ('cl \<Rightarrow> string \<Rightarrow> string \<Rightarrow> error + ConfigMap) \<Rightarrow> interceptor_proc started go" where
  "interceptor_main loggerErr parseTimeouts parseServing inClusterConfig newForConfig configMaps =
     (if loggerErr \<noteq> None then Ret (Exit 1 ''Error building logger'')
      else
        bind_go parseTimeouts (\<lambda>timeoutCfg.
        bind_go parseServing (\<lambda>servingCfg.
          case Validate servingCfg timeoutCfg of
            Some err \<Rightarrow> Ret (Exit 1 ''invalid configuration'')
          | None \<Rightarrow>
              (case inClusterConfig of
                 Inl err \<Rightarrow> Ret (Exit 1 ''Kubernetes client config not found'')
               | Inr cfg \<Rightarrow>
                   (case newForConfig cfg of
                      Inl err \<Rightarrow> Ret (Exit 1 ''creating new Kubernetes ClientSet'')
                    | Inr cl \<Rightarrow>
                        (let q = NewMemory (RequestQueueCooldown servingCfg) (EnableRequestQueueCooldown servingCfg) in
                         case GetTable (configMaps cl (CurrentNamespace servingCfg)) NewTable of
                           (_, Some err) \<Rightarrow> Ret (Exit 1 ''fetching routing table'')
                         | (table, None) \<Rightarrow>
                             Ret (Started \<lparr>ip_timeouts = timeoutCfg, ip_serving = servingCfg, ip_q = q,
                               ip_table = table\<rparr>)))))))"

record scaler_proc =
  sp_cfg :: scaler_config
  sp_pinger :: queuePinger
  sp_table :: Table

text \<open>\<open>scaler/main.go\<close>: the first fetch of the counts is part of the start-up.\<close>

definition scaler_main ::
    "error option \<Rightarrow> scaler_config go \<Rightarrow> (error + 'cl \<times> 'dyn) \<Rightarrow> ('cl \<Rightarrow> string \<Rightarrow> string \<Rightarrow> error + Endpoints) \<Rightarrow>
     (string \<Rightarrow> error + string) \<Rightarrow> gotime \<Rightarrow> scaler_proc started go" where
  "scaler_main loggerErr parseConfig newClientset endpoints get now =
     (if loggerErr \<noteq> None then Ret (Exit 1 ''error creating new logger'')
      else
        bind_go parseConfig (\<lambda>cfg.
          let targetPortStr = fmt_d (TargetPort cfg) in
          case newClientset of
            Inl err \<Rightarrow> Ret (Exit 1 ''getting a Kubernetes client'')
          | Inr (k8sCl, _) \<Rightarrow>
              (case newQueuePinger get now (EndpointsFuncForK8sClientset (endpoints k8sCl))
                      (TargetNamespace cfg) (TargetService cfg) (TargetDeployment cfg) targetPortStr of
                 (_, Some err) \<Rightarrow> Ret (Exit 1 ''creating a queue pinger'')
               | (p, None) \<Rightarrow> Ret (Started \<lparr>sp_cfg = cfg, sp_pinger = p, sp_table = NewTable\<rparr>))))"

text \<open>\<open>callbackWhenRoutingTableUpdate\<close>, which the updater of the routing table calls.\<close>

definition callbackWhenRoutingTableUpdate ::
    "(string \<Rightarrow> error + string) \<Rightarrow> gotime \<Rightarrow> queuePinger \<Rightarrow> queuePinger \<times> error option" where
  "callbackWhenRoutingTableUpdate get now p = fetchAndSaveCounts get now p"

record operator_proc =
  op_reconciler :: HTTPScaledObjectReconciler
  op_interceptor :: InterceptorCfg
  op_table :: Table

text \<open>
  \<open>operator/main.go\<close>: the configuration, the manager with the controller and its probes, and the
  check that the ConfigMap of the routing table exists. The table starts out empty.
\<close>

definition operator_main ::
    "(string \<Rightarrow> string) \<Rightarrow> (error + BaseCfg) \<Rightarrow> error option \<Rightarrow> error option \<Rightarrow> error option \<Rightarrow> error option \<Rightarrow>
     (error + (string \<Rightarrow> string \<Rightarrow> error + ConfigMap)) \<Rightarrow> operator_proc started" where
  "operator_main getenv newBase managerErr setupErr healthzErr readyzErr newClientset =
     (case NewInterceptorFromEnv getenv of
        Inl err \<Rightarrow> Exit 1 ''unable to get interceptor configuration''
      | Inr interceptorCfg \<Rightarrow>
     (case NewExternalScalerFromEnv getenv of
        Inl err \<Rightarrow> Exit 1 ''unable to get external scaler configuration''
      | Inr externalScalerCfg \<Rightarrow>
     (case newBase of
        Inl err \<Rightarrow> Exit 1 ''unable to get base configuration''
      | Inr baseConfig \<Rightarrow>
          if managerErr \<noteq> None then Exit 1 ''unable to start manager''
          else
            (let table = NewTable;
                 reconciler = \<lparr>rc_ExternalScalerConfig = externalScalerCfg, rc_BaseConfig = baseConfig\<rparr> in
             if setupErr \<noteq> None then Exit 1 ''unable to create controller''
             else if healthzErr \<noteq> None then Exit 1 ''unable to set up health check''
             else if readyzErr \<noteq> None then Exit 1 ''unable to set up ready check''
             else
               (case ensureConfigMap newClientset (base_CurrentNamespace baseConfig) ConfigMapRoutingTableName of
                  Some err \<Rightarrow> Exit 1 ''unable to find routing table ConfigMap''
                | None \<Rightarrow>
                    Started \<lparr>op_reconciler = reconciler, op_interceptor = interceptorCfg, op_table = table\<rparr>)))))"

section \<open>The goroutines of the programs\<close>

text \<open>
  What the tasks of a group return, over the error of the context: an informer returns when the
  context is done, a server when it fails or the context is done, and a loop sees the end of the
  context only when the context is done.
\<close>

definition updater_sees :: "error option \<Rightarrow> selected list \<Rightarrow> bool" where
  "updater_sees ctx evs \<longleftrightarrow> list_all (\<lambda>ev. case ev of CtxDone err \<Rightarrow> err = ctx \<and> ctx \<noteq> None | Received _ \<Rightarrow> True) evs"

definition pinger_sees :: "error option \<Rightarrow> ping_event list \<Rightarrow> bool" where
  "pinger_sees ctx evs \<longleftrightarrow> list_all (\<lambda>ev. case ev of PingDone err \<Rightarrow> err = ctx \<and> ctx \<noteq> None | _ \<Rightarrow> True) evs"

text \<open>\<open>interceptor/main.go\<close>\<close>

datatype interceptor_task = IDeployCache | ITableUpdater | IAdminServer | IProxyServer

definition interceptor_tasks :: "interceptor_task list" where
  "interceptor_tasks = [IDeployCache, ITableUpdater, IAdminServer, IProxyServer]"

inductive interceptor_returns :: "interceptor_task \<Rightarrow> error option \<Rightarrow> error option \<Rightarrow> bool" where
  deploy_cache: "interceptor_returns IDeployCache (Some c) (InformerBackedDeploymentCache_Start (Some c))"
| table_updater:
    "StartConfigMapRoutingTableUpdater watchErr None evs (Some informerErr) informerFirst table () = (table', (), Some e) \<Longrightarrow>
     updater_sees ctx evs \<Longrightarrow> interceptor_returns ITableUpdater ctx e"
| admin_server: "ServeContext listenErr ctx = Some e \<Longrightarrow> interceptor_returns IAdminServer ctx e"
| proxy_server: "ServeContext listenErr ctx = Some e \<Longrightarrow> interceptor_returns IProxyServer ctx e"

text \<open>\<open>os.Exit(1)\<close> after \<open>Wait\<close>, whatever it returned.\<close>

definition interceptor_exit :: "error option \<Rightarrow> interceptor_proc started" where
  "interceptor_exit waitErr = Exit 1 ''error with interceptor''"

text \<open>\<open>scaler/main.go\<close>\<close>

datatype scaler_task = SDeployInformer | SPinger | SGrpcServer | STableUpdater | SAdminServer

definition scaler_tasks :: "scaler_task list" where
  "scaler_tasks = [SDeployInformer, SPinger, SGrpcServer, STableUpdater, SAdminServer]"

inductive scaler_returns :: "scaler_task \<Rightarrow> error option \<Rightarrow> error option \<Rightarrow> bool" where
  deploy_informer: "scaler_returns SDeployInformer (Some c) (InformerBackedDeploymentCache_Start (Some c))"
| pinger_start: "queuePinger_start watchErr evs p = (p', Some e) \<Longrightarrow> pinger_sees ctx evs \<Longrightarrow> scaler_returns SPinger ctx e"
| grpc_server: "startGrpcServer listenErr serveErr ctx p table d di = (srv, Some e) \<Longrightarrow> scaler_returns SGrpcServer ctx e"
| scaler_updater:
    "StartConfigMapRoutingTableUpdater watchErr (Some (callbackWhenRoutingTableUpdate get now)) evs (Some informerErr)
       informerFirst table p = (table', p', Some e) \<Longrightarrow>
     updater_sees ctx evs \<Longrightarrow> scaler_returns STableUpdater ctx e"
| scaler_admin: "ServeContext listenErr ctx = Some e \<Longrightarrow> scaler_returns SAdminServer ctx e"

text \<open>\<open>main\<close> logs the error and returns, which is exit code 0.\<close>

definition scaler_exit :: "error option \<Rightarrow> scaler_proc started" where
  "scaler_exit waitErr = Exit 0 ''one or more of the servers failed''"

text \<open>\<open>operator/main.go\<close>: the manager returns nil when the context is done, or an error of its own.\<close>

datatype operator_task = OManager | OAdminServer

definition operator_tasks :: "operator_task list" where
  "operator_tasks = [OManager, OAdminServer]"

inductive operator_returns :: "operator_task \<Rightarrow> error option \<Rightarrow> error option \<Rightarrow> bool" where
  manager_stopped: "operator_returns OManager (Some c) None"
| manager_failed: "operator_returns OManager ctx (Some err)"
| operator_admin: "ServeContext listenErr ctx = Some e \<Longrightarrow> operator_returns OAdminServer ctx e"

definition operator_exit :: "error option \<Rightarrow> operator_proc started" where
  "operator_exit waitErr = Exit 0 ''running the operator''"

inductive_cases interceptor_returns_cases:
  "interceptor_returns IDeployCache ctx e" "interceptor_returns ITableUpdater ctx e"
  "interceptor_returns IAdminServer ctx e" "interceptor_returns IProxyServer ctx e"

inductive_cases scaler_returns_cases: "scaler_returns SDeployInformer ctx e" "scaler_returns SAdminServer ctx e"

inductive_cases operator_returns_cases: "operator_returns OAdminServer ctx e"

lemma ServeContext_fails: "ServeContext listenErr ctx = Some e \<Longrightarrow> e \<noteq> None"
  by (auto simp: ServeContext_def split: option.splits)

lemma ServeContext_stops: "\<exists>e. ServeContext None (Some c) = Some e"
  by (simp add: ServeContext_def)

lemma updater_stops:
  "\<exists>table' w' e. StartConfigMapRoutingTableUpdater None cb [CtxDone (Some c)] (Some c) True table w = (table', w', Some e)"
  by (simp add: StartConfigMapRoutingTableUpdater_def Let_def)

interpretation interceptor_grp: failing_group interceptor_returns interceptor_tasks 0
proof
  show "\<exists>e. interceptor_returns t (Some c) e" for t c
    using updater_stops [of None c NewTable "()"] ServeContext_stops [of c]
    by (cases t) (fastforce simp: updater_sees_def intro: interceptor_returns.intros)+
qed (auto simp: interceptor_tasks_def InformerBackedDeploymentCache_Start_def wrap_def elim!: interceptor_returns_cases)

interpretation scaler_grp: failing_group scaler_returns scaler_tasks 0
proof
  show "\<exists>e. scaler_returns t (Some c) e" for t c
  proof (cases t)
    case SPinger
    have "queuePinger_start None [PingDone (Some c)] p = (p, Some (wrap (Some c) ''context marked done. stopping queuePinger loop''))" for p
      by (simp add: queuePinger_start_def)
    then show ?thesis using SPinger scaler_returns.pinger_start by (fastforce simp: pinger_sees_def)
  next
    case SGrpcServer
    have "\<exists>srv e. startGrpcServer None None (Some c) p NewTable 0 0 = (srv, Some e)" for p
      by (simp add: startGrpcServer_def)
    then show ?thesis using SGrpcServer scaler_returns.grpc_server by blast
  next
    case STableUpdater
    obtain p :: queuePinger where True by blast
    from updater_stops [of "Some (callbackWhenRoutingTableUpdate (\<lambda>_. Inl ContextCanceled) 0)" c NewTable p] STableUpdater
    show ?thesis by (fastforce simp: updater_sees_def intro: scaler_returns.scaler_updater)
  qed (use ServeContext_stops [of c] in \<open>auto intro: scaler_returns.intros\<close>)
qed (auto simp: scaler_tasks_def InformerBackedDeploymentCache_Start_def wrap_def elim!: scaler_returns_cases)

interpretation operator_grp: failing_group operator_returns operator_tasks 1
proof
  show "\<exists>e. operator_returns t (Some c) e" for t c
    using ServeContext_stops [of c] by (cases t) (auto intro: operator_returns.intros)
qed (auto simp: operator_tasks_def dest: ServeContext_fails elim!: operator_returns_cases)

section \<open>The proxy\<close>

text \<open>The middleware over the lifted counter is the middleware over the counter, with the network beside.\<close>

lemma countMiddleware_on_fst:
  assumes "\<And>s. next r w (s, n) = (w', (s, n'), panicked)"
  shows "countMiddleware lookupAddr (on_fst q) now next r w (s, n) =
    (case getHost lookupAddr r of
       Inl err \<Rightarrow> Ret (fst (Write ''Host not found, not forwarding request'' (WriteHeader 400 w)), (s, n), None)
     | Inr host \<Rightarrow> bind_go (countMiddleware lookupAddr q now (\<lambda>r w s. (w', s, panicked)) r w s)
         (\<lambda>(w1, s1, p). Ret (w1, (s1, n'), p)))"
proof (cases "getHost lookupAddr r")
  case (Inr host)
  have done': "count_done (on_fst q) now host (s1, n') = bind_go (count_done q now host s1) (\<lambda>s2. Ret (s2, n'))" for s1
    by (cases "c_ShouldPostponeResize q s1"; cases "c_Count q host s1"; cases "c_PostponeDuration q s1";
        cases "c_Resize q host (- 1) s1")
      (auto simp: count_done_def on_fst_def Let_def)
  show ?thesis
  proof (cases "c_Resize q host 1 s")
    case (Ret x)
    obtain s1 err where x: "x = (s1, err)" by fastforce
    show ?thesis
      using Inr Ret done' [of s1] assms [of s1] unfolding x
      by (cases "count_done q now host s1") (simp_all add: countMiddleware_def on_fst_def)
  qed (use Inr in \<open>simp add: countMiddleware_def on_fst_def\<close>)
qed (simp add: countMiddleware_def)

lemma proxy_result:
  assumes "getHost lookupAddr r = Inr host"
    and "newForwardingHandler lookupAddr table waitFunc ServiceURL (newForwardingConfigFromTimeouts timeouts)
      (mkTransport (NewNetDialer (Connect timeouts) (KeepAlive timeouts)) (DialContextWithRetry (DefaultBackoff timeouts)))
      defaultTransport r w n = (n', w', panicked)"
  shows "\<exists>s'. runProxyServer_handler lookupAddr Memory_Counter now waitFunc table timeouts mkTransport defaultTransport
      r w (s, n) = Ret (w', (s', n'), panicked) \<and> (\<forall>k. k \<noteq> host \<longrightarrow> Memory_Count k s' = Memory_Count k s) \<and>
    (\<not> shouldPostpone s \<longrightarrow> Memory_Count host s' = Memory_Count host s)"
proof -
  from countMiddleware_counts [of "\<lambda>r w s. (w', s, panicked)" r w w' panicked lookupAddr now s] assms(1)
  obtain s' where "countMiddleware lookupAddr Memory_Counter now (\<lambda>r w s. (w', s, panicked)) r w s = Ret (w', s', panicked)"
    "\<forall>k. k \<noteq> host \<longrightarrow> Memory_Count k s' = Memory_Count k s"
    "\<not> shouldPostpone s \<longrightarrow> Memory_Count host s' = Memory_Count host s"
    by (auto split: if_splits)
  then show ?thesis
    using assms by (auto simp: runProxyServer_handler_def Let_def countMiddleware_on_fst [where n' = n' and w' = w' and panicked = panicked])
qed

lemma proxy_outcome:
  assumes "runProxyServer_handler lookupAddr Memory_Counter now waitFunc table timeouts mkTransport defaultTransport
      r w (s, n) = Ret (w', (s', n'), panicked)"
  shows "(\<exists>e. getHost lookupAddr r = Inl e \<and> n' = n \<and> s' = s) \<or>
    (\<exists>host. getHost lookupAddr r = Inr host \<and> (\<forall>k. k \<noteq> host \<longrightarrow> Memory_Count k s' = Memory_Count k s) \<and>
     (n' = n \<or> (\<exists>tg u w1. Table_Lookup table host = Inr tg \<and> target_URL ServiceURL tg (req_Host r) = Inr u \<and>
       forwardRequest
         (mkTransport (NewNetDialer (Connect timeouts) (KeepAlive timeouts)) (DialContextWithRetry (DefaultBackoff timeouts))
            (newForwardingConfigFromTimeouts timeouts))
         defaultTransport u (ServiceUnavailableRetry timeouts) r w1 n = (n', w', panicked))))"
proof (cases "getHost lookupAddr r")
  case (Inl e)
  then show ?thesis using assms by (auto simp: runProxyServer_handler_def countMiddleware_def)
next
  case (Inr host)
  let ?tr = "mkTransport (NewNetDialer (Connect timeouts) (KeepAlive timeouts)) (DialContextWithRetry (DefaultBackoff timeouts))"
  obtain n1 w1 p1 where fwd: "newForwardingHandler lookupAddr table waitFunc ServiceURL
      (newForwardingConfigFromTimeouts timeouts) ?tr defaultTransport r w n = (n1, w1, p1)"
    by (metis prod_cases3)
  from proxy_result [where mkTransport = mkTransport, OF Inr fwd, of now s] assms
  have res: "n' = n1" "w' = w1" "panicked = p1" "\<forall>k. k \<noteq> host \<longrightarrow> Memory_Count k s' = Memory_Count k s" by auto
  have retries: "serviceUnavailableRetry (newForwardingConfigFromTimeouts timeouts) = ServiceUnavailableRetry timeouts"
    by (simp add: newForwardingConfigFromTimeouts_def)
  have "n1 = n \<or> (\<exists>tg u w2. Table_Lookup table host = Inr tg \<and> target_URL ServiceURL tg (req_Host r) = Inr u \<and>
      forwardRequest (?tr (newForwardingConfigFromTimeouts timeouts)) defaultTransport u
        (ServiceUnavailableRetry timeouts) r w2 n = (n1, w1, p1))"
    using fwd Inr retries
    by (auto simp: newForwardingHandler_def Let_def split: sum.splits prod.splits option.splits)
  with res Inr show ?thesis by blast
qed

lemma proxy_forwards:
  assumes "getHost lookupAddr req = Inr h" "CHR '':'' \<notin> set (req_Host req)" "Table_Lookup table h = Inr tg"
    and "ServiceURL tg = Inr u"
    and "waitFunc (DeploymentReplicas timeouts) (Namespace tg) (Deployment tg) = (replicas, None)"
  shows "\<exists>w1 w' s' n' panicked.
    runProxyServer_handler lookupAddr Memory_Counter now waitFunc table timeouts mkTransport defaultTransport req w (s, n) =
      Ret (w', (s', n'), panicked) \<and>
    forwardRequest
      (mkTransport (NewNetDialer (Connect timeouts) (KeepAlive timeouts)) (DialContextWithRetry (DefaultBackoff timeouts))
         (newForwardingConfigFromTimeouts timeouts))
      defaultTransport u (ServiceUnavailableRetry timeouts) req w1 n = (n', w', panicked)"
proof -
  let ?tr = "mkTransport (NewNetDialer (Connect timeouts) (KeepAlive timeouts)) (DialContextWithRetry (DefaultBackoff timeouts))"
  obtain n' w' panicked where fwd: "newForwardingHandler lookupAddr table waitFunc ServiceURL
      (newForwardingConfigFromTimeouts timeouts) ?tr defaultTransport req w n = (n', w', panicked)"
    by (metis prod_cases3)
  have cfg: "waitTimeout (newForwardingConfigFromTimeouts timeouts) = DeploymentReplicas timeouts"
    "serviceUnavailableRetry (newForwardingConfigFromTimeouts timeouts) = ServiceUnavailableRetry timeouts"
    by (simp_all add: newForwardingConfigFromTimeouts_def)
  have "target_URL ServiceURL tg (req_Host req) = Inr u"
    using assms(2,4) by (simp add: target_URL_def Index_None [THEN iffD2])
  then have "\<exists>w1. forwardRequest (?tr (newForwardingConfigFromTimeouts timeouts)) defaultTransport u
      (ServiceUnavailableRetry timeouts) req w1 n = (n', w', panicked)"
    using fwd assms(1,3,5) cfg by (auto simp: newForwardingHandler_def Let_def)
  with proxy_result [where mkTransport = mkTransport, OF assms(1) fwd, of now s] show ?thesis by blast
qed

text \<open>
  C5: Tenants are isolated. A request from a data-plane namespace \<open>dp-\<close> that the proxy server
  handles either stays in the interceptor or is forwarded to the URL of the target that the routing table has for a service label followed by the caller's own
  namespace; and no count of another host changes, whatever the request's host header says.
\<close>

theorem proxy_tenant_isolation:
  assumes "lookupAddr (strip_port (req_RemoteAddr r)) = Inr (dns # names)"
    and "extractPodInfo dns = (ip, depl, ns)" and "prefix ''dp-'' ns"
    and "runProxyServer_handler lookupAddr Memory_Counter now waitFunc table timeouts mkTransport defaultTransport
      r w (s, n) = Ret (w', (s', n'), panicked)"
  shows "\<exists>svc. CHR ''.'' \<notin> set svc \<and> CHR '':'' \<notin> set svc \<and>
    (\<forall>k. k \<noteq> svc @ ''.'' @ ns \<longrightarrow> Memory_Count k s' = Memory_Count k s) \<and>
    (n' = n \<or> (\<exists>tg u w1. Table_Lookup table (svc @ ''.'' @ ns) = Inr tg \<and> target_URL ServiceURL tg (req_Host r) = Inr u \<and>
       forwardRequest
         (mkTransport (NewNetDialer (Connect timeouts) (KeepAlive timeouts)) (DialContextWithRetry (DefaultBackoff timeouts))
            (newForwardingConfigFromTimeouts timeouts))
         defaultTransport u (ServiceUnavailableRetry timeouts) r w1 n = (n', w', panicked)))"
proof (cases "getHost lookupAddr r")
  case (Inl e)
  with proxy_outcome [OF assms(4)] have "n' = n" "s' = s" by auto
  then show ?thesis by (intro exI [of _ "[]"]) simp
next
  case (Inr host)
  from tenant_host [OF this assms(1-3)] obtain svc
    where "host = svc @ ''.'' @ ns" "CHR ''.'' \<notin> set svc" "CHR '':'' \<notin> set svc" by blast
  with proxy_outcome [OF assms(4)] Inr show ?thesis by (intro exI [of _ svc]) simp
qed

definition tenant_memory :: Memory where
  "tenant_memory = (NewMemory 0 False)\<lparr>countMap := fmap_of_list [(''db.dp-other'', 3)]\<rparr>"

definition sample_maker :: "(unit, nat) transport_maker" where
  "sample_maker d dial cfg r n = (Suc n, Inl ContextCanceled)"

theorem proxy_tenant_isolation_witness:
  "\<exists>w' s' n' panicked. runProxyServer_handler sample_lookup Memory_Counter 100 (\<lambda>_ _ _. (1, None)) NewTable sample_timeouts
      sample_maker (\<lambda>r n. (Suc n, Inl ContextCanceled)) (sample_request ''db.dp-other'') NewRecorder (tenant_memory, 0) =
      Ret (w', (s', n'), panicked) \<and> Memory_Count ''db.dp-other'' s' = 3"
proof -
  let ?r = "sample_request ''db.dp-other''"
  have host: "getHost sample_lookup ?r = Inr ''db.dp-acme''" by code_simp
  obtain n' w' p where fwd: "newForwardingHandler sample_lookup NewTable (\<lambda>_ _ _. (1, None)) ServiceURL
      (newForwardingConfigFromTimeouts sample_timeouts) (sample_maker (NewNetDialer (Connect sample_timeouts) (KeepAlive sample_timeouts))
        (DialContextWithRetry (DefaultBackoff sample_timeouts))) (\<lambda>r n. (Suc n, Inl ContextCanceled)) ?r NewRecorder 0 = (n', w', p)"
    by (metis prod_cases3)
  from proxy_result [where mkTransport = sample_maker, OF host fwd, of 100 tenant_memory] obtain s' where
    run: "runProxyServer_handler sample_lookup Memory_Counter 100 (\<lambda>_ _ _. (1, None)) NewTable sample_timeouts
      sample_maker (\<lambda>r n. (Suc n, Inl ContextCanceled)) ?r NewRecorder (tenant_memory, 0) = Ret (w', (s', n'), p)" by blast
  have "sample_lookup (strip_port (req_RemoteAddr ?r)) = Inr [''10-0-0-7.app.dp-acme.svc.cluster.local.'']"
    "extractPodInfo ''10-0-0-7.app.dp-acme.svc.cluster.local.'' = (''10-0-0-7'', ''app'', ''dp-acme'')"
    "prefix ''dp-'' ''dp-acme''" by code_simp+
  from proxy_tenant_isolation [OF this run] obtain svc where
    "\<forall>k. k \<noteq> svc @ ''.'' @ ''dp-acme'' \<longrightarrow> Memory_Count k s' = Memory_Count k tenant_memory" by blast
  moreover have "''db.dp-other'' \<noteq> svc @ ''.'' @ ''dp-acme''"
    by (rule notI, drule arg_cong [where f = last]) simp
  moreover have "Memory_Count ''db.dp-other'' tenant_memory = 3" by code_simp
  ultimately show ?thesis using run by metis
qed

section \<open>The interceptor as a process\<close>

lemma interceptor_main_iff:
  "interceptor_main loggerErr parseTimeouts parseServing inCluster newForConfig configMaps = Ret (Started p) \<longleftrightarrow>
    loggerErr = None \<and> parseTimeouts = Ret (ip_timeouts p) \<and> parseServing = Ret (ip_serving p) \<and>
    sint (DeploymentCachePollIntervalMS (ip_serving p) * millisecond) \<le> sint (DeploymentReplicas (ip_timeouts p)) \<and>
    (\<exists>cfg cl cm. inCluster = Inr cfg \<and> newForConfig cfg = Inr cl \<and>
       configMaps cl (CurrentNamespace (ip_serving p)) ConfigMapRoutingTableName = Inr cm \<and>
       FetchTableFromConfigMap cm = Inr (ip_table p)) \<and>
    ip_q p = NewMemory (RequestQueueCooldown (ip_serving p)) (EnableRequestQueueCooldown (ip_serving p))"
proof -
  have replace: "Table_Replace t NewTable = t" for t by (cases t) (simp add: Table_Replace_def)
  have valid: "Validate s t = None \<longleftrightarrow> sint (DeploymentCachePollIntervalMS s * millisecond) \<le> sint (DeploymentReplicas t)" for s t
    by (auto simp: Validate_def Let_def word_sless_alt)
  show ?thesis
    unfolding valid [symmetric]
    by (cases p; cases parseTimeouts; cases parseServing; cases inCluster)
      (auto simp: interceptor_main_def GetTable_def replace Let_def split: option.splits sum.splits)
qed

lemma interceptor_main_else:
  "case interceptor_main loggerErr parseTimeouts parseServing inCluster newForConfig configMaps of
      Panic msg \<Rightarrow> Panic msg \<in> {bind_go parseTimeouts (\<lambda>_. Ret ()), bind_go parseServing (\<lambda>_. Ret ())}
    | Ret (Exit code msg) \<Rightarrow> code = 1
    | Ret (Started _) \<Rightarrow> True"
  by (cases parseTimeouts; cases parseServing)
    (auto simp: interceptor_main_def Let_def split: option.splits sum.splits prod.splits)

text \<open>
  C24: Exactly when the interceptor comes up. It starts if and only if the logger is built, both
  configurations parse and validate, a Kubernetes client can be made, and the ConfigMap of its
  namespace has a routing table that decodes; it then has that table and an empty counter. In
  every other case it exits with code 1, unless the parsing of a configuration panics.
\<close>

theorem interceptor_main_outcome:
  "(interceptor_main loggerErr parseTimeouts parseServing inCluster newForConfig configMaps = Ret (Started p) \<longleftrightarrow>
     loggerErr = None \<and> parseTimeouts = Ret (ip_timeouts p) \<and> parseServing = Ret (ip_serving p) \<and>
     sint (DeploymentCachePollIntervalMS (ip_serving p) * millisecond) \<le> sint (DeploymentReplicas (ip_timeouts p)) \<and>
     (\<exists>cfg cl cm. inCluster = Inr cfg \<and> newForConfig cfg = Inr cl \<and>
        configMaps cl (CurrentNamespace (ip_serving p)) ConfigMapRoutingTableName = Inr cm \<and>
        FetchTableFromConfigMap cm = Inr (ip_table p)) \<and>
     ip_q p = NewMemory (RequestQueueCooldown (ip_serving p)) (EnableRequestQueueCooldown (ip_serving p))) \<and>
   (case interceptor_main loggerErr parseTimeouts parseServing inCluster newForConfig configMaps of
      Panic msg \<Rightarrow> Panic msg \<in> {bind_go parseTimeouts (\<lambda>_. Ret ()), bind_go parseServing (\<lambda>_. Ret ())}
    | Ret (Exit code msg) \<Rightarrow> code = 1
    | Ret (Started _) \<Rightarrow> True)"
  using interceptor_main_iff interceptor_main_else by (rule conjI)

text \<open>
  C14: The interceptor lives or dies as a whole. In every run of its goroutines, once one of the
  deployment cache, the table updater, the admin server and the proxy server has returned, at most
  three more returns can follow, and when nothing can return any more all of them have: \<open>Wait\<close>
  returns an error and the process exits with code 1.
\<close>

theorem interceptor_stops_whole:
  assumes "grp_reach interceptor_returns interceptor_tasks False g" "r \<in> set (g_rets g)" "r \<noteq> None"
    and "(grp_step interceptor_returns interceptor_tasks False ^^ k) g g'"
  shows "k \<le> 3 \<and> ((\<nexists>h. grp_step interceptor_returns interceptor_tasks False g' h) \<longrightarrow>
    (\<exists>err. grp_result g' = Some (Some err) \<and> interceptor_exit (Some err) = Exit 1 ''error with interceptor''))"
proof -
  have ok: "g_ctx g \<noteq> None" "length (g_rets g) = 4"
    using grp_ok_steps [OF assms(1) grp_ok_Go] assms(2,3) by (auto simp: grp_ok_def interceptor_tasks_def)
  have "open_tasks g < 4"
    using ok length_filter_less [of r "g_rets g" "\<lambda>r. r = None"] assms(2,3) by (auto simp: open_tasks_def)
  moreover have "k \<le> open_tasks g" by (rule interceptor_grp.group_bounded [OF assms(1,4)])
  ultimately show ?thesis
    using interceptor_grp.group_stops [OF assms(1) ok(1) assms(4)] by (simp add: interceptor_exit_def)
qed

lemma proxy_fails_first:
  "grp_step interceptor_returns interceptor_tasks False (grp_Go interceptor_tasks)
     (task_done 3 (Some (External ''bind'')) (grp_Go interceptor_tasks))"
  by (rule grp_step.returned)
    (auto simp: interceptor_tasks_def grp_Go_def ServeContext_def
      intro!: interceptor_returns.proxy_server [where listenErr = "Some (External ''bind'')"])

theorem interceptor_stops_whole_witness:
  "\<exists>g. grp_reach interceptor_returns interceptor_tasks False g \<and> g_rets g ! 3 = Some (Some (External ''bind'')) \<and>
     (\<forall>k g'. (grp_step interceptor_returns interceptor_tasks False ^^ k) g g' \<longrightarrow> k \<le> 3)"
proof -
  let ?g = "task_done 3 (Some (External ''bind'')) (grp_Go interceptor_tasks)"
  have r: "grp_reach interceptor_returns interceptor_tasks False ?g" using proxy_fails_first by simp
  have m: "g_rets ?g ! 3 = Some (Some (External ''bind''))" "Some (Some (External ''bind'')) \<in> set (g_rets ?g)"
    by (simp_all add: task_done_def grp_Go_def interceptor_tasks_def numeral_3_eq_3)
  from interceptor_stops_whole [OF r m(2)] r m(1) show ?thesis by blast
qed

text \<open>The other two programs stop as a whole too, but they then end with exit code 0.\<close>

lemma scaler_stops_whole:
  assumes "grp_reach scaler_returns scaler_tasks False g" "g_ctx g \<noteq> None"
    and "(grp_step scaler_returns scaler_tasks False ^^ k) g g'"
  shows "k \<le> 5 \<and> ((\<nexists>h. grp_step scaler_returns scaler_tasks False g' h) \<longrightarrow>
    (\<exists>err. grp_result g' = Some (Some err) \<and> scaler_exit (Some err) = Exit 0 ''one or more of the servers failed''))"
  using scaler_grp.group_stops [OF assms] by (simp add: scaler_tasks_def scaler_exit_def)

lemma operator_stops_whole:
  assumes "grp_reach operator_returns operator_tasks True g" "g_ctx g \<noteq> None"
    and "(grp_step operator_returns operator_tasks True ^^ k) g g'"
  shows "k \<le> 2 \<and> ((\<nexists>h. grp_step operator_returns operator_tasks True g' h) \<longrightarrow>
    (\<exists>err. grp_result g' = Some (Some err) \<and> operator_exit (Some err) = Exit 0 ''running the operator''))"
  using operator_grp.group_stops [OF assms] by (simp add: operator_tasks_def operator_exit_def)

end
