(* ===== verification/Fleet.thy ===== *)
theory Fleet
  imports Process
begin

text \<open>
  The operator, the interceptors and the scalers as one system around the ConfigMap of the routing
  table. The API server keeps the versions of the ConfigMap; the operator appends to them, and each
  interceptor and scaler follows them with its updater, at its own pace. The steps run the
  definitions of the components: \<open>Reconcile\<close>, \<open>GetTable\<close>, \<open>updater_loop\<close> and \<open>ping_handler\<close>.
\<close>

section \<open>The target of a reconciled host\<close>

lemma reconciled_target:
  assumes "api_server cl"
    and "cl_GetHTTPScaledObject cl req w = Inr httpso" "ho_DeletionTimestamp httpso = None"
    and "valid_object httpso" "valid_table t" "tm t \<noteq> None"
    and "Reconcile r cl now req t w = Ret (t', w', ra, None)"
    and "h \<in> set (effective_hosts (ho_Spec httpso))" "\<not> Table_HasHost t h"
  shows "\<exists>ref tg. published cl (base_CurrentNamespace (rc_BaseConfig r)) w' = Inr t' \<and>
    spec_ScaleTargetRef (ho_Spec httpso) = Some ref \<and>
    Table_Lookup t' h = Inr tg \<and> Namespace tg = ho_Namespace httpso \<and> Service tg = ref_Service ref \<and>
    sint (Port tg) = sint (ref_Port ref) \<and> Deployment tg = ref_Deployment ref"
proof -
  from Reconcile_routes [OF assms(1-7)] obtain tg where tg: "app_target (rc_BaseConfig r) httpso = Ret tg"
    and look: "map_get (tm t') h = (case map_get (tm t) h of
       Some old \<Rightarrow> Some old | None \<Rightarrow> if h \<in> set (effective_hosts (ho_Spec httpso)) then Some tg else None)"
    and pub: "published cl (base_CurrentNamespace (rc_BaseConfig r)) w' = Inr t'"
    by blast
  have "map_get (tm t) h = None"
    using assms(9) by (cases "map_get (tm t) h") (auto simp: Table_HasHost_def)
  with look assms(8) have h: "map_get (tm t') h = Some tg" by simp
  obtain ks where "lookup_keys h = h # ks" using hd_lookup_keys by blast
  with h have "Table_Lookup t' h = Inr tg" by (simp add: Table_Lookup_def)
  with app_target_fields [OF tg] pub show ?thesis by blast
qed

section \<open>Versions of the ConfigMap\<close>

text \<open>
  What is assumed of the API server beyond \<open>api_server\<close>: it keeps the versions of the ConfigMap,
  oldest first. A read that succeeds gives the newest version, since the manager's client does not
  cache ConfigMaps; a patch computed from the newest version appends the new one, or, if it fails or
  changes nothing, may append nothing; and the calls for other kinds append nothing.
\<close>

definition versioned :: "'w Client \<Rightarrow> ObjectKey \<Rightarrow> ('w \<Rightarrow> ConfigMap list) \<Rightarrow> bool" where
  "versioned cl k hist \<longleftrightarrow>
     (\<forall>w cm. cl_GetConfigMap cl k w = Inr cm \<longrightarrow> hist w \<noteq> [] \<and> cm = last (hist w)) \<and>
     (\<forall>w w' old new res. cl_GetConfigMap cl k w = Inr old \<longrightarrow> (cm_Namespace new, cm_Name new) = k \<longrightarrow>
        cl_PatchConfigMap cl new old w = (w', res) \<longrightarrow>
        hist w' = hist w @ [new] \<or> hist w' = hist w \<and> (isl res \<or> new = old)) \<and>
     (\<forall>w so. hist (fst (cl_Create cl so w)) = hist w) \<and>
     (\<forall>w so. hist (fst (cl_Patch cl so w)) = hist w) \<and>
     (\<forall>w k'. hist (fst (cl_DeleteScaledObject cl k' w)) = hist w) \<and>
     (\<forall>w ho. hist (fst (cl_Update cl ho w)) = hist w) \<and>
     (\<forall>w ho. hist (fst (cl_UpdateStatus cl ho w)) = hist w)"

text \<open>Objects come from the server as JSON, so their strings are valid UTF-8.\<close>

definition utf8_objects :: "'w Client \<Rightarrow> bool" where
  "utf8_objects cl \<longleftrightarrow> (\<forall>k w ho. cl_GetHTTPScaledObject cl k w = Inr ho \<longrightarrow> valid_object ho)"

lemma versioned_latest:
  "versioned cl k hist \<Longrightarrow> cl_GetConfigMap cl k w = Inr cm \<Longrightarrow> hist w \<noteq> [] \<and> cm = last (hist w)"
  unfolding versioned_def by blast

lemma versioned_patch:
  "versioned cl k hist \<Longrightarrow> cl_GetConfigMap cl k w = Inr old \<Longrightarrow> (cm_Namespace new, cm_Name new) = k \<Longrightarrow>
   cl_PatchConfigMap cl new old w = (w', res) \<Longrightarrow>
   hist w' = hist w @ [new] \<or> hist w' = hist w \<and> (isl res \<or> new = old)"
  unfolding versioned_def by (elim conjE) metis

lemma versioned_keeps:
  assumes "versioned cl k hist"
  shows "hist (fst (cl_Create cl so w)) = hist w" "hist (fst (cl_Patch cl so w)) = hist w"
    "hist (fst (cl_DeleteScaledObject cl k' w)) = hist w" "hist (fst (cl_Update cl ho w)) = hist w"
    "hist (fst (cl_UpdateStatus cl ho w)) = hist w"
  using assms unfolding versioned_def by blast+

section \<open>Routes and the objects they come from\<close>

definition routes :: "Table \<Rightarrow> (string \<times> Target) set" where
  "routes t = {(h, tg). map_get (tm t) h = Some tg}"

definition object_routes :: "BaseCfg \<Rightarrow> HTTPScaledObject \<Rightarrow> (string \<times> Target) set" where
  "object_routes base ho = {(h, tg). h \<in> set (effective_hosts (ho_Spec ho)) \<and> app_target base ho = Ret tg}"

definition sound_table :: "BaseCfg \<Rightarrow> HTTPScaledObject set \<Rightarrow> Table \<Rightarrow> bool" where
  "sound_table base objs t \<longleftrightarrow> valid_table t \<and> tm t \<noteq> None \<and> routes t \<subseteq> (\<Union>ho \<in> objs. object_routes base ho)"

definition sound_versions :: "BaseCfg \<Rightarrow> HTTPScaledObject set \<Rightarrow> ConfigMap list \<Rightarrow> bool" where
  "sound_versions base objs cms \<longleftrightarrow>
     (\<forall>cm \<in> set cms. \<exists>t. FetchTableFromConfigMap cm = Inr t \<and> sound_table base objs t)"

text \<open>The versions that an operation appended.\<close>

definition appends :: "BaseCfg \<Rightarrow> HTTPScaledObject set \<Rightarrow> ConfigMap list \<Rightarrow> ConfigMap list \<Rightarrow> bool" where
  "appends base objs cms cms' \<longleftrightarrow> (\<exists>new. cms' = cms @ new \<and> sound_versions base objs new)"

lemma appends_refl [simp, intro]: "appends base objs cms cms"
  by (auto simp: appends_def sound_versions_def)

lemma appends_trans: "appends base objs a b \<Longrightarrow> appends base objs b c \<Longrightarrow> appends base objs a c"
  by (auto simp: appends_def sound_versions_def)

lemma sound_NewTable: "sound_table base objs NewTable"
proof -
  have "valid_table NewTable" "tm NewTable \<noteq> None" by code_simp+
  then show ?thesis by (simp add: sound_table_def routes_def NewTable_def map_get_def)
qed

lemma sound_mono: "sound_table base objs t \<Longrightarrow> objs \<subseteq> objs' \<Longrightarrow> sound_table base objs' t"
  unfolding sound_table_def by blast

lemma sound_remove: "sound_table base objs t \<Longrightarrow> sound_table base objs (remove_targets hosts t)"
  by (auto simp: sound_table_def valid_remove_targets remove_targets_not_nil routes_def remove_targets_lookup split: if_splits)

lemma sound_add:
  assumes "sound_table base objs t" "ho \<in> objs" "valid_object ho" "app_target base ho = Ret tg"
    and "add_targets (effective_hosts (ho_Spec ho)) tg t = Ret t'"
  shows "sound_table base objs t'"
proof -
  have t: "valid_table t" "tm t \<noteq> None" "routes t \<subseteq> (\<Union>ho \<in> objs. object_routes base ho)"
    using assms(1) by (simp_all add: sound_table_def)
  obtain t1 where t1: "add_targets (effective_hosts (ho_Spec ho)) tg t = Ret t1" "tm t1 \<noteq> None"
    "\<And>h. map_get (tm t1) h = (case map_get (tm t) h of
       Some x \<Rightarrow> Some x | None \<Rightarrow> if h \<in> set (effective_hosts (ho_Spec ho)) then Some tg else None)"
    using add_targets_lookup [OF t(2)] by metis
  have "routes t' \<subseteq> routes t \<union> object_routes base ho"
    using t1 assms(4,5) by (auto simp: routes_def object_routes_def split: option.splits if_splits)
  moreover have "valid_table t'"
    using valid_add_targets [OF t(1,2) assms(5) valid_app_target [OF assms(3,4)]] assms(3) by (simp add: valid_object_def)
  ultimately show ?thesis using t t1 assms(2,5) by (fastforce simp: sound_table_def)
qed

section \<open>What a reconciliation appends\<close>

lemma updateRoutingMap_appends:
  assumes "api_server cl" "versioned cl (base_CurrentNamespace base, ConfigMapRoutingTableName) hist"
    and "sound_table base objs t" "updateRoutingMap cl (base_CurrentNamespace base) t w = Ret (w', e)"
  shows "appends base objs (hist w) (hist w')"
proof (cases "cl_GetConfigMap cl (base_CurrentNamespace base, ConfigMapRoutingTableName) w")
  case (Inl err)
  then show ?thesis using assms(4) by (auto simp: updateRoutingMap_def GetConfigMap_def)
next
  case (Inr cm)
  let ?k = "(base_CurrentNamespace base, ConfigMapRoutingTableName)"
  have valid: "valid_table t" using assms(3) by (simp add: sound_table_def)
  obtain newCM se where save: "SaveTableToConfigMap t cm = Ret (newCM, se)"
    using assms(4) Inr by (cases "SaveTableToConfigMap t cm") (auto simp: updateRoutingMap_def GetConfigMap_def)
  have fetch: "se = None" "FetchTableFromConfigMap newCM = Inr t" using Fetch_Save [OF valid save] by simp_all
  obtain res where patch: "cl_PatchConfigMap cl newCM cm w = (w', res)"
    using assms(4) Inr save fetch(1) by (auto simp: updateRoutingMap_def GetConfigMap_def PatchConfigMap_def split: sum.splits prod.splits)
  have "(cm_Namespace newCM, cm_Name newCM) = (cm_Namespace cm, cm_Name cm)"
    using save by (cases "cm_Data cm") (auto simp: SaveTableToConfigMap_def Table_MarshalJSON_def)
  also have "\<dots> = ?k" by (rule api_name [OF assms(1) Inr])
  finally have "hist w' = hist w @ [newCM] \<or> hist w' = hist w"
    using versioned_patch [OF assms(2) Inr _ patch] by blast
  then show ?thesis using fetch(2) assms(3) by (auto simp: appends_def sound_versions_def)
qed

lemma SaveStatus_hist: "versioned cl k hist \<Longrightarrow> hist (fst (SaveStatus cl h w)) = hist w"
proof -
  assume "versioned cl k hist"
  moreover have "fst (SaveStatus cl h w) = fst (cl_UpdateStatus cl h w)"
    by (auto simp: SaveStatus_def split: prod.splits sum.splits)
  ultimately show ?thesis by (simp add: versioned_keeps)
qed

lemma deferred_hist:
  "versioned cl k hist \<Longrightarrow> deferred cl (t, w, h, e) = (t', w', h', e') \<Longrightarrow> t' = t \<and> e' = e \<and> hist w' = hist w"
  using SaveStatus_hist [of cl k hist h w] by (auto simp: deferred_def split: prod.splits)

text \<open>The hypotheses shared below, for the ConfigMap of the operator's namespace.\<close>

definition follows_laws :: "'w Client \<Rightarrow> BaseCfg \<Rightarrow> ('w \<Rightarrow> ConfigMap list) \<Rightarrow> bool" where
  "follows_laws cl base hist \<longleftrightarrow> api_server cl \<and> utf8_objects cl \<and>
     versioned cl (base_CurrentNamespace base, ConfigMapRoutingTableName) hist"

lemma follows_lawsD:
  assumes "follows_laws cl base hist"
  shows "api_server cl" "utf8_objects cl" "versioned cl (base_CurrentNamespace base, ConfigMapRoutingTableName) hist"
  using assms by (simp_all add: follows_laws_def)

lemma remove_routes_sound:
  assumes laws: "follows_laws cl base hist" and t: "sound_table base objs t"
    and run: "remove_routes cl now base t h w = Ret (t', w', h', e)"
  shows "sound_table base objs t' \<and> appends base objs (hist w) (hist w')"
proof -
  let ?hs = "go_slice (spec_Hosts (ho_Spec h))"
  from run obtain t1 w1 e1 h1 where
    rem: "removeAndUpdateRoutingTable cl ?hs (base_CurrentNamespace base) t w = Ret (t1, w1, e1)"
    and d: "deferred cl (t1, w1, h1, e1) = (t', w', h', e)"
    by (cases "removeAndUpdateRoutingTable cl ?hs (base_CurrentNamespace base) t w") (auto simp: remove_routes_def Let_def)
  note d' = deferred_hist [OF follows_lawsD(3) [OF laws] d]
  note rem' = removeAndUpdate_result [OF rem]
  then have "sound_table base objs t1" using sound_remove [OF t] by simp
  with updateRoutingMap_appends [OF follows_lawsD(1,3) [OF laws]] rem' d' show ?thesis by auto
qed

lemma removeApplicationResources_sound:
  assumes laws: "follows_laws cl base hist" and t: "sound_table base objs t"
    and run: "removeApplicationResources cl now base t h w = Ret (t', w', h', e)"
  shows "sound_table base objs t' \<and> appends base objs (hist w) (hist w')"
proof -
  let ?h1 = "AddCondition h (SetMessage (CreateCondition now Terminating ConditionUnknown TerminatingResources)
      ''Received termination signal'')"
  obtain name where name: "AppScaledObjectName ?h1 = Ret name"
    using run by (cases "AppScaledObjectName ?h1") (auto simp: removeApplicationResources_def Let_def)
  obtain w1 e1 where del: "cl_DeleteScaledObject cl (ho_Namespace ?h1, name) w = (w1, e1)" by fastforce
  then have w1: "hist w1 = hist w"
    using versioned_keeps(3) [OF follows_lawsD(3) [OF laws], of "(ho_Namespace ?h1, name)" w] by simp
  consider "remove_routes cl now base t ?h1 w1 = Ret (t', w', h', e)"
    | h2 e2 where "deferred cl (t, w1, h2, e2) = (t', w', h', e)"
    using run name del by (cases e1) (auto simp: removeApplicationResources_def Let_def split: if_splits)
  then show ?thesis
  proof cases
    case 1
    from remove_routes_sound [OF laws t this] w1 show ?thesis by simp
  next
    case 2
    from deferred_hist [OF follows_lawsD(3) [OF laws] this] w1 t show ?thesis by simp
  qed
qed

lemma createOrUpdateScaledObject_hist:
  assumes "versioned cl k hist" "createOrUpdateScaledObject cl now host h w = Ret (w', h', e)"
  shows "hist w' = hist w"
proof -
  obtain so where so: "appScaledObject host h = Ret so"
    using assms(2) by (cases "appScaledObject host h") (auto simp: createOrUpdateScaledObject_def)
  obtain w1 e1 where cr: "cl_Create cl so w = (w1, e1)" by fastforce
  obtain w2 e2 where pa: "cl_Patch cl so w1 = (w2, e2)" by fastforce
  have "hist w1 = hist w" "hist w2 = hist w1"
    using versioned_keeps(1,2) [OF assms(1), of so] cr pa by (metis fst_conv)+
  then show ?thesis
    using assms(2) so cr pa
    by (auto simp: createOrUpdateScaledObject_def split: option.splits sum.splits if_splits)
qed

lemma createOrUpdateApplicationResources_sound:
  assumes laws: "follows_laws cl base hist" and t: "sound_table base objs t"
    and ho: "ho \<in> objs" "valid_object ho" "go_slice (spec_Hosts (ho_Spec h)) = effective_hosts (ho_Spec ho)"
      "app_target base h = app_target base ho"
    and run: "createOrUpdateApplicationResources cl now base es t h w = Ret (t', w', h', e)"
  shows "sound_table base objs t' \<and> appends base objs (hist w) (hist w')"
proof -
  let ?h1 = "AddCondition h (SetMessage (CreateCondition now Pending ConditionUnknown PendingCreation)
      ''Identified HTTPScaledObject creation signal'')"
  let ?es = "ExternalScaler_HostName es (base_CurrentNamespace base)"
  let ?hs = "effective_hosts (ho_Spec ho)"
  from run obtain w1 h2 e1 where so: "createOrUpdateScaledObject cl now ?es ?h1 w = Ret (w1, h2, e1)"
    by (cases "createOrUpdateScaledObject cl now ?es ?h1 w") (auto simp: createOrUpdateApplicationResources_def Let_def)
  have keeps: "ho_Spec h2 = ho_Spec h" "ho_Namespace h2 = ho_Namespace h"
    using createOrUpdateScaledObject_keeps [OF so] by simp_all
  have w1: "hist w1 = hist w" by (rule createOrUpdateScaledObject_hist [OF follows_lawsD(3) [OF laws] so])
  show ?thesis
  proof (cases e1)
    case (Some err)
    then have "deferred cl (t, w1, h2, Some err) = (t', w', h', e)"
      using run so by (simp add: createOrUpdateApplicationResources_def Let_def)
    from deferred_hist [OF follows_lawsD(3) [OF laws] this] w1 t show ?thesis by simp
  next
    case None
    obtain tg where tg: "app_target base h2 = Ret tg"
      using run so None by (cases "app_target base h2") (auto simp: createOrUpdateApplicationResources_def Let_def)
    obtain t1 w2 e2 where add: "addAndUpdateRoutingTable cl ?hs tg (base_CurrentNamespace base) t w1 = Ret (t1, w2, e2)"
      and d: "deferred cl (t1, w2, h2, e2) = (t', w', h', e)"
      using run so None tg ho(3) keeps
      by (cases "addAndUpdateRoutingTable cl ?hs tg (base_CurrentNamespace base) t w1")
        (auto simp: createOrUpdateApplicationResources_def Let_def)
    note d' = deferred_hist [OF follows_lawsD(3) [OF laws] d]
    note add' = addAndUpdate_result [OF add]
    have "app_target base ho = Ret tg" using tg app_target_cong [OF keeps] ho(4) by metis
    with add' have "sound_table base objs t1" using sound_add [OF t ho(1,2)] by blast
    moreover from this have "appends base objs (hist w1) (hist w2)"
      using updateRoutingMap_appends [OF follows_lawsD(1,3) [OF laws]] add' by blast
    ultimately show ?thesis using d' w1 by simp
  qed
qed

lemma finalizeScaledObject_hist:
  assumes "versioned cl k hist" "finalizeScaledObject cl h w = Ret (w', h', e)"
  shows "hist w' = hist w"
proof (cases "remove_string (ho_Finalizers h) httpScaledObjectFinalizer")
  case (Ret fs)
  then show ?thesis
    using assms(2) versioned_keeps(4) [OF assms(1), of "h\<lparr>ho_Finalizers := fs\<rparr>" w]
    by (auto simp: finalizeScaledObject_def Let_def split: if_splits prod.splits sum.splits)
qed (use assms(2) in \<open>auto simp: finalizeScaledObject_def split: if_splits\<close>)

lemma ensureFinalizer_hist:
  assumes "versioned cl k hist" "ensureFinalizer cl h w = (w', h', e)"
  shows "hist w' = hist w"
  using assms(2) versioned_keeps(4) [OF assms(1), of "h\<lparr>ho_Finalizers := ho_Finalizers h @ [httpScaledObjectFinalizer]\<rparr>" w]
  by (auto simp: ensureFinalizer_def Let_def split: if_splits prod.splits sum.splits)

lemma Reconcile_deleted_sound:
  assumes laws: "follows_laws cl (rc_BaseConfig r) hist" and t: "sound_table (rc_BaseConfig r) objs t"
    and get: "cl_GetHTTPScaledObject cl req w = Inr ho" "ho_DeletionTimestamp ho \<noteq> None"
    and run: "Reconcile r cl now req t w = Ret (t', w', res)"
  shows "sound_table (rc_BaseConfig r) objs t' \<and> appends (rc_BaseConfig r) objs (hist w) (hist w')"
proof -
  let ?rem = "removeApplicationResources cl now (rc_BaseConfig r) t ho w"
  obtain t1 w1 h1 e1 where rem: "?rem = Ret (t1, w1, h1, e1)"
    using run get by (cases ?rem) (auto simp: Reconcile_def)
  have "t' = t1 \<and> hist w' = hist w1"
  proof (cases e1)
    case (Some err)
    then show ?thesis using run get rem by (simp add: Reconcile_def)
  next
    case None
    then obtain h2 e2 where "finalizeScaledObject cl h1 w1 = Ret (w', h2, e2)" "t' = t1"
      using run get rem by (cases "finalizeScaledObject cl h1 w1") (auto simp: Reconcile_def)
    with finalizeScaledObject_hist [OF follows_lawsD(3) [OF laws]] show ?thesis by blast
  qed
  with removeApplicationResources_sound [OF laws t rem] show ?thesis by simp
qed

lemma Reconcile_live_sound:
  assumes laws: "follows_laws cl (rc_BaseConfig r) hist" and t: "sound_table (rc_BaseConfig r) objs t"
    and get: "cl_GetHTTPScaledObject cl req w = Inr ho" "ho_DeletionTimestamp ho = None" "ho \<in> objs"
    and run: "Reconcile r cl now req t w = Ret (t', w', res)"
  shows "sound_table (rc_BaseConfig r) objs t' \<and> appends (rc_BaseConfig r) objs (hist w) (hist w')"
proof -
  let ?b = "rc_BaseConfig r"
  note api = follows_lawsD(1) [OF laws] and ver = follows_lawsD(3) [OF laws]
  have valid: "valid_object ho" using follows_lawsD(2) [OF laws] get(1) unfolding utf8_objects_def by blast
  obtain w1 h1 e1 where fin: "ensureFinalizer cl ho w = (w1, h1, e1)" by (cases "ensureFinalizer cl ho w")
  have w1: "hist w1 = hist w" by (rule ensureFinalizer_hist [OF ver fin])
  obtain h2 e2 where san: "sanitizeHosts h1 = (h2, e2)" by fastforce
  show ?thesis
  proof (cases "e1 = None \<and> e2 = None")
    case False
    then have "t' = t \<and> w' = w1" using run get fin san by (cases e1; cases e2) (auto simp: Reconcile_def)
    with t w1 show ?thesis by simp
  next
    case True
    let ?create = "createOrUpdateApplicationResources cl now ?b (rc_ExternalScalerConfig r) t h2 w1"
    obtain t1 w2 h3 e3 where cr: "?create = Ret (t1, w2, h3, e3)"
      using run get fin san True by (cases ?create) (auto simp: Reconcile_def)
    have keep: "ho_Spec h1 = ho_Spec ho" "ho_Namespace h1 = ho_Namespace ho"
      using ensureFinalizer_keeps [OF api] fin True by simp_all
    have "go_slice (spec_Hosts (ho_Spec h2)) = effective_hosts (ho_Spec ho)" "app_target ?b h2 = app_target ?b ho"
      using sanitizeHosts_ok [of h1 h2] san True keep app_target_cong [OF keep] by auto
    from createOrUpdateApplicationResources_sound [OF laws t get(3) valid this cr] w1
    have c: "sound_table ?b objs t1" "appends ?b objs (hist w) (hist w2)" by simp_all
    show ?thesis
    proof (cases e3)
      case None
      then obtain h4 h5 where "t' = t1" "SaveStatus cl h4 w2 = (w', h5)"
        using run get fin san True cr by (auto simp: Reconcile_def split: prod.splits)
      with SaveStatus_hist [OF ver, of h4 w2] c show ?thesis by simp
    next
      case (Some err)
      then obtain h4 e4 where rem: "removeApplicationResources cl now ?b t1 h3 w2 = Ret (t', w', h4, e4)"
        using run get fin san True cr
        by (cases "removeApplicationResources cl now ?b t1 h3 w2") (auto simp: Reconcile_def)
      from removeApplicationResources_sound [OF laws c(1) rem] c(2) show ?thesis by (blast intro: appends_trans)
    qed
  qed
qed

lemma Reconcile_sound:
  assumes laws: "follows_laws cl (rc_BaseConfig r) hist" and t: "sound_table (rc_BaseConfig r) objs t"
    and objs: "objs' = objs \<union> {ho. cl_GetHTTPScaledObject cl req w = Inr ho}"
    and run: "Reconcile r cl now req t w = Ret (t', w', res)"
  shows "sound_table (rc_BaseConfig r) objs' t' \<and> appends (rc_BaseConfig r) objs' (hist w) (hist w')"
proof -
  have t: "sound_table (rc_BaseConfig r) objs' t" by (rule sound_mono [OF t]) (simp add: objs)
  show ?thesis
  proof (cases "cl_GetHTTPScaledObject cl req w")
    case (Inl err)
    then show ?thesis using run t by (auto simp: Reconcile_def split: if_splits)
  next
    case (Inr ho)
    then have "ho \<in> objs'" by (simp add: objs)
    with Reconcile_live_sound [OF laws t Inr _ _ run] Reconcile_deleted_sound [OF laws t Inr _ run] show ?thesis by blast
  qed
qed

section \<open>The fleet\<close>

text \<open>
  A follower is an interceptor or a scaler: its routing table, and how many versions of the
  ConfigMap its informer has passed. \<open>fl_objects\<close> are the objects that the operator has read so far.
\<close>

record follower =
  fo_table :: Table
  fo_pos :: nat

record 'w fleet =
  fl_world :: 'w
  fl_operator :: Table
  fl_objects :: "HTTPScaledObject set"
  fl_followers :: "follower list"

text \<open>
  The steps. The operator reconciles one object at a time, or is restarted with the table of
  \<open>operator_main\<close>; everybody else may change the API server as long as the ConfigMap is the
  operator's; an interceptor starts with the table that \<open>GetTable\<close> reads and a scaler with an empty
  one; an informer delivers the version it has reached again, or any later one, to the loop of the
  updater; and an interceptor that is pinged reads the newest version.
\<close>

definition getter_of :: "HTTPScaledObjectReconciler \<Rightarrow> 'w Client \<Rightarrow> 'w \<Rightarrow> string \<Rightarrow> error + ConfigMap" where
  "getter_of r cl w = (\<lambda>name. cl_GetConfigMap cl (base_CurrentNamespace (rc_BaseConfig r), name) w)"

inductive fleet_step ::
    "HTTPScaledObjectReconciler \<Rightarrow> 'w Client \<Rightarrow> ('w \<Rightarrow> ConfigMap list) \<Rightarrow> 'w fleet \<Rightarrow> 'w fleet \<Rightarrow> bool"
  for r cl hist where
  reconcile: "Reconcile r cl now req (fl_operator s) (fl_world s) = Ret (t', w', res) \<Longrightarrow>
    fleet_step r cl hist s (s\<lparr>fl_world := w', fl_operator := t',
      fl_objects := fl_objects s \<union> {ho. cl_GetHTTPScaledObject cl req (fl_world s) = Inr ho}\<rparr>)"
| restart: "operator_main getenv newBase managerErr setupErr healthzErr readyzErr newClientset = Started p \<Longrightarrow>
    op_reconciler p = r \<Longrightarrow> fleet_step r cl hist s (s\<lparr>fl_operator := op_table p\<rparr>)"
| others: "hist w' = hist (fl_world s) \<Longrightarrow> fleet_step r cl hist s (s\<lparr>fl_world := w'\<rparr>)"
| interceptor_starts: "GetTable (getter_of r cl (fl_world s)) NewTable = (t, None) \<Longrightarrow>
    fleet_step r cl hist s (s\<lparr>fl_followers := fl_followers s @ [\<lparr>fo_table = t, fo_pos = 0\<rparr>]\<rparr>)"
| scaler_starts: "fleet_step r cl hist s (s\<lparr>fl_followers := fl_followers s @ [\<lparr>fo_table = NewTable, fo_pos = 0\<rparr>]\<rparr>)"
| stops: "fl_followers s = fs @ f # fs' \<Longrightarrow> fleet_step r cl hist s (s\<lparr>fl_followers := fs @ fs'\<rparr>)"
| deliver: "fl_followers s = fs @ f # fs' \<Longrightarrow> hist (fl_world s) = older @ cm # newer \<Longrightarrow> fo_pos f \<le> Suc (length older) \<Longrightarrow>
    updater_loop (None :: (unit \<Rightarrow> unit \<times> error option) option) [Received (ObjConfigMap cm)] (fo_table f) () = (t', (), None) \<Longrightarrow>
    fleet_step r cl hist s (s\<lparr>fl_followers := fs @ \<lparr>fo_table = t', fo_pos = Suc (length older)\<rparr> # fs'\<rparr>)"
| ping: "fl_followers s = fs @ f # fs' \<Longrightarrow> ping_handler (getter_of r cl (fl_world s)) (fo_table f) rw = (t', rw') \<Longrightarrow>
    fleet_step r cl hist s (s\<lparr>fl_followers := fs @ f\<lparr>fo_table := t'\<rparr> # fs'\<rparr>)"

definition fleet_init :: "BaseCfg \<Rightarrow> ('w \<Rightarrow> ConfigMap list) \<Rightarrow> 'w fleet \<Rightarrow> bool" where
  "fleet_init base hist s \<longleftrightarrow> fl_operator s = NewTable \<and> fl_followers s = [] \<and> hist (fl_world s) \<noteq> [] \<and>
     sound_versions base (fl_objects s) (hist (fl_world s))"

abbreviation fleet_reach ::
    "HTTPScaledObjectReconciler \<Rightarrow> 'w Client \<Rightarrow> ('w \<Rightarrow> ConfigMap list) \<Rightarrow> 'w fleet \<Rightarrow> 'w fleet \<Rightarrow> bool" where
  "fleet_reach r cl hist \<equiv> (fleet_step r cl hist)\<^sup>*\<^sup>*"

section \<open>The invariant\<close>

text \<open>A follower has the table of some version, none older than its informer has passed.\<close>

definition follows :: "ConfigMap list \<Rightarrow> follower \<Rightarrow> bool" where
  "follows cms f \<longleftrightarrow> fo_pos f \<le> length cms \<and>
     (fo_pos f = 0 \<and> fo_table f = NewTable \<or>
      (\<exists>j < length cms. fo_pos f \<le> Suc j \<and> FetchTableFromConfigMap (cms ! j) = Inr (fo_table f)))"

definition fleet_ok :: "BaseCfg \<Rightarrow> ('w \<Rightarrow> ConfigMap list) \<Rightarrow> 'w fleet \<Rightarrow> bool" where
  "fleet_ok base hist s \<longleftrightarrow> hist (fl_world s) \<noteq> [] \<and> sound_table base (fl_objects s) (fl_operator s) \<and>
     sound_versions base (fl_objects s) (hist (fl_world s)) \<and> list_all (follows (hist (fl_world s))) (fl_followers s)"

lemma follows_append: "follows cms f \<Longrightarrow> follows (cms @ new) f"
  by (auto simp: follows_def nth_append)

lemma follows_newest:
  assumes "follows cms f" "cms \<noteq> []" "fo_pos f = length cms"
  shows "FetchTableFromConfigMap (last cms) = Inr (fo_table f)"
proof -
  obtain j where "j < length cms" "length cms \<le> Suc j" "FetchTableFromConfigMap (cms ! j) = Inr (fo_table f)"
    using assms by (auto simp: follows_def)
  then show ?thesis using assms(2) by (simp add: last_conv_nth le_Suc_eq)
qed

lemma sound_versions_mono: "sound_versions base objs cms \<Longrightarrow> objs \<subseteq> objs' \<Longrightarrow> sound_versions base objs' cms"
  unfolding sound_versions_def by (meson sound_mono)

lemma sound_versions_append:
  "sound_versions base objs (a @ b) \<longleftrightarrow> sound_versions base objs a \<and> sound_versions base objs b"
  by (auto simp: sound_versions_def)

lemma follows_sound:
  assumes "sound_versions base objs cms" "follows cms f"
  shows "sound_table base objs (fo_table f)"
  using assms by (auto simp: follows_def sound_versions_def sound_NewTable dest!: nth_mem)

lemma fleet_ok_init: "fleet_init base hist s \<Longrightarrow> fleet_ok base hist s"
  by (simp add: fleet_init_def fleet_ok_def sound_NewTable)

lemma GetTable_follows:
  assumes "versioned cl (base_CurrentNamespace (rc_BaseConfig r), ConfigMapRoutingTableName) hist"
    and "GetTable (getter_of r cl w) t = (t', None)"
  shows "hist w \<noteq> [] \<and> FetchTableFromConfigMap (last (hist w)) = Inr t'"
proof -
  obtain cm where "cl_GetConfigMap cl (base_CurrentNamespace (rc_BaseConfig r), ConfigMapRoutingTableName) w = Inr cm"
    "FetchTableFromConfigMap cm = Inr t'"
    using assms(2) by (auto simp: GetTable_def getter_of_def Table_Replace_def split: sum.splits)
  with versioned_latest [OF assms(1)] show ?thesis by blast
qed

lemma newest_follows:
  "cms \<noteq> [] \<Longrightarrow> FetchTableFromConfigMap (last cms) = Inr t \<Longrightarrow> n \<le> length cms \<Longrightarrow> follows cms \<lparr>fo_table = t, fo_pos = n\<rparr>"
  by (auto simp: follows_def last_conv_nth intro!: exI [of _ "length cms - 1"])

lemma ping_follows:
  assumes "versioned cl (base_CurrentNamespace (rc_BaseConfig r), ConfigMapRoutingTableName) hist"
    and "follows (hist w) f" "ping_handler (getter_of r cl w) (fo_table f) rw = (t', rw')"
  shows "follows (hist w) (f\<lparr>fo_table := t'\<rparr>)"
proof -
  obtain t1 e where get: "GetTable (getter_of r cl w) (fo_table f) = (t1, e)" by fastforce
  have "t' = t1" using assms(3) get by (auto simp: ping_handler_def split: option.splits prod.splits)
  show ?thesis
  proof (cases e)
    case None
    have "fo_pos f \<le> length (hist w)" using assms(2) by (simp add: follows_def)
    with GetTable_follows [OF assms(1) get [unfolded None]] \<open>t' = t1\<close> newest_follows [of "hist w" t1 "fo_pos f"]
    show ?thesis by (cases f) simp
  next
    case (Some err)
    then have "t1 = fo_table f" using get by (auto simp: GetTable_def split: sum.splits)
    with \<open>t' = t1\<close> assms(2) show ?thesis by (cases f) simp
  qed
qed

lemma deliver_follows:
  assumes "updater_loop cb [Received (ObjConfigMap cm)] t w = (t', w', None)"
  shows "FetchTableFromConfigMap cm = Inr t'"
  using assms by (cases t; cases cb) (auto simp: Table_Replace_def split: sum.splits)

lemma fleet_ok_reconcile:
  assumes laws: "follows_laws cl (rc_BaseConfig r) hist" and ok: "fleet_ok (rc_BaseConfig r) hist s"
    and run: "Reconcile r cl now req (fl_operator s) (fl_world s) = Ret (t', w', res)"
  shows "fleet_ok (rc_BaseConfig r) hist (s\<lparr>fl_world := w', fl_operator := t',
    fl_objects := fl_objects s \<union> {ho. cl_GetHTTPScaledObject cl req (fl_world s) = Inr ho}\<rparr>)"
proof -
  let ?b = "rc_BaseConfig r" and ?objs = "fl_objects s \<union> {ho. cl_GetHTTPScaledObject cl req (fl_world s) = Inr ho}"
  have s: "hist (fl_world s) \<noteq> []" "sound_table ?b (fl_objects s) (fl_operator s)"
    "sound_versions ?b (fl_objects s) (hist (fl_world s))" "list_all (follows (hist (fl_world s))) (fl_followers s)"
    using ok by (simp_all add: fleet_ok_def)
  from Reconcile_sound [OF laws s(2) refl run] obtain new where
    t': "sound_table ?b ?objs t'" and new: "hist w' = hist (fl_world s) @ new" "sound_versions ?b ?objs new"
    by (auto simp: appends_def)
  have "sound_versions ?b ?objs (hist w')"
    using sound_versions_mono [OF s(3), of ?objs] new by (simp add: sound_versions_append)
  moreover have "list_all (follows (hist w')) (fl_followers s)"
    using s(4) follows_append unfolding new(1) list_all_iff by blast
  ultimately show ?thesis using s(1) t' new(1) by (simp add: fleet_ok_def)
qed

lemma operator_starts_empty:
  "operator_main getenv newBase managerErr setupErr healthzErr readyzErr newClientset = Started p \<Longrightarrow> op_table p = NewTable"
  by (auto simp: operator_main_def Let_def split: sum.splits option.splits if_splits)

lemma fleet_ok_step:
  assumes laws: "follows_laws cl (rc_BaseConfig r) hist" and step: "fleet_step r cl hist s s'"
    and ok: "fleet_ok (rc_BaseConfig r) hist s"
  shows "fleet_ok (rc_BaseConfig r) hist s'"
  using step
proof cases
  case (reconcile now req t' w' res)
  with fleet_ok_reconcile [OF laws ok] show ?thesis by blast
next
  case (restart getenv newBase managerErr setupErr healthzErr readyzErr newClientset p)
  then have "op_table p = NewTable" by (intro operator_starts_empty)
  with ok restart show ?thesis by (simp add: fleet_ok_def sound_NewTable)
next
  case (others w')
  with ok show ?thesis by (simp add: fleet_ok_def)
next
  case (interceptor_starts t)
  with GetTable_follows [OF follows_lawsD(3) [OF laws]] newest_follows [of "hist (fl_world s)" t 0] ok
  show ?thesis by (simp add: fleet_ok_def)
next
  case scaler_starts
  have "follows (hist (fl_world s)) \<lparr>fo_table = NewTable, fo_pos = 0\<rparr>" by (simp add: follows_def)
  with ok scaler_starts show ?thesis by (simp add: fleet_ok_def)
next
  case (stops fs f fs')
  with ok show ?thesis by (simp add: fleet_ok_def)
next
  case (deliver fs f fs' older cm newer t')
  have "follows (hist (fl_world s)) \<lparr>fo_table = t', fo_pos = Suc (length older)\<rparr>"
    using deliver deliver_follows by (auto simp: follows_def intro!: exI [of _ "length older"])
  with ok deliver show ?thesis by (simp add: fleet_ok_def)
next
  case (ping fs f fs' rw t' rw')
  then have "follows (hist (fl_world s)) f" using ok by (simp add: fleet_ok_def)
  from ping_follows [OF follows_lawsD(3) [OF laws] this ping(3)] ok ping show ?thesis by (simp add: fleet_ok_def)
qed

lemma fleet_ok_reach:
  assumes "follows_laws cl (rc_BaseConfig r) hist" "fleet_reach r cl hist s s'" "fleet_ok (rc_BaseConfig r) hist s"
  shows "fleet_ok (rc_BaseConfig r) hist s'"
  using assms(2,3) by (induction rule: rtranclp_induct) (auto intro: fleet_ok_step [OF assms(1)])

section \<open>Properties\<close>

lemma lookup_loop_entry: "lookup_loop t ks = Inr tg \<Longrightarrow> \<exists>k \<in> set ks. map_get (tm t) k = Some tg"
  by (induction t ks rule: lookup_loop.induct) (auto split: option.splits)

lemma sound_lookup:
  assumes "sound_table base objs t" "Table_Lookup t h = Inr tg"
  shows "\<exists>ho \<in> objs. app_target base ho = Ret tg \<and> (\<exists>k \<in> set (lookup_keys h). k \<in> set (effective_hosts (ho_Spec ho)))"
proof -
  obtain k where "k \<in> set (lookup_keys h)" "(k, tg) \<in> routes t"
    using lookup_loop_entry assms(2) by (fastforce simp: Table_Lookup_def routes_def)
  with assms(1) show ?thesis by (fastforce simp: sound_table_def object_routes_def)
qed

text \<open>
  C3: Requests only go where an object says. However the operator, users, interceptors and scalers
  interleave, and whatever fails or restarts in between, an interceptor either keeps a request to
  itself or forwards it to the service of an \<open>HTTPScaledObject\<close> that the operator has read and that
  names the host of the request, as it is or without its port. No stale, partial or foreign routing
  table ever makes a route of its own.
\<close>

theorem forwards_only_to_named_services:
  assumes "follows_laws cl (rc_BaseConfig r) hist" "fleet_init (rc_BaseConfig r) hist s0" "fleet_reach r cl hist s0 s"
    and "f \<in> set (fl_followers s)"
    and "runProxyServer_handler lookupAddr Memory_Counter now waitFunc (fo_table f) timeouts mkTransport defaultTransport
      req wr (m, n) = Ret (w', (m', n'), panicked)"
  shows "n' = n \<or> (\<exists>ho \<in> fl_objects s. \<exists>host k tg u w1. getHost lookupAddr req = Inr host \<and>
    k \<in> set (lookup_keys host) \<and> k \<in> set (effective_hosts (ho_Spec ho)) \<and>
    app_target (rc_BaseConfig r) ho = Ret tg \<and> target_URL ServiceURL tg (req_Host req) = Inr u \<and>
    forwardRequest
      (mkTransport (NewNetDialer (Connect timeouts) (KeepAlive timeouts)) (DialContextWithRetry (DefaultBackoff timeouts))
         (newForwardingConfigFromTimeouts timeouts))
      defaultTransport u (ServiceUnavailableRetry timeouts) req w1 n = (n', w', panicked))"
proof -
  have "fleet_ok (rc_BaseConfig r) hist s"
    using fleet_ok_reach [OF assms(1,3) fleet_ok_init [OF assms(2)]] .
  then have "sound_table (rc_BaseConfig r) (fl_objects s) (fo_table f)"
    using assms(4) by (auto simp: fleet_ok_def list_all_iff intro: follows_sound)
  from sound_lookup [OF this] proxy_outcome [OF assms(5)] show ?thesis by fast
qed

text \<open>Deliveries that bring the followers \<open>fs\<close> to the newest version.\<close>

lemma deliver_newest:
  assumes "hist w = older @ [cm]" "FetchTableFromConfigMap cm = Inr t'" "fl_world s = w"
    and "list_all (\<lambda>f. fo_pos f \<le> length (hist w)) fs"
  shows "(fleet_step r cl hist ^^ length fs) (s\<lparr>fl_followers := ds @ fs\<rparr>)
    (s\<lparr>fl_followers := ds @ map (\<lambda>f. \<lparr>fo_table = t', fo_pos = length (hist w)\<rparr>) fs\<rparr>)"
  using assms(4)
proof (induction fs arbitrary: ds)
  case (Cons f fs)
  let ?f = "\<lparr>fo_table = t', fo_pos = length (hist w)\<rparr>"
  have "updater_loop None [Received (ObjConfigMap cm)] (fo_table f) () = (t', (), None)"
    using assms(2) by (cases "fo_table f"; cases t') (simp add: Table_Replace_def)
  then have "fleet_step r cl hist (s\<lparr>fl_followers := ds @ f # fs\<rparr>) (s\<lparr>fl_followers := ds @ ?f # fs\<rparr>)"
    using fleet_step.deliver [of "s\<lparr>fl_followers := ds @ f # fs\<rparr>" ds f fs hist older cm "[]" t' r cl] Cons.prems assms(1,3)
    by simp
  moreover have "(fleet_step r cl hist ^^ length fs) (s\<lparr>fl_followers := ds @ ?f # fs\<rparr>)
      (s\<lparr>fl_followers := ds @ ?f # map (\<lambda>f. ?f) fs\<rparr>)"
    using Cons.IH [of "ds @ [?f]"] Cons.prems by simp
  ultimately have "(fleet_step r cl hist ^^ Suc (length fs)) (s\<lparr>fl_followers := ds @ f # fs\<rparr>)
      (s\<lparr>fl_followers := ds @ ?f # map (\<lambda>f. ?f) fs\<rparr>)"
    by (rule relpowp_Suc_I2)
  then show ?case by simp
qed simp

lemma Reconcile_newest:
  assumes laws: "follows_laws cl (rc_BaseConfig r) hist" and t: "sound_table (rc_BaseConfig r) objs t"
    and get: "cl_GetHTTPScaledObject cl req w = Inr ho" and run: "Reconcile r cl now req t w = Ret (t', w', ra, None)"
  shows "hist w' \<noteq> [] \<and> FetchTableFromConfigMap (last (hist w')) = Inr t'"
proof -
  have v: "valid_object ho" "valid_table t" "tm t \<noteq> None"
    using follows_lawsD(2) [OF laws, unfolded utf8_objects_def] get t unfolding sound_table_def by blast+
  have "published cl (base_CurrentNamespace (rc_BaseConfig r)) w' = Inr t'"
    using Reconcile_routes [OF follows_lawsD(1) [OF laws] get _ v run] Reconcile_deleted [OF follows_lawsD(1) [OF laws] get _ v(2) run]
    by blast
  then show ?thesis
    using versioned_latest [OF follows_lawsD(3) [OF laws], of w'] by (auto simp: published_def split: sum.splits)
qed

text \<open>
  C4: The fleet converges on the operator's table. Take any reachable state in which the operator
  reconciles an object that exists, live or being deleted, and succeeds. Then one delivery to each
  interceptor and scaler brings all of them to exactly the operator's table; and in every state
  that is reached without another version of the ConfigMap, however the steps interleave, whoever
  has been delivered all versions has that table.
\<close>

theorem fleet_converges:
  assumes "follows_laws cl (rc_BaseConfig r) hist" "fleet_init (rc_BaseConfig r) hist s0" "fleet_reach r cl hist s0 s"
    and "cl_GetHTTPScaledObject cl req (fl_world s) = Inr ho"
    and "Reconcile r cl now req (fl_operator s) (fl_world s) = Ret (t', w', ra, None)"
    and "s1 = s\<lparr>fl_world := w', fl_operator := t', fl_objects := fl_objects s \<union> {ho}\<rparr>"
  shows "fleet_step r cl hist s s1 \<and>
    (fleet_step r cl hist ^^ length (fl_followers s)) s1
      (s1\<lparr>fl_followers := map (\<lambda>f. \<lparr>fo_table = t', fo_pos = length (hist w')\<rparr>) (fl_followers s)\<rparr>) \<and>
    (\<forall>s2. fleet_reach r cl hist s1 s2 \<and> hist (fl_world s2) = hist w' \<longrightarrow>
       list_all (\<lambda>f. fo_pos f = length (hist w') \<longrightarrow> fo_table f = t') (fl_followers s2))"
proof (intro conjI allI impI)
  let ?b = "rc_BaseConfig r"
  have ok: "fleet_ok ?b hist s"
    using fleet_ok_reach [OF assms(1,3) fleet_ok_init [OF assms(2)]] .
  have one: "{h. cl_GetHTTPScaledObject cl req (fl_world s) = Inr h} = {ho}" using assms(4) by auto
  show step: "fleet_step r cl hist s s1"
    using fleet_step.reconcile [OF assms(5)] unfolding one assms(6) .
  have ok1: "fleet_ok ?b hist s1" by (rule fleet_ok_step [OF assms(1) step ok])
  have newest: "hist w' \<noteq> []" "FetchTableFromConfigMap (last (hist w')) = Inr t'"
    using Reconcile_newest [OF assms(1) _ assms(4,5)] ok by (auto simp: fleet_ok_def)
  then obtain older where older: "hist w' = older @ [last (hist w')]" by (metis append_butlast_last_id)
  have "list_all (\<lambda>f. fo_pos f \<le> length (hist w')) (fl_followers s)"
    using ok1 by (auto simp: fleet_ok_def assms(6) follows_def list_all_iff)
  from deliver_newest [where hist = hist and w = w' and s = s1 and ds = "[]" and r = r and cl = cl, OF older newest(2) _ this]
  show "(fleet_step r cl hist ^^ length (fl_followers s)) s1
      (s1\<lparr>fl_followers := map (\<lambda>f. \<lparr>fo_table = t', fo_pos = length (hist w')\<rparr>) (fl_followers s)\<rparr>)"
    by (simp add: assms(6))
  fix s2
  assume s2: "fleet_reach r cl hist s1 s2 \<and> hist (fl_world s2) = hist w'"
  then have "fleet_ok ?b hist s2" using fleet_ok_reach [OF assms(1) _ ok1] by blast
  then have "list_all (follows (hist w')) (fl_followers s2)" using s2 by (simp add: fleet_ok_def)
  with newest follows_newest [of "hist w'"]
  show "list_all (\<lambda>f. fo_pos f = length (hist w') \<longrightarrow> fo_table f = t') (fl_followers s2)"
    by (fastforce simp: list_all_iff)
qed

section \<open>A server that keeps versions\<close>

text \<open>
  A client beside which a list keeps the versions of one ConfigMap: reads and patches of that
  ConfigMap use the list, everything else is left to the client, and objects that are not valid
  UTF-8 are refused.
\<close>

definition named :: "ObjectKey \<Rightarrow> ConfigMap \<Rightarrow> ConfigMap" where
  "named k cm = cm\<lparr>cm_Namespace := fst k, cm_Name := snd k\<rparr>"

definition beside :: "('a \<Rightarrow> 'w \<Rightarrow> 'w \<times> 'b) \<Rightarrow> 'a \<Rightarrow> 'w \<times> 'l \<Rightarrow> ('w \<times> 'l) \<times> 'b" where
  "beside f x wl = (case f x (fst wl) of (w', res) \<Rightarrow> ((w', snd wl), res))"

definition admit :: "('a \<Rightarrow> bool) \<Rightarrow> error + 'a \<Rightarrow> error + 'a" where
  "admit ok r = (case r of Inl e \<Rightarrow> Inl e | Inr x \<Rightarrow> if ok x then Inr x else Inl (External ''invalid object''))"

definition keep_versions :: "ObjectKey \<Rightarrow> 'w Client \<Rightarrow> ('w \<times> ConfigMap list) Client" where
  "keep_versions k cl =
     \<lparr>cl_GetHTTPScaledObject = (\<lambda>k' wl. admit valid_object (cl_GetHTTPScaledObject cl k' (fst wl))),
      cl_GetScaledObject = (\<lambda>k' wl. cl_GetScaledObject cl k' (fst wl)),
      cl_GetConfigMap = (\<lambda>k' wl. if k' \<noteq> k then cl_GetConfigMap cl k' (fst wl)
        else if snd wl = [] then Inl (StatusNotFound (snd k)) else Inr (named k (last (snd wl)))),
      cl_Create = beside (cl_Create cl),
      cl_Patch = beside (cl_Patch cl),
      cl_PatchConfigMap = (\<lambda>new old wl. if (cm_Namespace new, cm_Name new) \<noteq> k then beside (cl_PatchConfigMap cl new) old wl
        else if snd wl = [] then (wl, Inl (StatusNotFound (snd k))) else ((fst wl, snd wl @ [new]), Inr new)),
      cl_DeleteScaledObject = beside (cl_DeleteScaledObject cl),
      cl_Update = beside (cl_Update cl),
      cl_UpdateStatus = beside (cl_UpdateStatus cl)\<rparr>"

definition versions_of :: "ObjectKey \<Rightarrow> 'w \<times> ConfigMap list \<Rightarrow> ConfigMap list" where
  "versions_of k wl = map (named k) (snd wl)"

lemma named_same [simp]: "(cm_Namespace cm, cm_Name cm) = k \<Longrightarrow> named k cm = cm"
  by (auto simp: named_def)

lemma snd_beside [simp]: "snd (fst (beside f x wl)) = snd wl" "fst (fst (beside f x wl)) = fst (f x (fst wl))"
  "snd (beside f x wl) = snd (f x (fst wl))"
  by (simp_all add: beside_def split: prod.split)

lemma keep_versions_versioned: "versioned (keep_versions k cl) k (versions_of k)"
  unfolding versioned_def
  by (auto simp: keep_versions_def versions_of_def last_map split: if_splits)

lemma keep_versions_utf8: "utf8_objects (keep_versions k cl)"
  by (auto simp: utf8_objects_def keep_versions_def simp: admit_def split: sum.splits if_splits)

lemma besideD: "beside f x wl = (wl', res) \<Longrightarrow> f x (fst wl) = (fst wl', res) \<and> snd wl' = snd wl"
  by (auto simp: beside_def split: prod.splits)

lemma keep_versions_api:
  assumes cl: "api_server cl"
  shows "api_server (keep_versions k cl)"
  unfolding api_server_def
proof (intro conjI allI impI)
  let ?cl = "keep_versions k cl"
  note keeps = api_keeps [OF cl]
  show "(cm_Namespace cm, cm_Name cm) = k'" if "cl_GetConfigMap ?cl k' wl = Inr cm" for k' wl cm
  proof (cases "k' = k")
    case False
    then have "cl_GetConfigMap cl k' (fst wl) = Inr cm" using that by (simp add: keep_versions_def)
    then show ?thesis by (rule api_name [OF cl])
  qed (use that in \<open>auto simp: keep_versions_def named_def split: if_splits\<close>)
  show "cl_GetConfigMap ?cl k' wl' = Inr new"
    if "cl_GetConfigMap ?cl k' wl = Inr old" "(cm_Namespace new, cm_Name new) = k'"
      "cl_PatchConfigMap ?cl new old wl = (wl', Inr patched)" for k' wl wl' old new patched
  proof (cases "k' = k")
    case False
    then have "cl_GetConfigMap cl k' (fst wl) = Inr old" "beside (cl_PatchConfigMap cl new) old wl = (wl', Inr patched)"
      using that by (simp_all add: keep_versions_def)
    from api_patch [OF cl this(1) that(2)] besideD [OF this(2)] have "cl_GetConfigMap cl k' (fst wl') = Inr new" by simp
    with False show ?thesis by (simp add: keep_versions_def)
  qed (use that in \<open>auto simp: keep_versions_def split: if_splits\<close>)
  show "ho_Spec ho' = ho_Spec ho" "ho_Namespace ho' = ho_Namespace ho" "ho_Name ho' = ho_Name ho"
    if "cl_Update ?cl ho wl = (wl', Inr ho')" for ho ho' wl wl'
  proof -
    have "beside (cl_Update cl) ho wl = (wl', Inr ho')" using that by (simp add: keep_versions_def)
    then have "cl_Update cl ho (fst wl) = (fst wl', Inr ho')" by (rule besideD [THEN conjunct1])
    from api_update [OF cl this]
    show "ho_Spec ho' = ho_Spec ho" "ho_Namespace ho' = ho_Namespace ho" "ho_Name ho' = ho_Name ho" by simp_all
  qed
qed (simp_all add: keep_versions_def api_keeps [OF cl])

section \<open>A run of the fleet\<close>

text \<open>
  An object for the host that the sample caller's namespace gives, a server with the empty routing
  table as its only version, and the fleet at its start.
\<close>

definition tenant_object :: HTTPScaledObject where
  "tenant_object = sample_object\<lparr>ho_Spec := (ho_Spec sample_object)\<lparr>spec_Hosts := Some [''db.dp-acme'']\<rparr>\<rparr>"

definition first_version :: ConfigMap where
  "first_version = \<lparr>cm_Namespace = ''keda'', cm_Name = ConfigMapRoutingTableName, cm_Labels = None,
     cm_Data = Some (fmap_of_list [(configMapRoutingTableKey, ''{}'')])\<rparr>"

definition sample_server :: "(api_state \<times> ConfigMap list) Client" where
  "sample_server = keep_versions (''keda'', ConfigMapRoutingTableName) memory_client"

definition sample_versions :: "api_state \<times> ConfigMap list \<Rightarrow> ConfigMap list" where
  "sample_versions = versions_of (''keda'', ConfigMapRoutingTableName)"

definition sample_fleet :: "(api_state \<times> ConfigMap list) fleet" where
  "sample_fleet = \<lparr>fl_world = (sample_state tenant_object, [first_version]), fl_operator = NewTable,
     fl_objects = {}, fl_followers = []\<rparr>"

lemma sample_laws: "follows_laws sample_server (rc_BaseConfig sample_reconciler) sample_versions"
  by (simp add: follows_laws_def sample_server_def sample_versions_def sample_reconciler_def keep_versions_api
      memory_client_api keep_versions_utf8 keep_versions_versioned)

lemma sample_fleet_init: "fleet_init (rc_BaseConfig sample_reconciler) sample_versions sample_fleet"
proof -
  have "FetchTableFromConfigMap (named (''keda'', ConfigMapRoutingTableName) first_version) = Inr NewTable"
    "sample_versions (fl_world sample_fleet) = [named (''keda'', ConfigMapRoutingTableName) first_version]"
    by (code_simp, simp add: sample_versions_def versions_of_def sample_fleet_def)
  then show ?thesis by (simp add: fleet_init_def sample_fleet_def sound_versions_def sound_NewTable)
qed

lemma tenant_get: "cl_GetHTTPScaledObject sample_server (''ns'', ''xkcd'') (fl_world sample_fleet) = Inr tenant_object"
proof -
  have "valid_object tenant_object" by code_simp
  then show ?thesis
    by (simp add: sample_server_def keep_versions_def admit_def sample_fleet_def sample_state_def memory_client_def get_or_404_def
        tenant_object_def sample_object_def)
qed

lemma sample_reconciles:
  "\<exists>t' w' ra. Reconcile sample_reconciler sample_server (\<lambda>_. []) (''ns'', ''xkcd'') NewTable (fl_world sample_fleet) =
    Ret (t', w', ra, None)"
proof -
  have "valid_object tenant_object" by code_simp
  then show ?thesis
    by (simp add: sample_server_def keep_versions_def beside_def admit_def sample_fleet_def tenant_object_def first_version_def
        named_def sample_defs operator_defs NewTable_def NewScaledObject_def Let_def)
qed

lemma tenant_routed:
  assumes "Reconcile sample_reconciler sample_server (\<lambda>_. []) (''ns'', ''xkcd'') NewTable (fl_world sample_fleet) = Ret (t', w', ra, None)"
  shows "\<exists>tg u. Table_Lookup t' ''db.dp-acme'' = Inr tg \<and> ServiceURL tg = Inr u \<and>
    GetTable (getter_of sample_reconciler sample_server w') NewTable = (t', None)"
proof -
  have v: "valid_object tenant_object" "ho_DeletionTimestamp tenant_object = None" "valid_table NewTable" "tm NewTable \<noteq> None"
    "''db.dp-acme'' \<in> set (effective_hosts (ho_Spec tenant_object))" "\<not> Table_HasHost NewTable ''db.dp-acme''"
    "list_all dns_char ''svc''" "list_all dns_char ''ns''" by code_simp+
  have tn: "ho_Namespace tenant_object = ''ns''"
    "spec_ScaleTargetRef (ho_Spec tenant_object) = Some \<lparr>ref_Deployment = ''depl'', ref_Service = ''svc'', ref_Port = 8080\<rparr>"
    by (simp_all add: tenant_object_def sample_object_def)
  from reconciled_target [OF follows_lawsD(1) [OF sample_laws] tenant_get v(2,1,3,4) assms v(5,6)] tn obtain tg where
    tg: "Table_Lookup t' ''db.dp-acme'' = Inr tg" "Namespace tg = ''ns''" "Service tg = ''svc''" "sint (Port tg) = 8080"
    and pub: "published sample_server (base_CurrentNamespace (rc_BaseConfig sample_reconciler)) w' = Inr t'"
    by auto
  have "GetTable (getter_of sample_reconciler sample_server w') NewTable = (t', None)"
    using pub by (cases t') (auto simp: GetTable_def published_def getter_of_def Table_Replace_def split: sum.splits)
  with ServiceURL_host [of tg] v(7,8) tg show ?thesis by simp
qed

theorem forwards_only_to_named_services_witness:
  "\<exists>s f w' m' panicked ho. fleet_reach sample_reconciler sample_server sample_versions sample_fleet s \<and>
     f \<in> set (fl_followers s) \<and>
     runProxyServer_handler sample_lookup Memory_Counter 100 (\<lambda>_ _ _. (1, None)) (fo_table f) sample_timeouts sample_maker
       (\<lambda>r n. (Suc n, Inl ContextCanceled)) (sample_request ''db'') NewRecorder (NewMemory 0 False, 0) =
       Ret (w', (m', 1), panicked) \<and>
     ho \<in> fl_objects s \<and> ''db.dp-acme'' \<in> set (effective_hosts (ho_Spec ho))"
proof -
  let ?step = "fleet_step sample_reconciler sample_server sample_versions"
  obtain t' w' ra where run: "Reconcile sample_reconciler sample_server (\<lambda>_. []) (''ns'', ''xkcd'') (fl_operator sample_fleet)
      (fl_world sample_fleet) = Ret (t', w', ra, None)"
    using sample_reconciles by (auto simp: sample_fleet_def)
  let ?s1 = "sample_fleet\<lparr>fl_world := w', fl_operator := t', fl_objects := fl_objects sample_fleet \<union>
      {ho. cl_GetHTTPScaledObject sample_server (''ns'', ''xkcd'') (fl_world sample_fleet) = Inr ho}\<rparr>"
  let ?f = "\<lparr>fo_table = t', fo_pos = 0\<rparr>"
  let ?s2 = "?s1\<lparr>fl_followers := fl_followers ?s1 @ [?f]\<rparr>"
  from tenant_routed [of t' w' ra] run obtain tg u where tg: "Table_Lookup t' ''db.dp-acme'' = Inr tg" "ServiceURL tg = Inr u"
    "GetTable (getter_of sample_reconciler sample_server w') NewTable = (t', None)"
    by (auto simp: sample_fleet_def)
  have "?step sample_fleet ?s1" using run by (rule fleet_step.reconcile)
  moreover have "?step ?s1 ?s2" by (rule fleet_step.interceptor_starts) (simp add: tg(3))
  ultimately have reach: "fleet_reach sample_reconciler sample_server sample_versions sample_fleet ?s2" by simp
  have host: "getHost sample_lookup (sample_request ''db'') = Inr ''db.dp-acme''" "CHR '':'' \<notin> set (req_Host (sample_request ''db''))"
    "set (lookup_keys ''db.dp-acme'') = {''db.dp-acme''}" by code_simp+
  from proxy_forwards [where table = t' and timeouts = sample_timeouts and waitFunc = "\<lambda>_ _ _. (1, None)" and replicas = 1 and
      mkTransport = sample_maker and defaultTransport = "\<lambda>r n. (Suc n, Inl ContextCanceled)" and now = 100 and w = NewRecorder and
      s = "NewMemory 0 False" and n = 0, OF host(1,2) tg(1,2)]
  obtain w2 m' panicked where proxy: "runProxyServer_handler sample_lookup Memory_Counter 100 (\<lambda>_ _ _. (1, None)) (fo_table ?f)
      sample_timeouts sample_maker (\<lambda>r n. (Suc n, Inl ContextCanceled)) (sample_request ''db'') NewRecorder (NewMemory 0 False, 0) =
      Ret (w2, (m', 1), panicked)"
    by (auto simp: forwardRequest_def sample_maker_def)
  have "?f \<in> set (fl_followers ?s2)" by simp
  from forwards_only_to_named_services [OF sample_laws sample_fleet_init reach this proxy] host
  obtain ho where "ho \<in> fl_objects ?s2" "''db.dp-acme'' \<in> set (effective_hosts (ho_Spec ho))" by auto
  with reach proxy show ?thesis by (intro exI [of _ ?s2] exI [of _ ?f]) auto
qed

theorem fleet_converges_witness:
  "\<exists>s s1 t' w' ra tg. fleet_reach sample_reconciler sample_server sample_versions sample_fleet s \<and> length (fl_followers s) = 1 \<and>
     Reconcile sample_reconciler sample_server (\<lambda>_. []) (''ns'', ''xkcd'') (fl_operator s) (fl_world s) = Ret (t', w', ra, None) \<and>
     fleet_step sample_reconciler sample_server sample_versions s s1 \<and>
     fleet_step sample_reconciler sample_server sample_versions s1
       (s1\<lparr>fl_followers := [\<lparr>fo_table = t', fo_pos = length (sample_versions w')\<rparr>]\<rparr>) \<and>
     Table_Lookup t' ''db.dp-acme'' = Inr tg"
proof -
  let ?s = "sample_fleet\<lparr>fl_followers := fl_followers sample_fleet @ [\<lparr>fo_table = NewTable, fo_pos = 0\<rparr>]\<rparr>"
  have reach: "fleet_reach sample_reconciler sample_server sample_versions sample_fleet ?s"
    by (rule r_into_rtranclp, rule fleet_step.scaler_starts)
  obtain t' w' ra where run: "Reconcile sample_reconciler sample_server (\<lambda>_. []) (''ns'', ''xkcd'') NewTable
      (fl_world sample_fleet) = Ret (t', w', ra, None)"
    using sample_reconciles by blast
  then have run': "Reconcile sample_reconciler sample_server (\<lambda>_. []) (''ns'', ''xkcd'') (fl_operator ?s) (fl_world ?s) =
      Ret (t', w', ra, None)" by (simp add: sample_fleet_def)
  have get: "cl_GetHTTPScaledObject sample_server (''ns'', ''xkcd'') (fl_world ?s) = Inr tenant_object" using tenant_get by simp
  have one: "length (fl_followers ?s) = 1" by (simp add: sample_fleet_def)
  let ?s1 = "?s\<lparr>fl_world := w', fl_operator := t', fl_objects := fl_objects ?s \<union> {tenant_object}\<rparr>"
  note conv = fleet_converges [OF sample_laws sample_fleet_init reach get run' refl]
  have "map (\<lambda>f. x) (fl_followers ?s) = [x]" for x :: follower by (simp add: sample_fleet_def)
  with conv one have "fleet_step sample_reconciler sample_server sample_versions ?s ?s1"
    "fleet_step sample_reconciler sample_server sample_versions ?s1
       (?s1\<lparr>fl_followers := [\<lparr>fo_table = t', fo_pos = length (sample_versions w')\<rparr>]\<rparr>)"
    by (metis relpowp_1)+
  with tenant_routed [OF run] reach one run' show ?thesis by blast
qed

end
