(* ===== verification/Pending.thy ===== *)
theory Pending
  imports Interceptor
begin

text \<open>
  The pending-request count under concurrency. Requests pass the counting middleware as
  goroutines that share one \<open>Memory\<close> with the goroutine of \<open>ProcessPostponedResizes\<close>; the steps
  of the relation are the sections each of them runs under the counter's lock. The relation has
  a switch: with it on, the enforcer's turn is the two lock sections of the code, and other
  goroutines run between them; with it off, the turn is one step. The invariant relates the count
  of a host to the requests in flight.
\<close>

section \<open>Goroutines of the middleware\<close>

datatype phase = InHandler | Postponing | Decrementing

text \<open>
  The deferred function of the middleware: a read of the count that decides, and the update.
\<close>

definition done_phase :: "string \<Rightarrow> Memory \<Rightarrow> phase" where
  "done_phase host r =
     (if Memory_ShouldPostponeResize r \<and> Memory_Count host r = 1 then Postponing else Decrementing)"

definition finish_op :: "gotime \<Rightarrow> string \<Rightarrow> phase \<Rightarrow> Memory \<Rightarrow> Memory" where
  "finish_op now host p r =
     (if p = Postponing then Memory_PostponeResize host (now + sint (Memory_PostponeDuration r)) r
      else fst (Memory_Resize host (- 1) r))"

lemma count_done_steps: "count_done Memory_Counter now host r = Ret (finish_op now host (done_phase host r) r)"
  by (simp add: count_done_def Memory_Counter_def finish_op_def done_phase_def Let_def split: prod.split)

record pstate =
  mem :: Memory
  reqs :: "(string \<times> phase) multiset"
  todo :: "string list option"      \<comment> \<open>\<open>hostsToModify\<close> between the two lock sections\<close>

text \<open>Far more open requests than memory could hold.\<close>

definition open_limit :: nat where
  "open_limit = 2 ^ 62"

inductive pstep :: "bool \<Rightarrow> pstate \<Rightarrow> pstate \<Rightarrow> bool" for split :: bool where
  arrive: "size (reqs s) < open_limit \<Longrightarrow>
    pstep split s (s\<lparr>mem := fst (Memory_Resize h 1 (mem s)), reqs := add_mset (h, InHandler) (reqs s)\<rparr>)"
| check: "(h, InHandler) \<in># reqs s \<Longrightarrow>
    pstep split s (s\<lparr>reqs := add_mset (h, done_phase h (mem s)) (reqs s - {#(h, InHandler)#})\<rparr>)"
| finish: "(h, p) \<in># reqs s \<Longrightarrow> p \<noteq> InHandler \<Longrightarrow>
    pstep split s (s\<lparr>mem := finish_op now h p (mem s), reqs := reqs s - {#(h, p)#}\<rparr>)"
| turn: "\<not> split \<Longrightarrow> mset es = mset (sorted_list_of_fmap (postponedResizes (mem s))) \<Longrightarrow>
    pstep split s (s\<lparr>mem := process_turn es (map (clk \<circ> fst) es) (mem s)\<rparr>)"
| scan: "split \<Longrightarrow> todo s = None \<Longrightarrow> mset es = mset (sorted_list_of_fmap (postponedResizes (mem s))) \<Longrightarrow>
    pstep split s (s\<lparr>todo := Some (collect_due (mem s) es (map (clk \<circ> fst) es))\<rparr>)"
| reset: "split \<Longrightarrow> todo s = Some hs \<Longrightarrow>
    pstep split s (s\<lparr>mem := reset_hosts hs (mem s), todo := None\<rparr>)"

definition pinit :: "gint \<Rightarrow> bool \<Rightarrow> pstate" where
  "pinit d b = \<lparr>mem = NewMemory d b, reqs = {#}, todo = None\<rparr>"

definition preach :: "bool \<Rightarrow> gint \<Rightarrow> bool \<Rightarrow> pstate \<Rightarrow> bool" where
  "preach split d b s \<longleftrightarrow> (pstep split)\<^sup>*\<^sup>* (pinit d b) s"

section \<open>The count and the requests in flight\<close>

definition inflight :: "string \<Rightarrow> pstate \<Rightarrow> nat" where
  "inflight h s = size (filter_mset (\<lambda>x. fst x = h) (reqs s))"

definition phantom :: "string \<Rightarrow> pstate \<Rightarrow> nat" where
  "phantom h s = (if fmlookup (postponedResizes (mem s)) h = None then 0 else 1)"

definition exact :: "pstate \<Rightarrow> bool" where
  "exact s \<longleftrightarrow>
     size (reqs s) \<le> open_limit \<and>
     (\<forall>h. Memory_Count h (mem s) = of_nat (inflight h s + phantom h s)) \<and>
     (\<forall>h. (h, Postponing) \<in># reqs s \<longrightarrow>
        phantom h s = 0 \<and> count (reqs s) (h, Postponing) = 1)"

lemma inflight_add [simp]: "inflight h (s\<lparr>reqs := add_mset x M\<rparr>) = (if fst x = h then 1 else 0) + inflight h (s\<lparr>reqs := M\<rparr>)"
  by (simp add: inflight_def)

lemma inflight_mem [simp]: "inflight h (s\<lparr>mem := r\<rparr>) = inflight h s" "inflight h (s\<lparr>todo := x\<rparr>) = inflight h s"
  by (simp_all add: inflight_def)

lemma inflight_remove:
  assumes "x \<in># reqs s"
  shows "inflight h s = (if fst x = h then 1 else 0) + inflight h (s\<lparr>reqs := reqs s - {#x#}\<rparr>)"
proof -
  obtain M where "reqs s = add_mset x M" using assms by (metis mset_add)
  then show ?thesis by (simp add: inflight_def)
qed

lemma inflight_le: "inflight h s \<le> size (reqs s)"
  by (simp add: inflight_def size_filter_mset_lesseq)

lemma of_nat_eq_1:
  assumes "n < 2 ^ 64" "(of_nat n :: gint) = 1"
  shows "n = 1"
proof -
  have "unat (of_nat n :: gint) = n" using assms(1) by (simp add: unat_of_nat take_bit_nat_eq_self)
  then show ?thesis using assms(2) by simp
qed

lemma phantom_le: "phantom h s \<le> 1"
  by (simp add: phantom_def)

lemma exact_count_1:
  assumes "exact s" "Memory_Count h (mem s) = 1"
  shows "inflight h s + phantom h s = 1"
proof (rule of_nat_eq_1)
  have "inflight h s + phantom h s \<le> open_limit + 1"
    using assms(1) inflight_le [of h s] phantom_le [of h s] by (auto simp: exact_def)
  then show "inflight h s + phantom h s < 2 ^ 64" by (simp add: open_limit_def)
  show "(of_nat (inflight h s + phantom h s) :: gint) = 1" using assms by (simp add: exact_def)
qed

lemma in_reqs_inflight: "(h, p) \<in># reqs s \<Longrightarrow> 1 \<le> inflight h s"
  using inflight_remove [of "(h, p)" s h] by simp

lemma inflight_1_unique:
  assumes "inflight h s = 1" "(h, p) \<in># reqs s" "(h, p') \<in># reqs s"
  shows "p' = p \<and> count (reqs s) (h, p) = 1"
proof -
  obtain M where M: "reqs s = add_mset (h, p) M" using assms(2) by (metis mset_add)
  then have "filter_mset (\<lambda>x. fst x = h) M = {#}" using assms(1) by (simp add: inflight_def)
  then have "(h, q) \<notin># M" for q by (metis (mono_tags) empty_iff fst_conv mem_Collect_eq set_mset_empty set_mset_filter)
  then have nin: "(h, q) \<notin># M" for q .
  moreover have "count M (h, p) = 0" using nin [of p] by (simp add: not_in_iff)
  ultimately show ?thesis using M assms(3) by auto
qed

section \<open>Every step keeps the count exact\<close>

lemma exact_arrive:
  assumes "exact s" "size (reqs s) < open_limit"
  shows "exact (s\<lparr>mem := fst (Memory_Resize h 1 (mem s)), reqs := add_mset (h, InHandler) (reqs s)\<rparr>)"
  using assms
  by (auto simp: exact_def phantom_def Memory_Resize_def Memory_Count_count_of inflight_def)

lemma exact_check:
  assumes ex: "exact s" and r: "(h, InHandler) \<in># reqs s"
  shows "exact (s\<lparr>reqs := add_mset (h, done_phase h (mem s)) (reqs s - {#(h, InHandler)#})\<rparr>)"
proof -
  let ?M = "reqs s - {#(h, InHandler)#}" and ?p = "done_phase h (mem s)"
  have M: "reqs s = add_mset (h, InHandler) ?M" using r by simp
  have size: "size (add_mset (h, ?p) ?M) = size (reqs s)" by (subst (2) M) simp
  have infl: "inflight k (s\<lparr>reqs := add_mset (h, ?p) ?M\<rparr>) = inflight k s" for k
    using inflight_remove [OF r, of k] by simp
  have post: "phantom k s = 0 \<and> count (add_mset (h, ?p) ?M) (k, Postponing) = 1"
    if k: "(k, Postponing) \<in># add_mset (h, ?p) ?M" for k
  proof (cases "?p = Postponing")
    case False
    then have "(k, Postponing) \<in># ?M" using k by auto
    then have "(k, Postponing) \<in># reqs s" by (metis in_diffD)
    then show ?thesis using ex False by (auto simp: exact_def)
  next
    case True
    then have one: "inflight h s + phantom h s = 1"
      using exact_count_1 [OF ex] by (auto simp: done_phase_def split: if_splits)
    with in_reqs_inflight [OF r] have i: "inflight h s = 1" "phantom h s = 0" by auto
    then have nh: "(h, Postponing) \<notin># ?M"
      using inflight_1_unique [OF i(1) r] by (metis in_diffD phase.distinct(1))
    show ?thesis
    proof (cases "k = h")
      case True
      then show ?thesis using i nh \<open>?p = Postponing\<close> by (simp add: not_in_iff)
    next
      case False
      then have "(k, Postponing) \<in># reqs s" using k by (auto dest: in_diffD)
      then show ?thesis using ex False by (auto simp: exact_def)
    qed
  qed
  show ?thesis using ex infl size post by (auto simp: exact_def phantom_def)
qed

lemma exact_finish:
  assumes ex: "exact s" and r: "(h, p) \<in># reqs s" and p: "p \<noteq> InHandler"
  shows "exact (s\<lparr>mem := finish_op now h p (mem s), reqs := reqs s - {#(h, p)#}\<rparr>)"
proof -
  let ?M = "reqs s - {#(h, p)#}"
  let ?s' = "s\<lparr>mem := finish_op now h p (mem s), reqs := ?M\<rparr>"
  have M: "reqs s = add_mset (h, p) ?M" using r by simp
  have size: "size ?M \<le> open_limit" using ex arg_cong [OF M, of size] by (simp add: exact_def)
  have infl: "inflight k s = (if h = k then 1 else 0) + inflight k ?s'" for k
    using inflight_remove [OF r, of k] by (simp add: inflight_def)
  have old: "Memory_Count k (mem s) = of_nat (inflight k s + phantom k s)" for k using ex by (simp add: exact_def)
  have post: "phantom k s = 0 \<and> count (reqs s) (k, Postponing) = 1" if "(k, Postponing) \<in># ?M" for k
    using ex in_diffD [OF that] by (auto simp: exact_def)
  have "Memory_Count k (mem ?s') = of_nat (inflight k ?s' + phantom k ?s') \<and>
      ((k, Postponing) \<in># ?M \<longrightarrow> phantom k ?s' = 0 \<and> count ?M (k, Postponing) = 1)" for k
  proof (cases p)
    case Postponing
    then have ph: "phantom h s = 0" "count (reqs s) (h, Postponing) = 1" using ex r by (auto simp: exact_def)
    then have nin: "(h, Postponing) \<notin># ?M" using Postponing by (simp add: not_in_iff)
    have "phantom k ?s' = (if k = h then 1 else phantom k s)" "Memory_Count k (mem ?s') = Memory_Count k (mem s)"
      using Postponing by (simp_all add: finish_op_def phantom_def Memory_PostponeResize_def Memory_Count_def)
    then show ?thesis using infl [of k] old [of k] ph post [of k] nin Postponing by auto
  next
    case Decrementing
    then have "phantom k ?s' = phantom k s"
      "Memory_Count k (mem ?s') = (if k = h then Memory_Count k (mem s) - 1 else Memory_Count k (mem s))"
      by (simp_all add: finish_op_def phantom_def Memory_Resize_def Memory_Count_count_of)
    then show ?thesis using infl [of k] old [of k] post [of k] Decrementing by auto
  qed (use p in simp)
  then show ?thesis using size by (simp add: exact_def)
qed

lemma exact_turn:
  assumes ex: "exact s" and es: "mset es = mset (sorted_list_of_fmap (postponedResizes (mem s)))"
  shows "exact (s\<lparr>mem := process_turn es (map (clk \<circ> fst) es) (mem s)\<rparr>)"
proof -
  let ?hs = "collect_due (mem s) es (map (clk \<circ> fst) es)"
  have hit: "inflight h s = 0 \<and> phantom h s = 1" if "h \<in> set ?hs" for h
  proof -
    from that have "turn_hits clk (abs_memory (mem s)) h" using collect_due_clk [OF es] by blast
    then have "phantom h s = 1" "Memory_Count h (mem s) = 1"
      by (auto simp: turn_hits_def abs_memory_def phantom_def split: option.splits)
    with exact_count_1 [OF ex, of h] show ?thesis by simp
  qed
  have cnt: "count_of (countMap (mem s)) k = of_nat (inflight k s + phantom k s)" for k
    using ex by (simp add: exact_def Memory_Count_count_of)
  let ?s' = "s\<lparr>mem := process_turn es (map (clk \<circ> fst) es) (mem s)\<rparr>"
  have ph: "phantom k ?s' = (if k \<in> set ?hs then 0 else phantom k s)" for k
    by (simp add: phantom_def process_turn_def reset_hosts_count)
  have "Memory_Count k (mem ?s') = of_nat (inflight k ?s' + phantom k ?s')" for k
    using cnt [of k] hit [of k] ph [of k]
    by (simp add: process_turn_def Memory_Count_count_of reset_hosts_count)
  then show ?thesis using ex ph by (auto simp: exact_def)
qed

lemma exact_init: "exact (pinit d b)"
  by (simp add: exact_def pinit_def NewMemory_def Memory_Count_def inflight_def phantom_def)

lemma exact_reach: "preach False d b s \<Longrightarrow> exact s"
  unfolding preach_def
proof (induction rule: rtranclp_induct)
  case base
  show ?case by (rule exact_init)
next
  case (step s s')
  from step.hyps(2) step.IH show ?case
    by cases (auto intro: exact_arrive exact_check exact_finish exact_turn)
qed

section \<open>Properties\<close>

text \<open>
  C6: The count is exact when the enforcer's turn is one step. In every state reachable by any
  interleaving of arriving requests, deferred functions and whole turns of the enforcer, with
  postponing on or off, the count of a host is the number of its requests in flight, plus one
  while a resize is postponed. So it is never negative, a count of zero means that no request is
  in flight, and a request in flight always shows to the scaler.
\<close>

theorem count_exact:
  assumes "preach False d b s"
  shows "sint (Memory_Count h (mem s)) = int (inflight h s + phantom h s) \<and>
    (Memory_Count h (mem s) = 0 \<longrightarrow> inflight h s = 0)"
proof -
  from exact_reach [OF assms] have ex: "exact s" .
  then have "inflight h s + phantom h s \<le> open_limit + 1"
    using inflight_le [of h s] phantom_le [of h s] by (auto simp: exact_def)
  then have "inflight h s + phantom h s < 2 ^ 63" by (simp add: open_limit_def)
  then have v: "sint (Memory_Count h (mem s)) = int (inflight h s + phantom h s)"
    using ex sint_of_nat_64 by (simp add: exact_def del: of_nat_add)
  then show ?thesis by auto
qed

text \<open>Runs of the machine, for concrete executions.\<close>

lemma preach_init: "preach split d b (pinit d b)"
  by (simp add: preach_def)

lemma preach_step: "preach split d b s \<Longrightarrow> pstep split s s' \<Longrightarrow> preach split d b s'"
  unfolding preach_def by (rule rtranclp.rtrancl_into_rtrancl)

definition served :: "gint \<Rightarrow> bool \<Rightarrow> pstate" where
  "served d b = (pinit d b)\<lparr>mem := fst (Memory_Resize ''a'' 1 (NewMemory d b)), reqs := {#(''a'', InHandler)#}\<rparr>"

lemma preach_served: "preach split d b (served d b)"
proof -
  have "pstep split (pinit d b) (served d b)"
    using pstep.arrive [of "pinit d b" split "''a''"] by (simp add: served_def pinit_def open_limit_def)
  then show ?thesis by (rule preach_step [OF preach_init])
qed

theorem count_exact_witness: "sint (Memory_Count ''a'' (mem (served 20 True))) = 1"
  using count_exact [OF preach_served, of "''a''" 20 True]
  by (simp add: served_def inflight_def phantom_def pinit_def NewMemory_def Memory_Resize_def)

text \<open>
  With postponing off nothing is ever postponed, and the two lock sections of the enforcer find
  nothing to do.
\<close>

definition exact_off :: "pstate \<Rightarrow> bool" where
  "exact_off s \<longleftrightarrow>
     size (reqs s) \<le> open_limit \<and> \<not> shouldPostpone (mem s) \<and> postponedResizes (mem s) = fmempty \<and>
     (todo s = None \<or> todo s = Some []) \<and> (\<forall>h. (h, Postponing) \<notin># reqs s) \<and>
     (\<forall>h. Memory_Count h (mem s) = of_nat (inflight h s))"

lemma exact_off_step:
  assumes "exact_off s" "pstep True s s'"
  shows "exact_off s'"
  using assms(2)
proof cases
  case (arrive h)
  then show ?thesis using assms(1) by (auto simp: exact_off_def Memory_Resize_def Memory_Count_count_of inflight_def)
next
  case (check h)
  have "done_phase h (mem s) = Decrementing"
    using assms(1) by (simp add: exact_off_def done_phase_def Memory_ShouldPostponeResize_def)
  moreover have "size (reqs s) = Suc (size (reqs s - {#(h, InHandler)#}))"
    using check(2) by (metis insert_DiffM size_add_mset)
  moreover have "inflight k s = (if h = k then 1 else 0) + inflight k (s\<lparr>reqs := reqs s - {#(h, InHandler)#}\<rparr>)" for k
    using inflight_remove [OF check(2), of k] by simp
  ultimately show ?thesis
    using assms(1) check(1) by (auto simp: exact_off_def dest: in_diffD)
next
  case (finish h p now)
  have p: "p = Decrementing" using finish assms(1) by (cases p) (auto simp: exact_off_def)
  have infl: "inflight k s = (if h = k then 1 else 0) + inflight k s'" for k
    using inflight_remove [OF finish(2), of k] finish(1) by (simp add: inflight_def)
  have "size (reqs s - {#(h, p)#}) \<le> size (reqs s)" by (simp add: size_mset_mono)
  then have "size (reqs s') \<le> open_limit" using assms(1) finish(1) by (simp add: exact_off_def)
  moreover have "Memory_Count k (mem s') = of_nat (inflight k s')" for k
    using assms(1) infl [of k] finish(1) p
    by (simp add: exact_off_def finish_op_def split: if_splits)
  moreover have "(k, Postponing) \<notin># reqs s'" for k
    using assms(1) finish(1) by (auto simp: exact_off_def dest: in_diffD)
  ultimately show ?thesis
    using assms(1) finish(1) p by (simp add: exact_off_def finish_op_def Memory_Resize_def)
next
  case (scan es clk)
  have "sorted_list_of_fmap (fmempty :: gotime smap) = []" by code_simp
  with scan(4) assms(1) have "es = []" by (simp add: exact_off_def)
  with assms(1) scan(1) show ?thesis by (simp add: exact_off_def inflight_def)
next
  case (reset hs)
  then show ?thesis using assms(1) by (auto simp: exact_off_def reset_hosts_def)
qed simp

lemma exact_off_reach: "preach True d False s \<Longrightarrow> exact_off s"
  unfolding preach_def
proof (induction rule: rtranclp_induct)
  case base
  show ?case by (simp add: exact_off_def pinit_def NewMemory_def Memory_Count_def inflight_def)
next
  case (step s s')
  then show ?case by (blast intro: exact_off_step)
qed

text \<open>
  With the cooldown off, which is the default, the count is exact under every interleaving
  of the code's own lock sections: it is the number of requests of the host in flight, and
  nothing is ever postponed.
\<close>

theorem count_exact_cooldown_off:
  assumes "preach True d False s"
  shows "sint (Memory_Count h (mem s)) = int (inflight h s) \<and> postponedResizes (mem s) = fmempty"
proof -
  from exact_off_reach [OF assms] have ex: "exact_off s" .
  then have "inflight h s \<le> open_limit" using inflight_le [of h s] by (auto simp: exact_off_def)
  then have "inflight h s < 2 ^ 63" by (simp add: open_limit_def)
  then show ?thesis using ex sint_of_nat_64 by (simp add: exact_off_def)
qed

theorem count_exact_cooldown_off_witness: "sint (Memory_Count ''a'' (mem (served 20 False))) = 1"
  using count_exact_cooldown_off [OF preach_served, of "''a''" 20]
  by (simp add: served_def inflight_def)

section \<open>The two lock sections of the enforcer\<close>

text \<open>
  The run in which a request arrives between the sections: one request is served and postponed,
  the scan selects its host, a second request arrives, the reset drops the count to zero, and
  the second request's decrement takes it below.
\<close>

definition raced :: "string list \<Rightarrow> (string \<times> phase) multiset \<Rightarrow> string list option \<Rightarrow> gint \<Rightarrow> bool \<Rightarrow> pstate" where
  "raced postponed rs td c b =
     \<lparr>mem = \<lparr>countMap = fmap_of_list [(''a'', c)], postponedResizes = fmap_of_list (map (\<lambda>h. (h, 20)) postponed),
        postponeDuration = 20, shouldPostpone = b\<rparr>, reqs = rs, todo = td\<rparr>"

lemma raced_trace:
  "preach True 20 True (raced [] {#} None (- 1) True)"
proof -
  note defs = raced_def pinit_def served_def NewMemory_def Memory_Resize_def Memory_PostponeResize_def
    Memory_PostponeDuration_def Memory_ShouldPostponeResize_def Memory_Count_def done_phase_def finish_op_def
    count_of_def reset_hosts_def reset_host_def open_limit_def
  let ?a = "''a''"
  have sorted: "sorted_list_of_fmap (fmupd ''a'' (20 :: gotime) fmempty) = [(''a'', 20)]" by code_simp
  have dropped: "fmdrop ''a'' (fmupd ''a'' (20 :: gotime) fmempty) = fmempty" by (intro fmap_ext) auto
  have s1: "preach True 20 True (raced [] {#(?a, InHandler)#} None 1 True)"
    using preach_served [of True 20 True] by (simp add: defs)
  have "pstep True (raced [] {#(?a, InHandler)#} None 1 True) (raced [] {#(?a, Postponing)#} None 1 True)"
    using pstep.check [of ?a "raced [] {#(?a, InHandler)#} None 1 True" True] by (simp add: defs)
  from preach_step [OF s1 this] have s2: "preach True 20 True (raced [] {#(?a, Postponing)#} None 1 True)" .
  have "pstep True (raced [] {#(?a, Postponing)#} None 1 True) (raced [?a] {#} None 1 True)"
    using pstep.finish [of ?a Postponing "raced [] {#(?a, Postponing)#} None 1 True" True 0] by (simp add: defs)
  from preach_step [OF s2 this] have s3: "preach True 20 True (raced [?a] {#} None 1 True)" .
  have "pstep True (raced [?a] {#} None 1 True) (raced [?a] {#} (Some [?a]) 1 True)"
    using pstep.scan [of True "raced [?a] {#} None 1 True" "[(?a, 20)]" "\<lambda>_. 21"] sorted
    by (simp add: defs)
  from preach_step [OF s3 this] have s4: "preach True 20 True (raced [?a] {#} (Some [?a]) 1 True)" .
  have "pstep True (raced [?a] {#} (Some [?a]) 1 True) (raced [?a] {#(?a, InHandler)#} (Some [?a]) 2 True)"
    using pstep.arrive [of "raced [?a] {#} (Some [?a]) 1 True" True ?a] by (simp add: defs)
  from preach_step [OF s4 this] have s5: "preach True 20 True (raced [?a] {#(?a, InHandler)#} (Some [?a]) 2 True)" .
  have "pstep True (raced [?a] {#(?a, InHandler)#} (Some [?a]) 2 True) (raced [] {#(?a, InHandler)#} None 0 True)"
    using pstep.reset [of True "raced [?a] {#(?a, InHandler)#} (Some [?a]) 2 True" "[?a]"] dropped by (simp add: defs)
  from preach_step [OF s5 this] have s6: "preach True 20 True (raced [] {#(?a, InHandler)#} None 0 True)" .
  have "pstep True (raced [] {#(?a, InHandler)#} None 0 True) (raced [] {#(?a, Decrementing)#} None 0 True)"
    using pstep.check [of ?a "raced [] {#(?a, InHandler)#} None 0 True" True] by (simp add: defs)
  from preach_step [OF s6 this] have s7: "preach True 20 True (raced [] {#(?a, Decrementing)#} None 0 True)" .
  have "pstep True (raced [] {#(?a, Decrementing)#} None 0 True) (raced [] {#} None (- 1) True)"
    using pstep.finish [of ?a Decrementing "raced [] {#(?a, Decrementing)#} None 0 True" True 0] by (simp add: defs)
  from preach_step [OF s7 this] show ?thesis .
qed

text \<open>
  C40: The window between the two lock sections of \<open>ProcessPostponedResizes\<close>. With the code's own
  sections a state is reachable in which no request is in flight and the count of a host is
  minus one: a request that arrives after the scan and before the reset has its increment wiped
  out and is decremented nevertheless.
\<close>

theorem postponed_race:
  "\<exists>s. preach True 20 True s \<and> reqs s = {#} \<and> sint (Memory_Count ''a'' (mem s)) = - 1"
  by (rule exI [of _ "raced [] {#} None (- 1) True"]) (simp add: raced_trace, simp add: raced_def Memory_Count_def)

text \<open>One request for the host of the samples, served with the deferred function at time \<open>now\<close>.\<close>

definition served_once :: "gotime \<Rightarrow> Memory \<Rightarrow> Memory" where
  "served_once now s =
     (let s' = fst (Memory_Resize ''db.dp-acme'' 1 s) in
      finish_op now ''db.dp-acme'' (done_phase ''db.dp-acme'' s') s')"

lemma middleware_served_once:
  "countMiddleware sample_lookup Memory_Counter now (\<lambda>r w s. (w, s, None)) (sample_request ''db'') NewRecorder s =
    Ret (NewRecorder, served_once now s, None)"
proof -
  have "getHost sample_lookup (sample_request ''db'') = Inr ''db.dp-acme''" by code_simp
  moreover have "c_Resize Memory_Counter ''db.dp-acme'' 1 s = Ret (Memory_Resize ''db.dp-acme'' 1 s)"
    by (simp add: Memory_Counter_def)
  ultimately show ?thesis
    by (simp add: countMiddleware_def count_done_steps served_once_def Let_def split: prod.split)
qed

text \<open>
  The cooldown is not extended by later requests. A request that ends at time 0 postpones the
  reset of its host to time 20; a second request for the host that starts and ends at time 19
  finds the count at two and postpones nothing; and the turn at time 21, two units after the
  last request, sets the count to zero although the cooldown is twenty.
\<close>

theorem cooldown_not_extended:
  "\<exists>s1 s2. let h = ''db.dp-acme'';
      serve = (\<lambda>now s. countMiddleware sample_lookup Memory_Counter now (\<lambda>r w s. (w, s, None))
        (sample_request ''db'') NewRecorder s) in
    serve 0 (NewMemory 20 True) = Ret (NewRecorder, s1, None) \<and> Memory_Count h s1 = 1 \<and>
    serve 19 s1 = Ret (NewRecorder, s2, None) \<and> Memory_Count h s2 = 1 \<and>
    Memory_Count h (process_turn (sorted_list_of_fmap (postponedResizes s2)) [21] s2) = 0"
proof -
  let ?s1 = "served_once 0 (NewMemory 20 True)" and ?s2 = "served_once 19 (served_once 0 (NewMemory 20 True))"
  have "Memory_Count ''db.dp-acme'' ?s1 = 1" "Memory_Count ''db.dp-acme'' ?s2 = 1"
    "Memory_Count ''db.dp-acme'' (process_turn (sorted_list_of_fmap (postponedResizes ?s2)) [21] ?s2) = 0"
    by code_simp+
  then show ?thesis
    unfolding Let_def middleware_served_once by (intro exI [of _ ?s1] exI [of _ ?s2]) simp
qed

end
