(* ===== verification/Settings.thy ===== *)
theory Settings
  imports Process Pending
begin

text \<open>
  The settings of the three programs: the environment variables that the tags of the configuration
  structs name, read through \<open>envconfig\<close>, and the environment that the manifests under \<open>config/\<close> set.
  The library is a parameter; its documented behaviour is the predicate \<open>envconfig_laws\<close>.
\<close>

section \<open>Struct tags\<close>

datatype kind = KString | KInt nat | KBool | KDuration

datatype setting = SString string | SInt int | SBool bool | SDuration gint

text \<open>A field with its tags; a missing \<open>default\<close> tag reads as the empty string.\<close>

record cfg_field =
  fd_env :: string
  fd_kind :: kind
  fd_default :: string
  fd_required :: bool

definition required :: "string \<Rightarrow> kind \<Rightarrow> cfg_field" where
  "required name kd = \<lparr>fd_env = name, fd_kind = kd, fd_default = [], fd_required = True\<rparr>"

definition optional :: "string \<Rightarrow> kind \<Rightarrow> string \<Rightarrow> cfg_field" where
  "optional name kd d = \<lparr>fd_env = name, fd_kind = kd, fd_default = d, fd_required = False\<rparr>"

lemmas field_defs = required_def optional_def

definition Serving_fields :: "cfg_field list" where
  "Serving_fields =
     [required ''KEDA_HTTP_CURRENT_NAMESPACE'' KString,
      required ''KEDA_HTTP_PROXY_PORT'' (KInt 64),
      required ''KEDA_HTTP_ADMIN_PORT'' (KInt 64),
      optional ''KEDA_HTTP_SCALER_CONFIG_MAP_INFORMER_RSYNC_PERIOD'' KDuration ''60m'',
      optional ''KEDA_HTTP_DEPLOYMENT_CACHE_POLLING_INTERVAL_MS'' (KInt 64) ''250'',
      optional ''KEDA_HTTP_REQUEST_QUEUE_COOLDOWN'' KDuration ''20s'',
      optional ''KEDA_HTTP_REQUEST_QUEUE_COOLDOWN_ENFORCER_INTERVAL'' KDuration ''5s'',
      optional ''KEDA_HTTP_ENABLE_REQUEST_QUEUE_COOLDOWN'' KBool ''false'']"

definition Timeouts_fields :: "cfg_field list" where
  "Timeouts_fields =
     [optional ''KEDA_HTTP_CONNECT_TIMEOUT'' KDuration ''500ms'',
      optional ''KEDA_HTTP_KEEP_ALIVE'' KDuration ''1s'',
      optional ''KEDA_RESPONSE_HEADER_TIMEOUT'' KDuration ''500ms'',
      optional ''KEDA_CONDITION_WAIT_TIMEOUT'' KDuration ''1500ms'',
      optional ''KEDA_HTTP_FORCE_HTTP2'' KBool ''false'',
      optional ''KEDA_HTTP_MAX_IDLE_CONNS'' (KInt 64) ''100'',
      optional ''KEDA_HTTP_IDLE_CONN_TIMEOUT'' KDuration ''90s'',
      optional ''KEDA_HTTP_TLS_HANDSHAKE_TIMEOUT'' KDuration ''10s'',
      optional ''KEDA_HTTP_EXPECT_CONTINUE_TIMEOUT'' KDuration ''1s'',
      optional ''KEDA_SERVICE_UNAVAILABLE_RETRY'' (KInt 64) ''3'']"

definition scaler_fields :: "cfg_field list" where
  "scaler_fields =
     [optional ''KEDA_HTTP_SCALER_PORT'' (KInt 64) ''8080'',
      optional ''KEDA_HTTP_HEALTH_PORT'' (KInt 64) ''8090'',
      required ''KEDA_HTTP_SCALER_TARGET_ADMIN_NAMESPACE'' KString,
      required ''KEDA_HTTP_SCALER_TARGET_ADMIN_SERVICE'' KString,
      required ''KEDA_HTTP_SCALER_TARGET_ADMIN_DEPLOYMENT'' KString,
      required ''KEDA_HTTP_SCALER_TARGET_ADMIN_PORT'' (KInt 64),
      optional ''KEDA_HTTP_SCALER_TARGET_PENDING_REQUESTS'' (KInt 64) ''100'',
      optional ''KEDA_HTTP_SCALER_CONFIG_MAP_INFORMER_RSYNC_PERIOD'' KDuration ''60m'',
      optional ''KEDA_HTTP_SCALER_DEPLOYMENT_INFORMER_RSYNC_PERIOD'' KDuration ''60m'',
      optional ''KEDA_HTTP_QUEUE_TICK_DURATION'' KDuration ''1s'',
      optional ''KEDA_HTTP_SCALER_TARGET_PENDING_REQUESTS_INTERCEPTOR'' (KInt 64) ''100'']"

definition Base_fields :: "cfg_field list" where
  "Base_fields =
     [optional ''TARGET_PENDING_REQUESTS'' (KInt 32) ''100'',
      optional ''NAMESPACE'' KString [],
      optional ''WATCH_NAMESPACE'' KString []]"

section \<open>Reading the environment\<close>

text \<open>
  An environment gives the value of a variable that is set. \<open>Process\<close> of \<open>envconfig\<close> takes it, a
  prefix and the fs of the struct, and gives the values it stores, or an error; \<open>MustProcess\<close> is
  documented to do the same, but to panic on an error.
\<close>

type_synonym environ = "string \<Rightarrow> string option"

type_synonym envconfig = "environ \<Rightarrow> string \<Rightarrow> cfg_field list \<Rightarrow> error + setting list"

definition MustProcess :: "envconfig \<Rightarrow> environ \<Rightarrow> string \<Rightarrow> cfg_field list \<Rightarrow> setting list go" where
  "MustProcess process env pre fs =
     (case process env pre fs of Inl err \<Rightarrow> Panic (error_text err) | Inr vs \<Rightarrow> Ret vs)"

text \<open>The value of a field of each type, read from what was stored.\<close>

primrec str_of :: "setting \<Rightarrow> string" where
  "str_of (SString s) = s" | "str_of (SInt i) = []" | "str_of (SBool b) = []" | "str_of (SDuration d) = []"

primrec int_of :: "setting \<Rightarrow> int" where
  "int_of (SString s) = 0" | "int_of (SInt i) = i" | "int_of (SBool b) = 0" | "int_of (SDuration d) = 0"

primrec bool_of :: "setting \<Rightarrow> bool" where
  "bool_of (SString s) = False" | "bool_of (SInt i) = False" | "bool_of (SBool b) = b" | "bool_of (SDuration d) = False"

primrec dur_of :: "setting \<Rightarrow> gint" where
  "dur_of (SString s) = 0" | "dur_of (SInt i) = 0" | "dur_of (SBool b) = 0" | "dur_of (SDuration d) = d"

definition MustParseServing :: "envconfig \<Rightarrow> environ \<Rightarrow> Serving go" where
  "MustParseServing process env =
     bind_go (MustProcess process env [] Serving_fields) (\<lambda>ret.
       Ret \<lparr>CurrentNamespace = str_of (ret ! 0), ProxyPort = of_int (int_of (ret ! 1)), AdminPort = of_int (int_of (ret ! 2)),
         ConfigMapCacheRsyncPeriod = dur_of (ret ! 3), DeploymentCachePollIntervalMS = of_int (int_of (ret ! 4)),
         RequestQueueCooldown = dur_of (ret ! 5), RequestQueueCooldownEnforcerInterval = dur_of (ret ! 6),
         EnableRequestQueueCooldown = bool_of (ret ! 7)\<rparr>)"

definition MustParseTimeouts :: "envconfig \<Rightarrow> environ \<Rightarrow> Timeouts go" where
  "MustParseTimeouts process env =
     bind_go (MustProcess process env [] Timeouts_fields) (\<lambda>ret.
       Ret \<lparr>Connect = dur_of (ret ! 0), KeepAlive = dur_of (ret ! 1), ResponseHeader = dur_of (ret ! 2),
         DeploymentReplicas = dur_of (ret ! 3), ForceHTTP2 = bool_of (ret ! 4), MaxIdleConns = of_int (int_of (ret ! 5)),
         IdleConnTimeout = dur_of (ret ! 6), TLSHandshakeTimeout = dur_of (ret ! 7),
         ExpectContinueTimeout = dur_of (ret ! 8), ServiceUnavailableRetry = of_int (int_of (ret ! 9))\<rparr>)"

definition mustParseConfig :: "envconfig \<Rightarrow> environ \<Rightarrow> scaler_config go" where
  "mustParseConfig process env =
     bind_go (MustProcess process env [] scaler_fields) (\<lambda>ret.
       Ret \<lparr>GRPCPort = of_int (int_of (ret ! 0)), HealthPort = of_int (int_of (ret ! 1)), TargetNamespace = str_of (ret ! 2),
         TargetService = str_of (ret ! 3), TargetDeployment = str_of (ret ! 4), TargetPort = of_int (int_of (ret ! 5)),
         cfg_TargetPendingRequests = of_int (int_of (ret ! 6)), cfg_ConfigMapCacheRsyncPeriod = dur_of (ret ! 7),
         DeploymentCacheRsyncPeriod = dur_of (ret ! 8), QueueTickDuration = dur_of (ret ! 9),
         TargetPendingRequestsInterceptor = of_int (int_of (ret ! 10))\<rparr>)"

definition NewBaseFromEnv :: "envconfig \<Rightarrow> environ \<Rightarrow> error + BaseCfg" where
  "NewBaseFromEnv process env =
     (case process env ''KEDA_HTTP_OPERATOR'' Base_fields of
        Inl err \<Rightarrow> Inl err
      | Inr ret \<Rightarrow>
          Inr \<lparr>base_TargetPendingRequests = of_int (int_of (ret ! 0)), base_CurrentNamespace = str_of (ret ! 1),
            base_WatchNamespace = str_of (ret ! 2)\<rparr>)"

text \<open>\<open>os.Getenv\<close>, which the operator reads the other two configurations with.\<close>

definition Getenv :: "environ \<Rightarrow> string \<Rightarrow> string" where
  "Getenv env k = (case env k of None \<Rightarrow> [] | Some s \<Rightarrow> s)"

section \<open>What is assumed of envconfig\<close>

text \<open>
  Texts decode as the documentation of \<open>envconfig\<close>, \<open>strconv\<close> and \<open>time\<close> says, as far as it is used here:
  strings as they are, decimal numbers that fit, the two truth values, and durations as a number
  with a unit.
\<close>

definition units :: "(string \<times> int) list" where
  "units = [(''ms'', 1000000), (''s'', 1000000000), (''m'', 60000000000)]"

definition decoder_laws :: "(kind \<Rightarrow> string \<Rightarrow> error + setting) \<Rightarrow> bool" where
  "decoder_laws dec \<longleftrightarrow>
     (\<forall>s. dec KString s = Inr (SString s)) \<and>
     (\<forall>bits i. 0 < bits \<longrightarrow> - (2 ^ (bits - 1)) \<le> i \<longrightarrow> i < 2 ^ (bits - 1) \<longrightarrow> dec (KInt bits) (show_int i) = Inr (SInt i)) \<and>
     dec KBool ''true'' = Inr (SBool True) \<and> dec KBool ''false'' = Inr (SBool False) \<and>
     (\<forall>(u, ns) \<in> set units. \<forall>n. int n * ns < 2 ^ 63 \<longrightarrow> dec KDuration (show_nat n @ u) = Inr (SDuration (of_int (int n * ns))))"

text \<open>
  The variable of a field is the prefix with the name of the tag, or, if that is not set, the name
  by itself; a variable that is not set takes the default; and without a default a field is an error
  if it is required, and zero otherwise. \<open>Process\<close> succeeds exactly when every field can be read.
\<close>

primrec zero_setting :: "kind \<Rightarrow> setting" where
  "zero_setting KString = SString []"
| "zero_setting (KInt bits) = SInt 0"
| "zero_setting KBool = SBool False"
| "zero_setting KDuration = SDuration 0"

definition env_lookup :: "environ \<Rightarrow> string \<Rightarrow> cfg_field \<Rightarrow> string option" where
  "env_lookup env pre f =
     (case env (if pre = [] then fd_env f else pre @ ''_'' @ fd_env f) of Some s \<Rightarrow> Some s | None \<Rightarrow> env (fd_env f))"

definition field_reads :: "(kind \<Rightarrow> string \<Rightarrow> error + setting) \<Rightarrow> environ \<Rightarrow> string \<Rightarrow> cfg_field \<Rightarrow> setting \<Rightarrow> bool" where
  "field_reads dec env pre f v \<longleftrightarrow>
     (case env_lookup env pre f of
        Some s \<Rightarrow> dec (fd_kind f) s = Inr v
      | None \<Rightarrow>
          if fd_default f \<noteq> [] then dec (fd_kind f) (fd_default f) = Inr v
          else \<not> fd_required f \<and> v = zero_setting (fd_kind f))"

definition envconfig_laws :: "(kind \<Rightarrow> string \<Rightarrow> error + setting) \<Rightarrow> envconfig \<Rightarrow> bool" where
  "envconfig_laws dec process \<longleftrightarrow> decoder_laws dec \<and>
     (\<forall>env pre fs vs. process env pre fs = Inr vs \<longleftrightarrow> list_all2 (field_reads dec env pre) fs vs)"

lemma process_reads:
  assumes "envconfig_laws dec process" "list_all2 (field_reads dec env pre) fs vs"
  shows "process env pre fs = Inr vs"
  using assms by (simp add: envconfig_laws_def)

lemma process_missing:
  assumes "envconfig_laws dec process" "f \<in> set fs" "env_lookup env pre f = None" "fd_required f" "fd_default f = []"
  shows "\<exists>err. process env pre fs = Inl err"
proof (cases "process env pre fs")
  case (Inr vs)
  then have "list_all2 (field_reads dec env pre) fs vs" using assms(1) by (simp add: envconfig_laws_def)
  then obtain v where "field_reads dec env pre f v" using assms(2) by (metis in_set_conv_nth list_all2_conv_all_nth)
  with assms show ?thesis by (simp add: field_reads_def)
qed blast

text \<open>Texts of the settings as the decoder reads them.\<close>

lemma digit_texts:
  "digit 0 = CHR ''0''" "digit (Suc 0) = CHR ''1''" "digit 2 = CHR ''2''" "digit 3 = CHR ''3''" "digit 4 = CHR ''4''"
  "digit 5 = CHR ''5''" "digit 6 = CHR ''6''" "digit 7 = CHR ''7''" "digit 8 = CHR ''8''" "digit 9 = CHR ''9''"
  by code_simp+

lemma dec_string: "decoder_laws dec \<Longrightarrow> dec KString s = Inr (SString s)"
  by (simp add: decoder_laws_def)

lemma dec_bool: "decoder_laws dec \<Longrightarrow> dec KBool ''false'' = Inr (SBool False)"
  by (simp add: decoder_laws_def)

lemma dec_int:
  assumes "decoder_laws dec" "show_int i = s" "0 < bits" "- (2 ^ (bits - 1)) \<le> i" "i < 2 ^ (bits - 1)"
  shows "dec (KInt bits) s = Inr (SInt i)"
  using assms unfolding decoder_laws_def by blast

lemma dec_duration:
  assumes "decoder_laws dec" "(u, ns) \<in> set units" "show_nat n @ u = s" "int n * ns < 2 ^ 63"
  shows "dec KDuration s = Inr (SDuration (of_int (int n * ns)))"
  using assms unfolding decoder_laws_def by blast

lemma int_texts:
  "show_int 250 = ''250''" "show_int 100 = ''100''" "show_int 3 = ''3''" "show_int 8080 = ''8080''" "show_int 8090 = ''8090''" "show_int 9090 = ''9090''" "show_int 9091 = ''9091''" "show_int 1000 = ''1000''" "show_int 200 = ''200''"
  by (simp_all add: show_int_def show_nat.simps digit_texts)

lemma dec_ints:
  assumes "decoder_laws dec"
  shows "dec (KInt 64) ''250'' = Inr (SInt 250)"
    "dec (KInt 64) ''100'' = Inr (SInt 100)"
    "dec (KInt 64) ''3'' = Inr (SInt 3)"
    "dec (KInt 64) ''8080'' = Inr (SInt 8080)"
    "dec (KInt 64) ''8090'' = Inr (SInt 8090)"
    "dec (KInt 64) ''9090'' = Inr (SInt 9090)"
    "dec (KInt 64) ''9091'' = Inr (SInt 9091)"
    "dec (KInt 64) ''1000'' = Inr (SInt 1000)"
    "dec (KInt 64) ''200'' = Inr (SInt 200)"
    "dec (KInt 32) ''100'' = Inr (SInt 100)"
  by (rule dec_int [OF assms]; simp add: int_texts)+

lemma dec_durations:
  assumes "decoder_laws dec"
  shows "dec KDuration ''60m'' = Inr (SDuration 3600000000000)"
    "dec KDuration ''20s'' = Inr (SDuration 20000000000)"
    "dec KDuration ''5s'' = Inr (SDuration 5000000000)"
    "dec KDuration ''500ms'' = Inr (SDuration 500000000)"
    "dec KDuration ''1s'' = Inr (SDuration 1000000000)"
    "dec KDuration ''1500ms'' = Inr (SDuration 1500000000)"
    "dec KDuration ''90s'' = Inr (SDuration 90000000000)"
    "dec KDuration ''10s'' = Inr (SDuration 10000000000)"
    "dec KDuration ''120000ms'' = Inr (SDuration 120000000000)"
proof -
  note d = dec_duration [OF assms] and t = units_def show_nat.simps digit_texts
  show "dec KDuration ''60m'' = Inr (SDuration 3600000000000)" using d [of "''m''" 60000000000 60 "''60m''"] by (simp add: t)
  show "dec KDuration ''20s'' = Inr (SDuration 20000000000)" using d [of "''s''" 1000000000 20 "''20s''"] by (simp add: t)
  show "dec KDuration ''5s'' = Inr (SDuration 5000000000)" using d [of "''s''" 1000000000 5 "''5s''"] by (simp add: t)
  show "dec KDuration ''500ms'' = Inr (SDuration 500000000)" using d [of "''ms''" 1000000 500 "''500ms''"] by (simp add: t)
  show "dec KDuration ''1s'' = Inr (SDuration 1000000000)" using d [of "''s''" 1000000000 1 "''1s''"] by (simp add: t)
  show "dec KDuration ''1500ms'' = Inr (SDuration 1500000000)" using d [of "''ms''" 1000000 1500 "''1500ms''"] by (simp add: t)
  show "dec KDuration ''90s'' = Inr (SDuration 90000000000)" using d [of "''s''" 1000000000 90 "''90s''"] by (simp add: t)
  show "dec KDuration ''10s'' = Inr (SDuration 10000000000)" using d [of "''s''" 1000000000 10 "''10s''"] by (simp add: t)
  show "dec KDuration ''120000ms'' = Inr (SDuration 120000000000)" using d [of "''ms''" 1000000 120000 "''120000ms''"] by (simp add: t)
qed

section \<open>The manifests\<close>

text \<open>The environment of the containers in \<open>config/\<close>, and the ConfigMap and names that Kustomize makes there.\<close>

definition interceptor_manifest :: "(string \<times> string) list" where
  "interceptor_manifest =
     [(''KEDA_HTTP_ROUTING_TABLE_UPDATE_DURATION_MS'', ''500''),
      (''KEDA_HTTP_CURRENT_NAMESPACE'', ''keda''),
      (''KEDA_HTTP_PROXY_PORT'', ''8080''),
      (''KEDA_HTTP_ADMIN_PORT'', ''9090''),
      (''KEDA_HTTP_CONNECT_TIMEOUT'', ''500ms''),
      (''KEDA_HTTP_KEEP_ALIVE'', ''1s''),
      (''KEDA_RESPONSE_HEADER_TIMEOUT'', ''120000ms''),
      (''KEDA_CONDITION_WAIT_TIMEOUT'', ''20s''),
      (''KEDA_HTTP_DEPLOYMENT_CACHE_POLLING_INTERVAL_MS'', ''1000''),
      (''KEDA_HTTP_FORCE_HTTP2'', ''false''),
      (''KEDA_HTTP_MAX_IDLE_CONNS'', ''100''),
      (''KEDA_HTTP_IDLE_CONN_TIMEOUT'', ''90s''),
      (''KEDA_HTTP_TLS_HANDSHAKE_TIMEOUT'', ''10s''),
      (''KEDA_HTTP_EXPECT_CONTINUE_TIMEOUT'', ''1s'')]"

definition scaler_manifest :: "(string \<times> string) list" where
  "scaler_manifest =
     [(''KEDA_HTTP_SCALER_TARGET_ADMIN_DEPLOYMENT'', ''keda-http-add-on-interceptor''),
      (''KEDA_HTTP_SCALER_PORT'', ''9090''),
      (''KEDA_HTTP_HEALTH_PORT'', ''9091''),
      (''KEDA_HTTP_SCALER_TARGET_ADMIN_NAMESPACE'', ''keda''),
      (''KEDA_HTTP_SCALER_TARGET_ADMIN_SERVICE'', ''keda-http-add-on-interceptor-admin''),
      (''KEDA_HTTP_SCALER_TARGET_ADMIN_PORT'', ''9090''),
      (''KEDA_HTTP_SCALER_TARGET_PENDING_REQUESTS_INTERCEPTOR'', ''200'')]"

definition operator_manifest :: "(string \<times> string) list" where
  "operator_manifest =
     [(''KEDAHTTP_INTERCEPTOR_SERVICE'', ''keda-http-add-on-interceptor-admin''),
      (''KEDAHTTP_OPERATOR_EXTERNAL_SCALER_SERVICE'', ''keda-http-add-on-external-scaler''),
      (''KEDAHTTP_OPERATOR_EXTERNAL_SCALER_PORT'', ''9090''),
      (''KEDAHTTP_INTERCEPTOR_ADMIN_PORT'', ''9090''),
      (''KEDAHTTP_INTERCEPTOR_PROXY_PORT'', ''8080''),
      (''KEDA_HTTP_OPERATOR_NAMESPACE'', ''keda''),
      (''KEDA_HTTP_OPERATOR_WATCH_NAMESPACE'', [])]"

definition namePrefix :: string where
  "namePrefix = ''keda-http-add-on-''"

definition manifest_cm :: ConfigMap where
  "manifest_cm = \<lparr>cm_Namespace = ''keda'', cm_Name = namePrefix @ ''routing-table'', cm_Labels = None,
     cm_Data = Some (fmap_of_list [(''routing-table'', ''{}'')])\<rparr>"

definition admin_service :: "string \<times> int" where
  "admin_service = (namePrefix @ ''interceptor-admin'', 9090)"

definition scaler_service :: "string \<times> int" where
  "scaler_service = (namePrefix @ ''external-scaler'', 9090)"

text \<open>An environment has the variables of a manifest, as far as the program reads them.\<close>

definition deployed :: "(string \<times> string) list \<Rightarrow> string list \<Rightarrow> environ \<Rightarrow> bool" where
  "deployed manifest names env \<longleftrightarrow> list_all (\<lambda>name. env name = map_of manifest name) names"

definition names_of :: "string \<Rightarrow> cfg_field list \<Rightarrow> string list" where
  "names_of pre fs = map fd_env fs @ map (\<lambda>f. pre @ ''_'' @ fd_env f) fs"

definition interceptor_env_names :: "string list" where
  "interceptor_env_names =
     [''KEDAHTTP_INTERCEPTOR_SERVICE'', ''KEDAHTTP_INTERCEPTOR_ADMIN_PORT'', ''KEDAHTTP_INTERCEPTOR_PROXY_PORT'',
      ''KEDAHTTP_OPERATOR_EXTERNAL_SCALER_SERVICE'', ''KEDAHTTP_OPERATOR_EXTERNAL_SCALER_PORT'']"

section \<open>What the manifests configure\<close>

definition manifest_serving :: Serving where
  "manifest_serving = \<lparr>CurrentNamespace = ''keda'', ProxyPort = 8080, AdminPort = 9090, ConfigMapCacheRsyncPeriod = 3600 * second,
     DeploymentCachePollIntervalMS = 1000, RequestQueueCooldown = 20 * second, RequestQueueCooldownEnforcerInterval = 5 * second,
     EnableRequestQueueCooldown = False\<rparr>"

definition manifest_timeouts :: Timeouts where
  "manifest_timeouts = \<lparr>Connect = 500 * millisecond, KeepAlive = second, ResponseHeader = 120 * second,
     DeploymentReplicas = 20 * second, ForceHTTP2 = False, MaxIdleConns = 100, IdleConnTimeout = 90 * second,
     TLSHandshakeTimeout = 10 * second, ExpectContinueTimeout = second, ServiceUnavailableRetry = 3\<rparr>"

lemma field_reads_iff:
  "field_reads dec env [] f v \<longleftrightarrow>
     (case env (fd_env f) of
        Some s \<Rightarrow> dec (fd_kind f) s = Inr v
      | None \<Rightarrow>
          if fd_default f \<noteq> [] then dec (fd_kind f) (fd_default f) = Inr v
          else \<not> fd_required f \<and> v = zero_setting (fd_kind f))"
  by (simp add: field_reads_def env_lookup_def split: option.split)

lemma deployed_map: "deployed manifest names env \<Longrightarrow> map env names = map (map_of manifest) names"
  by (simp add: deployed_def list_all_iff)

lemma interceptor_vars:
  assumes "deployed interceptor_manifest (map fd_env (Serving_fields @ Timeouts_fields)) env"
  shows "map env (map fd_env (Serving_fields @ Timeouts_fields)) =
      [Some ''keda'', Some ''8080'', Some ''9090'', None, Some ''1000'', None, None, None, Some ''500ms'', Some ''1s'',
       Some ''120000ms'', Some ''20s'', Some ''false'', Some ''100'', Some ''90s'', Some ''10s'', Some ''1s'', None]"
  unfolding deployed_map [OF assms] by code_simp

lemma interceptor_manifest_parses:
  assumes "envconfig_laws dec process"
    and "deployed interceptor_manifest (map fd_env (Serving_fields @ Timeouts_fields)) env"
  shows "MustParseServing process env = Ret manifest_serving \<and> MustParseTimeouts process env = Ret manifest_timeouts"
proof -
  have dec: "decoder_laws dec" using assms(1) by (simp add: envconfig_laws_def)
  note vars = interceptor_vars [OF assms(2), unfolded Serving_fields_def Timeouts_fields_def field_defs, simplified]
  note facts = vars dec_string [OF dec] dec_bool [OF dec] dec_ints [OF dec] dec_durations [OF dec]
  have "process env [] Serving_fields = Inr [SString ''keda'', SInt 8080, SInt 9090, SDuration 3600000000000, SInt 1000,
      SDuration 20000000000, SDuration 5000000000, SBool False]"
    by (rule process_reads [OF assms(1)]) (simp add: Serving_fields_def field_defs field_reads_iff facts)
  moreover have "process env [] Timeouts_fields = Inr [SDuration 500000000, SDuration 1000000000, SDuration 120000000000,
      SDuration 20000000000, SBool False, SInt 100, SDuration 90000000000, SDuration 10000000000, SDuration 1000000000, SInt 3]"
    by (rule process_reads [OF assms(1)]) (simp add: Timeouts_fields_def field_defs field_reads_iff facts)
  ultimately show ?thesis
    by (simp add: MustParseServing_def MustParseTimeouts_def MustProcess_def manifest_serving_def manifest_timeouts_def
        second_def millisecond_def)
qed

definition manifest_scaler :: scaler_config where
  "manifest_scaler = \<lparr>GRPCPort = 9090, HealthPort = 9091, TargetNamespace = ''keda'',
     TargetService = ''keda-http-add-on-interceptor-admin'', TargetDeployment = ''keda-http-add-on-interceptor'', TargetPort = 9090,
     cfg_TargetPendingRequests = 100, cfg_ConfigMapCacheRsyncPeriod = 3600 * second, DeploymentCacheRsyncPeriod = 3600 * second,
     QueueTickDuration = second, TargetPendingRequestsInterceptor = 200\<rparr>"

lemma scaler_vars:
  assumes "deployed scaler_manifest (map fd_env scaler_fields) env"
  shows "map env (map fd_env scaler_fields) =
      [Some ''9090'', Some ''9091'', Some ''keda'', Some ''keda-http-add-on-interceptor-admin'', Some ''keda-http-add-on-interceptor'',
       Some ''9090'', None, None, None, None, Some ''200'']"
  unfolding deployed_map [OF assms] by code_simp

lemma scaler_manifest_parses:
  assumes "envconfig_laws dec process" "deployed scaler_manifest (map fd_env scaler_fields) env"
  shows "mustParseConfig process env = Ret manifest_scaler"
proof -
  have dec: "decoder_laws dec" using assms(1) by (simp add: envconfig_laws_def)
  note vars = scaler_vars [OF assms(2), unfolded scaler_fields_def field_defs, simplified]
  note facts = vars dec_string [OF dec] dec_bool [OF dec] dec_ints [OF dec] dec_durations [OF dec]
  have "process env [] scaler_fields = Inr [SInt 9090, SInt 9091, SString ''keda'', SString ''keda-http-add-on-interceptor-admin'',
      SString ''keda-http-add-on-interceptor'', SInt 9090, SInt 100, SDuration 3600000000000, SDuration 3600000000000,
      SDuration 1000000000, SInt 200]"
    by (rule process_reads [OF assms(1)]) (simp add: scaler_fields_def field_defs field_reads_iff facts)
  then show ?thesis by (simp add: mustParseConfig_def MustProcess_def manifest_scaler_def second_def)
qed

definition manifest_base :: BaseCfg where
  "manifest_base = \<lparr>base_TargetPendingRequests = 100, base_CurrentNamespace = ''keda'', base_WatchNamespace = []\<rparr>"

definition operator_names :: "string list" where
  "operator_names = names_of ''KEDA_HTTP_OPERATOR'' Base_fields @ interceptor_env_names"

lemma operator_vars:
  assumes "deployed operator_manifest operator_names env"
  shows "map env operator_names =
      [None, None, None, None, Some ''keda'', Some [], Some ''keda-http-add-on-interceptor-admin'', Some ''9090'', Some ''8080'',
       Some ''keda-http-add-on-external-scaler'', Some ''9090'']"
  unfolding deployed_map [OF assms] by code_simp

lemma operator_manifest_parses:
  assumes "envconfig_laws dec process" "deployed operator_manifest operator_names env"
  shows "NewBaseFromEnv process env = Inr manifest_base \<and>
    NewInterceptorFromEnv (Getenv env) =
      Inr \<lparr>ic_ServiceName = ''keda-http-add-on-interceptor-admin'', ic_ProxyPort = 8080, ic_AdminPort = 9090\<rparr> \<and>
    NewExternalScalerFromEnv (Getenv env) = Inr \<lparr>es_ServiceName = ''keda-http-add-on-external-scaler'', es_Port = 9090\<rparr>"
proof -
  have dec: "decoder_laws dec" using assms(1) by (simp add: envconfig_laws_def)
  note vars = operator_vars [OF assms(2), unfolded operator_names_def names_of_def interceptor_env_names_def Base_fields_def field_defs,
      simplified]
  have "process env ''KEDA_HTTP_OPERATOR'' Base_fields = Inr [SInt 100, SString ''keda'', SString []]"
    by (rule process_reads [OF assms(1)])
      (simp add: Base_fields_def field_defs field_reads_def env_lookup_def vars dec_string [OF dec] dec_ints [OF dec])
  then have "NewBaseFromEnv process env = Inr manifest_base"
    by (simp add: NewBaseFromEnv_def manifest_base_def)
  moreover have "ParseInt ''9090'' 32 = Some 9090" "ParseInt ''8080'' 32 = Some 8080"
    using ParseInt_show_int [of 32 9090] ParseInt_show_int [of 32 8080] by (simp_all add: int_texts)
  ultimately show ?thesis
    by (simp add: NewInterceptorFromEnv_def NewExternalScalerFromEnv_def env_Get_def GetInt32Or_def Getenv_def vars)
qed

text \<open>
  C8: The manifests fit the programs and one another. With the environment that the manifests set, and
  whatever else the containers have, all six configurations are read without an error or a panic; the
  interceptor accepts its own and does not postpone resizes; the three programs agree on the
  namespace of the ConfigMap; the scaler asks the interceptors' admin service for their counts on
  the port where they serve them; the operator tells KEDA the scaler's service on the port where it
  serves gRPC; and the ConfigMap is the one the programs read, with an empty routing table.
\<close>

theorem manifests_fit:
  assumes "envconfig_laws dec process"
    and "deployed interceptor_manifest (map fd_env (Serving_fields @ Timeouts_fields)) ienv"
    and "deployed scaler_manifest (map fd_env scaler_fields) senv"
    and "deployed operator_manifest operator_names oenv"
  shows "\<exists>serving timeouts cfg base interceptor scaler.
    MustParseServing process ienv = Ret serving \<and> MustParseTimeouts process ienv = Ret timeouts \<and>
    mustParseConfig process senv = Ret cfg \<and> NewBaseFromEnv process oenv = Inr base \<and>
    NewInterceptorFromEnv (Getenv oenv) = Inr interceptor \<and> NewExternalScalerFromEnv (Getenv oenv) = Inr scaler \<and>
    Validate serving timeouts = None \<and> \<not> EnableRequestQueueCooldown serving \<and>
    CurrentNamespace serving = base_CurrentNamespace base \<and> TargetNamespace cfg = base_CurrentNamespace base \<and>
    (TargetService cfg, sint (TargetPort cfg)) = admin_service \<and> AdminPort serving = TargetPort cfg \<and>
    (ic_ServiceName interceptor, sint (ic_AdminPort interceptor)) = admin_service \<and>
    (es_ServiceName scaler, sint (es_Port scaler)) = scaler_service \<and> sint (GRPCPort cfg) = sint (es_Port scaler) \<and>
    (cm_Namespace manifest_cm, cm_Name manifest_cm) = (base_CurrentNamespace base, ConfigMapRoutingTableName) \<and>
    FetchTableFromConfigMap manifest_cm = Inr NewTable"
proof -
  have "Validate manifest_serving manifest_timeouts = None" by code_simp
  moreover have "cm_Name manifest_cm = ConfigMapRoutingTableName" "FetchTableFromConfigMap manifest_cm = Inr NewTable"
    by code_simp+
  ultimately show ?thesis
    using interceptor_manifest_parses [OF assms(1,2)] scaler_manifest_parses [OF assms(1,3)] operator_manifest_parses [OF assms(1,4)]
    by (simp add: manifest_serving_def manifest_scaler_def manifest_base_def manifest_cm_def admin_service_def scaler_service_def
        namePrefix_def)
qed

section \<open>A reader that satisfies the assumptions\<close>

definition invalid_value :: error where
  "invalid_value = External ''envconfig: invalid value''"

definition read_duration :: "string \<Rightarrow> error + setting" where
  "read_duration s =
     (case (read_nat (takeWhile is_digit s), map_of units (dropWhile is_digit s)) of
        (Some n, Some ns) \<Rightarrow> if int n * ns < 2 ^ 63 then Inr (SDuration (of_int (int n * ns))) else Inl invalid_value
      | _ \<Rightarrow> Inl invalid_value)"

primrec read_text :: "kind \<Rightarrow> string \<Rightarrow> error + setting" where
  "read_text KString s = Inr (SString s)"
| "read_text (KInt bits) s = (case ParseInt s bits of Some i \<Rightarrow> Inr (SInt i) | None \<Rightarrow> Inl invalid_value)"
| "read_text KBool s =
     (if s = ''true'' then Inr (SBool True) else if s = ''false'' then Inr (SBool False) else Inl invalid_value)"
| "read_text KDuration s = read_duration s"

definition read_field :: "environ \<Rightarrow> string \<Rightarrow> cfg_field \<Rightarrow> error + setting" where
  "read_field env pre f =
     (case env_lookup env pre f of
        Some s \<Rightarrow> read_text (fd_kind f) s
      | None \<Rightarrow>
          if fd_default f \<noteq> [] then read_text (fd_kind f) (fd_default f)
          else if fd_required f then Inl (External ''required key missing value'')
          else Inr (zero_setting (fd_kind f)))"

fun read_all :: envconfig where
  "read_all env pre [] = Inr []"
| "read_all env pre (f # fs) =
     (case read_field env pre f of
        Inl err \<Rightarrow> Inl err
      | Inr v \<Rightarrow> (case read_all env pre fs of Inl err \<Rightarrow> Inl err | Inr vs \<Rightarrow> Inr (v # vs)))"

lemma read_field_reads: "field_reads read_text env pre f v \<longleftrightarrow> read_field env pre f = Inr v"
  by (auto simp: field_reads_def read_field_def split: option.split)

lemma read_all_reads: "read_all env pre fs = Inr vs \<longleftrightarrow> list_all2 (field_reads read_text env pre) fs vs"
proof (induction fs arbitrary: vs)
  case (Cons f fs)
  note IH = Cons.IH
  show ?case
  proof (cases vs)
    case (Cons v vs')
    then show ?thesis using IH [of vs', symmetric] by (auto simp: read_field_reads split: sum.splits)
  qed (auto split: sum.splits)
qed auto

lemma read_duration_text:
  assumes "(u, ns) \<in> set units" "int n * ns < 2 ^ 63"
  shows "read_duration (show_nat n @ u) = Inr (SDuration (of_int (int n * ns)))"
proof -
  have "is_digit (hd u) = False" "u \<noteq> []" "map_of units u = Some ns"
    using assms(1) by (auto simp: units_def is_digit_def)
  then have "takeWhile is_digit u = []" "dropWhile is_digit u = u" by (cases u; simp)+
  moreover have "takeWhile is_digit (show_nat n @ u) = show_nat n @ takeWhile is_digit u"
    "dropWhile is_digit (show_nat n @ u) = dropWhile is_digit u"
    using show_nat_digits by (simp_all add: takeWhile_append2 dropWhile_append2)
  ultimately show ?thesis using assms(2) \<open>map_of units u = Some ns\<close> by (simp add: read_duration_def)
qed

lemma read_all_laws: "envconfig_laws read_text read_all"
proof -
  have "decoder_laws read_text"
    unfolding decoder_laws_def
  proof (intro conjI allI impI)
    show "\<forall>(u, ns) \<in> set units. \<forall>n. int n * ns < 2 ^ 63 \<longrightarrow> read_text KDuration (show_nat n @ u) = Inr (SDuration (of_int (int n * ns)))"
      using read_duration_text by (intro ballI) (clarify, simp only: read_text.simps)
  qed (simp_all add: ParseInt_show_int)
  then show ?thesis by (simp add: envconfig_laws_def read_all_reads)
qed

theorem manifests_fit_witness:
  "\<exists>serving cfg. MustParseServing read_all (map_of interceptor_manifest) = Ret serving \<and>
     mustParseConfig read_all (map_of scaler_manifest) = Ret cfg \<and> AdminPort serving = TargetPort cfg \<and>
     (TargetService cfg, sint (TargetPort cfg)) = admin_service"
proof -
  have "deployed m names (map_of m)" for m names by (simp add: deployed_def list_all_iff)
  from manifests_fit [OF read_all_laws this this this] show ?thesis by blast
qed

section \<open>The interceptor's environment\<close>

lemma cooldown_off:
  assumes "envconfig_laws dec process" "env ''KEDA_HTTP_ENABLE_REQUEST_QUEUE_COOLDOWN'' = None"
    and "MustParseServing process env = Ret serving"
  shows "\<not> EnableRequestQueueCooldown serving"
proof -
  obtain vs where vs: "process env [] Serving_fields = Inr vs" "EnableRequestQueueCooldown serving = bool_of (vs ! 7)"
    using assms(3) by (cases "process env [] Serving_fields") (auto simp: MustParseServing_def MustProcess_def)
  have "list_all2 (field_reads dec env []) Serving_fields vs" using assms(1) vs(1) by (simp add: envconfig_laws_def)
  moreover have "length Serving_fields = 8" by (simp add: Serving_fields_def)
  ultimately have "field_reads dec env [] (Serving_fields ! 7) (vs ! 7)" by (simp add: list_all2_conv_all_nth)
  moreover have "Serving_fields ! 7 = optional ''KEDA_HTTP_ENABLE_REQUEST_QUEUE_COOLDOWN'' KBool ''false''"
    by (simp add: Serving_fields_def)
  moreover have "dec KBool ''false'' = Inr (SBool False)" using assms(1) dec_bool by (simp add: envconfig_laws_def)
  ultimately have "vs ! 7 = SBool False" using assms(2) by (auto simp: field_reads_iff optional_def)
  then show ?thesis using vs(2) by simp
qed

text \<open>
  C7: From the environment to the counts. An interceptor that has started, in an environment that does
  not switch the cooldown on, counts exactly: whatever requests then come and go, and however their
  lock sections interleave with those of the enforcer, the count of a host is the number of its
  requests in flight, from the counter that \<open>main\<close> made on.
\<close>

theorem default_interceptor_counts:
  assumes "envconfig_laws dec process" "env ''KEDA_HTTP_ENABLE_REQUEST_QUEUE_COOLDOWN'' = None"
    and "interceptor_main loggerErr (MustParseTimeouts process env) (MustParseServing process env) inCluster newForConfig configMaps =
      Ret (Started p)"
    and "(pstep True)\<^sup>*\<^sup>* \<lparr>mem = ip_q p, reqs = {#}, todo = None\<rparr> s"
  shows "sint (Memory_Count h (mem s)) = int (inflight h s)"
proof -
  have p: "MustParseServing process env = Ret (ip_serving p)"
    "ip_q p = NewMemory (RequestQueueCooldown (ip_serving p)) (EnableRequestQueueCooldown (ip_serving p))"
    using assms(3) by (simp_all add: interceptor_main_iff)
  then have "ip_q p = NewMemory (RequestQueueCooldown (ip_serving p)) False" using cooldown_off [where env = env, OF assms(1,2)] by simp
  then have "preach True (RequestQueueCooldown (ip_serving p)) False s"
    using assms(4) by (simp add: preach_def pinit_def)
  from exact_off_reach [OF this] have ex: "exact_off s" .
  then have "inflight h s \<le> open_limit" using inflight_le [of h s] by (auto simp: exact_off_def)
  then have "inflight h s < 2 ^ 63" by (simp add: open_limit_def)
  then show ?thesis using ex sint_of_nat_64 by (simp add: exact_off_def)
qed

text \<open>The interceptor of the manifests, started on the ConfigMap of the manifests.\<close>

definition manifest_interceptor :: interceptor_proc where
  "manifest_interceptor = \<lparr>ip_timeouts = manifest_timeouts, ip_serving = manifest_serving, ip_q = NewMemory (20 * second) False,
     ip_table = NewTable\<rparr>"

lemma manifest_interceptor_starts:
  "interceptor_main None (MustParseTimeouts read_all (map_of interceptor_manifest)) (MustParseServing read_all (map_of interceptor_manifest))
     (Inr ()) Inr (\<lambda>kc ns name. Inr manifest_cm) = Ret (Started manifest_interceptor)"
proof -
  have "deployed m names (map_of m)" for m names by (simp add: deployed_def list_all_iff)
  from interceptor_manifest_parses [OF read_all_laws this]
  have "MustParseServing read_all (map_of interceptor_manifest) = Ret manifest_serving"
    "MustParseTimeouts read_all (map_of interceptor_manifest) = Ret manifest_timeouts" by simp_all
  moreover have "FetchTableFromConfigMap manifest_cm = Inr NewTable"
    "sint (DeploymentCachePollIntervalMS manifest_serving * millisecond) \<le> sint (DeploymentReplicas manifest_timeouts)"
    by code_simp+
  ultimately show ?thesis
    unfolding interceptor_main_iff by (simp add: manifest_interceptor_def manifest_serving_def)
qed

theorem default_interceptor_counts_witness:
  "\<exists>p s. interceptor_main None (MustParseTimeouts read_all (map_of interceptor_manifest))
      (MustParseServing read_all (map_of interceptor_manifest)) (Inr ()) Inr (\<lambda>kc ns name. Inr manifest_cm) = Ret (Started p) \<and>
     (pstep True)\<^sup>*\<^sup>* \<lparr>mem = ip_q p, reqs = {#}, todo = None\<rparr> s \<and> sint (Memory_Count ''a'' (mem s)) = 1"
proof -
  let ?start = "\<lparr>mem = ip_q manifest_interceptor, reqs = {#}, todo = None\<rparr>"
  let ?after = "?start\<lparr>mem := fst (Memory_Resize ''a'' 1 (mem ?start)), reqs := add_mset (''a'', InHandler) (reqs ?start)\<rparr>"
  have "pstep True ?start ?after" by (rule pstep.arrive) (simp add: open_limit_def)
  then have run: "(pstep True)\<^sup>*\<^sup>* ?start ?after" by blast
  have "map_of interceptor_manifest ''KEDA_HTTP_ENABLE_REQUEST_QUEUE_COOLDOWN'' = None" by code_simp
  from default_interceptor_counts [where env = "map_of interceptor_manifest", OF read_all_laws this manifest_interceptor_starts run,
      of "''a''"]
  have "sint (Memory_Count ''a'' (mem ?after)) = 1" by (simp add: inflight_def)
  with run manifest_interceptor_starts show ?thesis by blast
qed

text \<open>
  A variable that is required and missing stops the interceptor with a panic, before it has
  contacted the cluster.
\<close>

theorem interceptor_needs_variables:
  assumes "envconfig_laws dec process"
    and "name \<in> {''KEDA_HTTP_CURRENT_NAMESPACE'', ''KEDA_HTTP_PROXY_PORT'', ''KEDA_HTTP_ADMIN_PORT''}" "env name = None"
  shows "\<exists>msg. interceptor_main None (MustParseTimeouts process env) (MustParseServing process env) inCluster newForConfig configMaps =
    Panic msg"
proof -
  have "required ''KEDA_HTTP_CURRENT_NAMESPACE'' KString \<in> set Serving_fields"
    "required ''KEDA_HTTP_PROXY_PORT'' (KInt 64) \<in> set Serving_fields" "required ''KEDA_HTTP_ADMIN_PORT'' (KInt 64) \<in> set Serving_fields"
    by (simp_all add: Serving_fields_def)
  with assms(2) obtain kd where "required name kd \<in> set Serving_fields" by blast
  moreover have "env_lookup env [] (required name kd) = None" using assms(3) by (simp add: env_lookup_def required_def)
  ultimately obtain err where "process env [] Serving_fields = Inl err"
    using process_missing [OF assms(1)] by (fastforce simp: required_def)
  then have "MustParseServing process env = Panic (error_text err)" by (simp add: MustParseServing_def MustProcess_def)
  then show ?thesis by (cases "MustParseTimeouts process env") (simp_all add: interceptor_main_def)
qed

end
