(* ===== verification/Manager.thy ===== *)
theory Manager
  imports Settings "HOL-Library.Char_ord"
begin

text \<open>
  The command line of the operator and the options of its controller manager, in front of the
  start-up of Process: \<open>operator/main.go\<close> from \<open>flag.StringVar\<close> on, and \<open>SetupWithManager\<close>. What the
  libraries register and build is a parameter.
\<close>

section \<open>The flag package\<close>

text \<open>
  \<open>strconv.ParseBool\<close>, and \<open>strconv.ParseInt(s, 0, 64)\<close>: a prefix chooses the base, and underscores may
  separate digits.
\<close>

definition ParseBool :: "string \<Rightarrow> bool option" where
  "ParseBool s =
     (if s \<in> {''1'', ''t'', ''T'', ''TRUE'', ''true'', ''True''} then Some True
      else if s \<in> {''0'', ''f'', ''F'', ''FALSE'', ''false'', ''False''} then Some False
      else None)"

definition lower :: "char \<Rightarrow> char" where
  "lower c = (if 65 \<le> (of_char c :: nat) \<and> (of_char c :: nat) \<le> 90 then char_of (of_char c + 32 :: nat) else c)"

definition letter_digit :: "char \<Rightarrow> nat option" where
  "letter_digit c =
     (let n = (of_char c :: nat); l = (of_char (lower c) :: nat) in
      if 48 \<le> n \<and> n \<le> 57 then Some (n - 48) else if 97 \<le> l \<and> l \<le> 122 then Some (l - 87) else None)"

fun base_digits :: "nat \<Rightarrow> nat \<Rightarrow> string \<Rightarrow> nat option" where
  "base_digits base acc [] = Some acc"
| "base_digits base acc (c # cs) =
     (if c = CHR ''_'' then base_digits base acc cs
      else
        (case letter_digit c of
           None \<Rightarrow> None
         | Some d \<Rightarrow> if base \<le> d then None else base_digits base (base * acc + d) cs))"

fun split_base :: "string \<Rightarrow> nat \<times> string" where
  "split_base (a # b # c # cs) =
     (if a \<noteq> CHR ''0'' then (10, a # b # c # cs)
      else if lower b = CHR ''b'' then (2, c # cs)
      else if lower b = CHR ''o'' then (8, c # cs)
      else if lower b = CHR ''x'' then (16, c # cs)
      else (8, b # c # cs))"
| "split_base (a # cs) = (if a = CHR ''0'' then (8, cs) else (10, a # cs))"
| "split_base [] = (10, [])"

text \<open>An underscore has to stand between digits, where a base prefix counts as one.\<close>

datatype seen = SeenDigit | SeenUnderscore | SeenOther

fun underscores_ok :: "bool \<Rightarrow> seen \<Rightarrow> string \<Rightarrow> bool" where
  "underscores_ok hex i [] = (i \<noteq> SeenUnderscore)"
| "underscores_ok hex i (c # cs) =
     (if is_digit c \<or> hex \<and> CHR ''a'' \<le> lower c \<and> lower c \<le> CHR ''f'' then underscores_ok hex SeenDigit cs
      else if c = CHR ''_'' then i = SeenDigit \<and> underscores_ok hex SeenUnderscore cs
      else i \<noteq> SeenUnderscore \<and> underscores_ok hex SeenOther cs)"

fun underscoreOK :: "string \<Rightarrow> bool" where
  "underscoreOK (a # b # cs) =
     (if a = CHR ''0'' \<and> lower b \<in> {CHR ''b'', CHR ''o'', CHR ''x''} then underscores_ok (lower b = CHR ''x'') SeenDigit cs
      else underscores_ok False SeenOther (a # b # cs))"
| "underscoreOK s = underscores_ok False SeenOther s"

definition ParseInt0 :: "string \<Rightarrow> int option" where
  "ParseInt0 s =
     (let neg = (s \<noteq> [] \<and> hd s = CHR ''-'');
          u = (if s \<noteq> [] \<and> hd s \<in> {CHR ''-'', CHR ''+''} then tl s else s) in
      if u = [] then None
      else
        (case split_base u of (base, ds) \<Rightarrow>
          (case base_digits base 0 ds of
             None \<Rightarrow> None
           | Some n \<Rightarrow>
               if CHR ''_'' \<in> set ds \<and> \<not> underscoreOK u then None
               else if neg then (if int n \<le> 2 ^ 63 then Some (- int n) else None)
               else if int n < 2 ^ 63 then Some (int n) else None)))"

section \<open>The flags of the operator\<close>

record operator_flags =
  metricsAddr :: string
  probeAddr :: string
  enableLeaderElection :: bool
  adminPort_flag :: gint

definition default_flags :: operator_flags where
  "default_flags = \<lparr>metricsAddr = '':8080'', probeAddr = '':8081'', enableLeaderElection = False, adminPort_flag = 9090\<rparr>"

text \<open>
  The flags that are defined: whether one is boolean, and how it is set. Flags that the libraries
  define on the same command line are the parameter \<open>lib\<close>.
\<close>

type_synonym flag_lib = "string \<Rightarrow> (bool \<times> (string \<Rightarrow> bool)) option"

definition flag_known :: "flag_lib \<Rightarrow> string \<Rightarrow> bool option" where
  "flag_known lib name =
     (if name \<in> {''metrics-bind-address'', ''health-probe-bind-address'', ''admin-port''} then Some False
      else if name = ''leader-elect'' then Some True
      else (case lib name of None \<Rightarrow> None | Some (b, _) \<Rightarrow> Some b))"

definition flag_Set :: "flag_lib \<Rightarrow> string \<Rightarrow> string \<Rightarrow> operator_flags \<Rightarrow> operator_flags option" where
  "flag_Set lib name v fl =
     (if name = ''metrics-bind-address'' then Some (fl\<lparr>metricsAddr := v\<rparr>)
      else if name = ''health-probe-bind-address'' then Some (fl\<lparr>probeAddr := v\<rparr>)
      else if name = ''leader-elect'' then (case ParseBool v of None \<Rightarrow> None | Some b \<Rightarrow> Some (fl\<lparr>enableLeaderElection := b\<rparr>))
      else if name = ''admin-port'' then (case ParseInt0 v of None \<Rightarrow> None | Some i \<Rightarrow> Some (fl\<lparr>adminPort_flag := of_int i\<rparr>))
      else (case lib name of None \<Rightarrow> None | Some (_, ok) \<Rightarrow> if ok v then Some fl else None))"

text \<open>
  \<open>flag.Parse\<close> with \<open>ExitOnError\<close>: the flags, or the code of the exit, 0 after \<open>-h\<close> and 2 after an
  error. A flag has one or two dashes and its value after an equals sign, or, if it is not boolean,
  in the next argument; the first other argument ends the flags.
\<close>

datatype flag_token = NoFlag | Terminator | BadSyntax | Flag string "string option"

fun split_flag :: "string \<Rightarrow> string \<times> string option" where
  "split_flag [] = ([], None)"
| "split_flag (c # cs) =
     (if c = CHR ''='' then ([], Some cs) else (case split_flag cs of (n, v) \<Rightarrow> (c # n, v)))"

definition flag_token :: "string \<Rightarrow> flag_token" where
  "flag_token s =
     (if length s < 2 \<or> hd s \<noteq> CHR ''-'' then NoFlag
      else if s = ''--'' then Terminator
      else
        (let name = (if s ! 1 = CHR ''-'' then drop 2 s else drop 1 s) in
         if name = [] \<or> hd name \<in> {CHR ''-'', CHR ''=''} then BadSyntax
         else (case split_flag name of (n, v) \<Rightarrow> Flag n v)))"

function flag_Parse :: "flag_lib \<Rightarrow> string list \<Rightarrow> operator_flags \<Rightarrow> int + operator_flags" where
  "flag_Parse lib [] fl = Inr fl"
| "flag_Parse lib (a # args) fl =
     (case flag_token a of
        NoFlag \<Rightarrow> Inr fl
      | Terminator \<Rightarrow> Inr fl
      | BadSyntax \<Rightarrow> Inl 2
      | Flag name v \<Rightarrow>
          (case flag_known lib name of
             None \<Rightarrow> if name = ''help'' \<or> name = ''h'' then Inl 0 else Inl 2
           | Some True \<Rightarrow>
               (case flag_Set lib name (case v of None \<Rightarrow> ''true'' | Some x \<Rightarrow> x) fl of
                  None \<Rightarrow> Inl 2 | Some fl' \<Rightarrow> flag_Parse lib args fl')
           | Some False \<Rightarrow>
               (case v of
                  Some x \<Rightarrow> (case flag_Set lib name x fl of None \<Rightarrow> Inl 2 | Some fl' \<Rightarrow> flag_Parse lib args fl')
                | None \<Rightarrow>
                    (case args of
                       [] \<Rightarrow> Inl 2
                     | x # args' \<Rightarrow> (case flag_Set lib name x fl of None \<Rightarrow> Inl 2 | Some fl' \<Rightarrow> flag_Parse lib args' fl')))))"
  by pat_completeness auto

termination flag_Parse
  by (relation "measure (\<lambda>(lib, args, fl). length args)") auto

declare flag_Parse.simps [simp del]

section \<open>The manager\<close>

record ManagerOptions =
  mo_MetricsBindAddress :: string
  mo_Port :: gint
  mo_HealthProbeBindAddress :: string
  mo_LeaderElection :: bool
  mo_LeaderElectionID :: string
  mo_Namespace :: string
  mo_ClientDisableCacheFor :: "string list"

definition manager_options :: "operator_flags \<Rightarrow> BaseCfg \<Rightarrow> ManagerOptions" where
  "manager_options fl baseConfig =
     \<lparr>mo_MetricsBindAddress = metricsAddr fl, mo_Port = 9443, mo_HealthProbeBindAddress = probeAddr fl,
      mo_LeaderElection = enableLeaderElection fl, mo_LeaderElectionID = ''f8508ff1.keda.sh'',
      mo_Namespace = base_WatchNamespace baseConfig, mo_ClientDisableCacheFor = [''ConfigMap'']\<rparr>"

text \<open>What the controller is built from: the kind it is for, and the predicates on its events.\<close>

record controller_spec =
  cs_For :: string
  cs_Predicates :: "string list"

definition SetupWithManager :: "(controller_spec \<Rightarrow> HTTPScaledObjectReconciler \<Rightarrow> error option) \<Rightarrow> HTTPScaledObjectReconciler \<Rightarrow> error option" where
  "SetupWithManager complete r =
     complete \<lparr>cs_For = ''HTTPScaledObject'', cs_Predicates = [''GenerationChangedPredicate'']\<rparr> r"

section \<open>The operator from its command line\<close>

text \<open>
  \<open>main\<close> as a whole: the flags, the three configurations, the manager with its options and the
  controller, and then the start-up of \<open>operator_main\<close>. \<open>newManager\<close> and \<open>complete\<close> are the libraries'
  constructors, with the errors they return.
\<close>

definition operator_run ::
    "flag_lib \<Rightarrow> string list \<Rightarrow> environ \<Rightarrow> envconfig \<Rightarrow> (ManagerOptions \<Rightarrow> error option) \<Rightarrow>
     (controller_spec \<Rightarrow> HTTPScaledObjectReconciler \<Rightarrow> error option) \<Rightarrow> error option \<Rightarrow> error option \<Rightarrow>
     (error + (string \<Rightarrow> string \<Rightarrow> error + ConfigMap)) \<Rightarrow> (operator_proc \<times> gint) started" where
  "operator_run lib args env process newManager complete healthzErr readyzErr newClientset =
     (case flag_Parse lib args default_flags of
        Inl code \<Rightarrow> Exit code ''flag''
      | Inr fl \<Rightarrow>
          (let base = NewBaseFromEnv process env;
               managerErr = (case base of Inl _ \<Rightarrow> None | Inr b \<Rightarrow> newManager (manager_options fl b));
               setupErr = (case (NewExternalScalerFromEnv (Getenv env), base) of
                  (Inr e, Inr b) \<Rightarrow> SetupWithManager complete \<lparr>rc_ExternalScalerConfig = e, rc_BaseConfig = b\<rparr>
                | _ \<Rightarrow> None) in
           case operator_main (Getenv env) base managerErr setupErr healthzErr readyzErr newClientset of
             Exit code msg \<Rightarrow> Exit code msg
           | Started p \<Rightarrow> Started (p, adminPort_flag fl)))"

definition operator_args :: "string list" where
  "operator_args = [''--leader-elect'', ''--admin-port=9090'']"

lemma operator_args_parse:
  "flag_Parse lib operator_args default_flags = Inr (default_flags\<lparr>enableLeaderElection := True\<rparr>)"
proof -
  have tokens: "flag_token ''--leader-elect'' = Flag ''leader-elect'' None"
    "flag_token ''--admin-port=9090'' = Flag ''admin-port'' (Some ''9090'')" by code_simp+
  have "ParseInt0 ''9090'' = Some 9090" "ParseBool ''true'' = Some True" by code_simp+
  then have "flag_Set lib ''leader-elect'' ''true'' fl = Some (fl\<lparr>enableLeaderElection := True\<rparr>)"
    "flag_Set lib ''admin-port'' ''9090'' fl = Some (fl\<lparr>adminPort_flag := 9090\<rparr>)" for fl
    by (simp_all add: flag_Set_def)
  moreover have "flag_known lib ''leader-elect'' = Some True" "flag_known lib ''admin-port'' = Some False"
    by (simp_all add: flag_known_def)
  ultimately show ?thesis
    by (simp add: operator_args_def flag_Parse.simps tokens default_flags_def)
qed

text \<open>
  C23: The operator of the manifests starts. With the arguments and the environment of the manifests, if
  the libraries build the manager and the controller and the ConfigMap of the manifests is there, the
  operator runs: it elects a leader, watches \<open>HTTPScaledObject\<close>s of all namespaces, reads ConfigMaps
  without a cache, starts with an empty table, and serves its admin routes on the port of the
  manifest.
\<close>

theorem operator_manifest_starts:
  assumes "envconfig_laws dec process" "deployed operator_manifest operator_names env"
    and "\<And>opts. mo_LeaderElection opts \<Longrightarrow> mo_Namespace opts = [] \<Longrightarrow> mo_ClientDisableCacheFor opts = [''ConfigMap''] \<Longrightarrow>
      newManager opts = None"
    and "\<And>spec r. cs_For spec = ''HTTPScaledObject'' \<Longrightarrow> complete spec r = None"
    and "get ''keda'' (cm_Name manifest_cm) = Inr cm"
  shows "\<exists>p. operator_run lib operator_args env process newManager complete None None (Inr get) = Started (p, 9090) \<and>
    op_table p = NewTable \<and> base_CurrentNamespace (rc_BaseConfig (op_reconciler p)) = cm_Namespace manifest_cm \<and>
    ExternalScaler_HostName (rc_ExternalScalerConfig (op_reconciler p)) ''keda'' =
      fst scaler_service @ ''.keda:'' @ show_int (snd scaler_service)"
proof -
  note cfg = operator_manifest_parses [OF assms(1,2)]
  have name: "cm_Name manifest_cm = ConfigMapRoutingTableName" by code_simp
  have mgr: "newManager (manager_options (default_flags\<lparr>enableLeaderElection := True\<rparr>) manifest_base) = None"
    by (rule assms(3)) (simp_all add: manager_options_def manifest_base_def)
  have ctl: "SetupWithManager complete r = None" for r
    unfolding SetupWithManager_def by (rule assms(4)) simp
  have port: "adminPort_flag default_flags = 9090" by (simp add: default_flags_def)
  have base: "base_CurrentNamespace manifest_base = ''keda''" by (simp add: manifest_base_def)
  show ?thesis
    unfolding operator_run_def operator_args_parse
    using cfg mgr ctl assms(5) [unfolded name]
    by (simp add: operator_main_def ensureConfigMap_def port base ExternalScaler_HostName_def scaler_service_def
        namePrefix_def fmt_d32_def manifest_cm_def)
qed

theorem operator_manifest_starts_witness:
  "\<exists>p. operator_run (\<lambda>_. None) operator_args (map_of operator_manifest) read_all (\<lambda>_. None) (\<lambda>_ _. None) None None
      (Inr (\<lambda>_ _. Inr manifest_cm)) = Started (p, 9090) \<and> op_table p = NewTable"
proof -
  have "deployed m names (map_of m)" for m names by (simp add: deployed_def list_all_iff)
  from operator_manifest_starts [where lib = "\<lambda>_. None" and newManager = "\<lambda>_. None" and complete = "\<lambda>_ _. None" and
      get = "\<lambda>_ _. Inr manifest_cm", OF read_all_laws this refl refl refl] show ?thesis by blast
qed

end
