(* ===== verification/DeepCopy.thy ===== *)
theory DeepCopy
  imports Operator
begin

text \<open>
  The generated deep copies of \<open>operator/apis/http/v1alpha1/zz_generated.deepcopy.go\<close>. What a deep
  copy is for is what the two objects share, so the objects are modelled with their pointers: an
  explicit heap of cells, pointers and slices as addresses, and \<open>new\<close> as allocation. \<open>view_spec\<close>
  reads the value behind the pointers. The copy of the metadata is code of apimachinery and a
  parameter.
\<close>

section \<open>Objects with pointers\<close>

type_synonym addr = nat

record pSpec =
  ps_Host :: "addr option"
  ps_Hosts :: "addr option"                  \<comment> \<open>a slice, by its array\<close>
  ps_ScaleTargetRef :: "addr option"
  ps_Replicas :: "addr option"
  ps_TargetPendingRequests :: "addr option"
  ps_CooldownPeriod :: "addr option"

record 'm pObject =
  po_Meta :: 'm                              \<comment> \<open>\<open>TypeMeta\<close> and \<open>ObjectMeta\<close>\<close>
  po_Spec :: pSpec
  po_Conditions :: "addr option"             \<comment> \<open>\<open>Status.Conditions\<close>, a slice of plain structs\<close>

record 'm pList =
  pl_Meta :: 'm                              \<comment> \<open>\<open>TypeMeta\<close> and \<open>ListMeta\<close>\<close>
  pl_Items :: "addr option"

datatype 'm cell =
    CInt i32
  | CStr string
  | CStrs "string list"
  | CRef ScaleTargetRef
  | CRep "addr option" "addr option"
  | CCond HTTPScaledObjectCondition
  | CConds "HTTPScaledObjectCondition list"
  | CSpec pSpec
  | CObj "'m pObject"
  | CObjs "'m pObject list"
  | CStatus "addr option"
  | CList "'m pList"

type_synonym 'm heap = "'m cell list"

definition new_cell :: "'m cell \<Rightarrow> 'm heap \<Rightarrow> addr \<times> 'm heap" where
  "new_cell c h = (length h, h @ [c])"

text \<open>\<open>*out = new(T); **out = **in\<close> under the test that the pointer is not nil.\<close>

definition copy_ptr :: "addr option \<Rightarrow> 'm heap \<Rightarrow> addr option \<times> 'm heap" where
  "copy_ptr p h =
     (case p of None \<Rightarrow> (None, h) | Some a \<Rightarrow> (case new_cell (h ! a) h of (a', h') \<Rightarrow> (Some a', h')))"

section \<open>The copies\<close>

definition ScaleTargetRef_DeepCopy :: "addr option \<Rightarrow> 'm heap \<Rightarrow> addr option \<times> 'm heap" where
  "ScaleTargetRef_DeepCopy p h = copy_ptr p h"

definition ReplicaStruct_DeepCopyInto :: "'m cell \<Rightarrow> 'm heap \<Rightarrow> 'm cell \<times> 'm heap" where
  "ReplicaStruct_DeepCopyInto c h =
     (case c of
        CRep mn mx \<Rightarrow>
          (let (mn', h1) = copy_ptr mn h; (mx', h2) = copy_ptr mx h1 in (CRep mn' mx', h2))
      | _ \<Rightarrow> (c, h))"

definition ReplicaStruct_DeepCopy :: "addr option \<Rightarrow> 'm heap \<Rightarrow> addr option \<times> 'm heap" where
  "ReplicaStruct_DeepCopy p h =
     (case p of
        None \<Rightarrow> (None, h)
      | Some a \<Rightarrow>
          (let (c, h1) = ReplicaStruct_DeepCopyInto (h ! a) h; (a', h2) = new_cell c h1 in (Some a', h2)))"

definition HTTPScaledObjectSpec_DeepCopyInto :: "pSpec \<Rightarrow> 'm heap \<Rightarrow> pSpec \<times> 'm heap" where
  "HTTPScaledObjectSpec_DeepCopyInto s h =
     (let (ref, h1) = copy_ptr (ps_ScaleTargetRef s) h;
          (rep, h2) = ReplicaStruct_DeepCopy (ps_Replicas s) h1;
          (tpr, h3) = copy_ptr (ps_TargetPendingRequests s) h2;
          (cd, h4) = copy_ptr (ps_CooldownPeriod s) h3 in
      (s\<lparr>ps_ScaleTargetRef := ref, ps_Replicas := rep, ps_TargetPendingRequests := tpr, ps_CooldownPeriod := cd\<rparr>, h4))"

definition HTTPScaledObjectSpec_DeepCopy :: "addr option \<Rightarrow> 'm heap \<Rightarrow> addr option \<times> 'm heap" where
  "HTTPScaledObjectSpec_DeepCopy p h =
     (case p of
        None \<Rightarrow> (None, h)
      | Some a \<Rightarrow>
          (case h ! a of
             CSpec s \<Rightarrow>
               (let (s', h1) = HTTPScaledObjectSpec_DeepCopyInto s h; (a', h2) = new_cell (CSpec s') h1 in (Some a', h2))
           | _ \<Rightarrow> (p, h)))"

definition HTTPScaledObjectCondition_DeepCopy :: "addr option \<Rightarrow> 'm heap \<Rightarrow> addr option \<times> 'm heap" where
  "HTTPScaledObjectCondition_DeepCopy p h = copy_ptr p h"

definition HTTPScaledObjectStatus_DeepCopyInto :: "addr option \<Rightarrow> 'm heap \<Rightarrow> addr option \<times> 'm heap" where
  "HTTPScaledObjectStatus_DeepCopyInto conds h = copy_ptr conds h"

definition HTTPScaledObjectStatus_DeepCopy :: "addr option \<Rightarrow> 'm heap \<Rightarrow> addr option \<times> 'm heap" where
  "HTTPScaledObjectStatus_DeepCopy p h =
     (case p of
        None \<Rightarrow> (None, h)
      | Some a \<Rightarrow>
          (case h ! a of
             CStatus conds \<Rightarrow>
               (let (conds', h1) = HTTPScaledObjectStatus_DeepCopyInto conds h; (a', h2) = new_cell (CStatus conds') h1 in
                (Some a', h2))
           | _ \<Rightarrow> (p, h)))"

definition HTTPScaledObject_DeepCopyInto ::
    "('m \<Rightarrow> 'm heap \<Rightarrow> 'm \<times> 'm heap) \<Rightarrow> 'm pObject \<Rightarrow> 'm heap \<Rightarrow> 'm pObject \<times> 'm heap" where
  "HTTPScaledObject_DeepCopyInto copyMeta x h =
     (let (meta, h1) = copyMeta (po_Meta x) h;
          (spec, h2) = HTTPScaledObjectSpec_DeepCopyInto (po_Spec x) h1;
          (conds, h3) = HTTPScaledObjectStatus_DeepCopyInto (po_Conditions x) h2 in
      (\<lparr>po_Meta = meta, po_Spec = spec, po_Conditions = conds\<rparr>, h3))"

definition HTTPScaledObject_DeepCopy ::
    "('m \<Rightarrow> 'm heap \<Rightarrow> 'm \<times> 'm heap) \<Rightarrow> addr option \<Rightarrow> 'm heap \<Rightarrow> addr option \<times> 'm heap" where
  "HTTPScaledObject_DeepCopy copyMeta p h =
     (case p of
        None \<Rightarrow> (None, h)
      | Some a \<Rightarrow>
          (case h ! a of
             CObj x \<Rightarrow>
               (let (x', h1) = HTTPScaledObject_DeepCopyInto copyMeta x h; (a', h2) = new_cell (CObj x') h1 in (Some a', h2))
           | _ \<Rightarrow> (p, h)))"

definition HTTPScaledObject_DeepCopyObject ::
    "('m \<Rightarrow> 'm heap \<Rightarrow> 'm \<times> 'm heap) \<Rightarrow> addr option \<Rightarrow> 'm heap \<Rightarrow> addr option \<times> 'm heap" where
  "HTTPScaledObject_DeepCopyObject copyMeta p h =
     (case HTTPScaledObject_DeepCopy copyMeta p h of (Some c, h') \<Rightarrow> (Some c, h') | (None, h') \<Rightarrow> (None, h'))"

fun copy_items ::
    "('m \<Rightarrow> 'm heap \<Rightarrow> 'm \<times> 'm heap) \<Rightarrow> 'm pObject list \<Rightarrow> 'm heap \<Rightarrow> 'm pObject list \<times> 'm heap" where
  "copy_items copyMeta [] h = ([], h)"
| "copy_items copyMeta (x # xs) h =
     (let (x', h1) = HTTPScaledObject_DeepCopyInto copyMeta x h; (xs', h2) = copy_items copyMeta xs h1 in (x' # xs', h2))"

definition copy_item_slice ::
    "('m \<Rightarrow> 'm heap \<Rightarrow> 'm \<times> 'm heap) \<Rightarrow> addr option \<Rightarrow> 'm heap \<Rightarrow> addr option \<times> 'm heap" where
  "copy_item_slice copyMeta items h =
     (case items of
        None \<Rightarrow> (None, h)
      | Some a \<Rightarrow>
          (case h ! a of
             CObjs xs \<Rightarrow> (let (xs', h1) = copy_items copyMeta xs h; (a', h2) = new_cell (CObjs xs') h1 in (Some a', h2))
           | _ \<Rightarrow> (items, h)))"

definition HTTPScaledObjectList_DeepCopyInto ::
    "('m \<Rightarrow> 'm heap \<Rightarrow> 'm \<times> 'm heap) \<Rightarrow> ('m \<Rightarrow> 'm heap \<Rightarrow> 'm \<times> 'm heap) \<Rightarrow> 'm pList \<Rightarrow> 'm heap \<Rightarrow> 'm pList \<times> 'm heap" where
  "HTTPScaledObjectList_DeepCopyInto copyListMeta copyMeta l h =
     (let (meta, h1) = copyListMeta (pl_Meta l) h;
          (items, h2) = copy_item_slice copyMeta (pl_Items l) h1 in
      (\<lparr>pl_Meta = meta, pl_Items = items\<rparr>, h2))"

definition HTTPScaledObjectList_DeepCopy ::
    "('m \<Rightarrow> 'm heap \<Rightarrow> 'm \<times> 'm heap) \<Rightarrow> ('m \<Rightarrow> 'm heap \<Rightarrow> 'm \<times> 'm heap) \<Rightarrow> addr option \<Rightarrow> 'm heap \<Rightarrow> addr option \<times> 'm heap" where
  "HTTPScaledObjectList_DeepCopy copyListMeta copyMeta p h =
     (case p of
        None \<Rightarrow> (None, h)
      | Some a \<Rightarrow>
          (case h ! a of
             CList l \<Rightarrow>
               (let (l', h1) = HTTPScaledObjectList_DeepCopyInto copyListMeta copyMeta l h; (a', h2) = new_cell (CList l') h1 in
                (Some a', h2))
           | _ \<Rightarrow> (p, h)))"

definition HTTPScaledObjectList_DeepCopyObject ::
    "('m \<Rightarrow> 'm heap \<Rightarrow> 'm \<times> 'm heap) \<Rightarrow> ('m \<Rightarrow> 'm heap \<Rightarrow> 'm \<times> 'm heap) \<Rightarrow> addr option \<Rightarrow> 'm heap \<Rightarrow> addr option \<times> 'm heap" where
  "HTTPScaledObjectList_DeepCopyObject copyListMeta copyMeta p h =
     (case HTTPScaledObjectList_DeepCopy copyListMeta copyMeta p h of (Some c, h') \<Rightarrow> (Some c, h') | (None, h') \<Rightarrow> (None, h'))"

section \<open>Reading through pointers\<close>

definition view_int :: "'m heap \<Rightarrow> addr option \<Rightarrow> i32 option" where
  "view_int h p = (case p of None \<Rightarrow> None | Some a \<Rightarrow> (case h ! a of CInt n \<Rightarrow> Some n | _ \<Rightarrow> None))"

definition view_str :: "'m heap \<Rightarrow> addr option \<Rightarrow> string option" where
  "view_str h p = (case p of None \<Rightarrow> None | Some a \<Rightarrow> (case h ! a of CStr s \<Rightarrow> Some s | _ \<Rightarrow> None))"

definition view_strs :: "'m heap \<Rightarrow> addr option \<Rightarrow> string list option" where
  "view_strs h p = (case p of None \<Rightarrow> None | Some a \<Rightarrow> (case h ! a of CStrs s \<Rightarrow> Some s | _ \<Rightarrow> None))"

definition view_ref :: "'m heap \<Rightarrow> addr option \<Rightarrow> ScaleTargetRef option" where
  "view_ref h p = (case p of None \<Rightarrow> None | Some a \<Rightarrow> (case h ! a of CRef r \<Rightarrow> Some r | _ \<Rightarrow> None))"

definition view_rep :: "'m heap \<Rightarrow> addr option \<Rightarrow> ReplicaStruct option" where
  "view_rep h p =
     (case p of None \<Rightarrow> None
      | Some a \<Rightarrow> (case h ! a of CRep mn mx \<Rightarrow> Some \<lparr>Min = view_int h mn, Max = view_int h mx\<rparr> | _ \<Rightarrow> None))"

definition view_spec :: "'m heap \<Rightarrow> pSpec \<Rightarrow> HTTPScaledObjectSpec" where
  "view_spec h s =
     \<lparr>spec_Host = view_str h (ps_Host s), spec_Hosts = view_strs h (ps_Hosts s),
      spec_ScaleTargetRef = view_ref h (ps_ScaleTargetRef s), spec_Replicas = view_rep h (ps_Replicas s),
      spec_TargetPendingRequests = view_int h (ps_TargetPendingRequests s),
      spec_CooldownPeriod = view_int h (ps_CooldownPeriod s)\<rparr>"

text \<open>The addresses a specification leads to, and that they are allocated.\<close>

definition rep_addrs :: "'m heap \<Rightarrow> addr option \<Rightarrow> addr set" where
  "rep_addrs h p =
     (case p of None \<Rightarrow> {}
      | Some a \<Rightarrow> insert a (case h ! a of CRep mn mx \<Rightarrow> set_option mn \<union> set_option mx | _ \<Rightarrow> {}))"

definition own_addrs :: "'m heap \<Rightarrow> pSpec \<Rightarrow> addr set" where
  "own_addrs h s = set_option (ps_ScaleTargetRef s) \<union> rep_addrs h (ps_Replicas s) \<union>
     set_option (ps_TargetPendingRequests s) \<union> set_option (ps_CooldownPeriod s)"

definition host_addrs :: "pSpec \<Rightarrow> addr set" where
  "host_addrs s = set_option (ps_Host s) \<union> set_option (ps_Hosts s)"

definition allocated :: "'m heap \<Rightarrow> pSpec \<Rightarrow> bool" where
  "allocated h s \<longleftrightarrow> own_addrs h s \<union> host_addrs s \<subseteq> {..<length h}"


section \<open>Frames\<close>

lemma prefix_nth: "prefix h h' \<Longrightarrow> a < length h \<Longrightarrow> h' ! a = h ! a"
  by (auto simp: prefix_def nth_append)

lemma view_frame:
  assumes "prefix h h'" "set_option p \<subseteq> {..<length h}"
  shows "view_int h' p = view_int h p" "view_str h' p = view_str h p" "view_strs h' p = view_strs h p"
    "view_ref h' p = view_ref h p"
  using assms by (auto simp: view_int_def view_str_def view_strs_def view_ref_def prefix_nth split: option.split)

lemma rep_addrs_frame:
  assumes "prefix h h'" "rep_addrs h p \<subseteq> {..<length h}"
  shows "rep_addrs h' p = rep_addrs h p" "view_rep h' p = view_rep h p"
  using assms by (auto simp: rep_addrs_def view_rep_def prefix_nth view_frame split: option.splits cell.splits)

text \<open>A pointer copied: both nil, or the copy is a new cell with the same content.\<close>

definition copied :: "'m heap \<Rightarrow> addr option \<Rightarrow> 'm heap \<Rightarrow> addr option \<Rightarrow> bool" where
  "copied h p h' p' \<longleftrightarrow>
     (case p of
        None \<Rightarrow> p' = None
      | Some a \<Rightarrow> (case p' of None \<Rightarrow> False | Some a' \<Rightarrow> length h \<le> a' \<and> a' < length h' \<and> h' ! a' = h ! a))"

lemma copy_ptr_copied:
  assumes "copy_ptr p h = (p', h')" "set_option p \<subseteq> {..<length h}"
  shows "prefix h h' \<and> copied h p h' p'"
  using assms by (auto simp: copy_ptr_def new_cell_def copied_def split: option.splits)

lemma copied_extend: "copied h p h' p' \<Longrightarrow> prefix h' h'' \<Longrightarrow> copied h p h'' p'"
  by (auto simp: copied_def prefix_nth prefix_length_le less_le_trans split: option.splits)

lemma copied_view:
  assumes "copied h p h' p'"
  shows "view_int h' p' = view_int h p" "view_ref h' p' = view_ref h p"
  using assms by (auto simp: copied_def view_int_def view_ref_def split: option.splits)

lemma copied_fresh: "copied h p h' p' \<Longrightarrow> set_option p' \<subseteq> {length h..<length h'}"
  by (auto simp: copied_def split: option.splits)

lemma ReplicaStruct_copied:
  assumes "ReplicaStruct_DeepCopy p h = (p', h')" "rep_addrs h p \<subseteq> {..<length h}"
  shows "prefix h h' \<and> view_rep h' p' = view_rep h p \<and> rep_addrs h' p' \<subseteq> {length h..<length h'}"
proof (cases p)
  case (Some a)
  show ?thesis
  proof (cases "\<exists>mn mx. h ! a = CRep mn mx")
    case True
    then obtain mn mx where c: "h ! a = CRep mn mx" by blast
    obtain mn' h1 where 1: "copy_ptr mn h = (mn', h1)" by fastforce
    obtain mx' h2 where 2: "copy_ptr mx h1 = (mx', h2)" by fastforce
    have in_h: "set_option mn \<subseteq> {..<length h}" "set_option mx \<subseteq> {..<length h}"
      using assms(2) Some c by (auto simp: rep_addrs_def)
    have p1: "prefix h h1" "copied h mn h1 mn'" using copy_ptr_copied [OF 1 in_h(1)] by auto
    have "set_option mx \<subseteq> {..<length h1}" using in_h(2) prefix_length_le [OF p1(1)] by (auto dest: less_le_trans)
    then have p2: "prefix h1 h2" "copied h1 mx h2 mx'" using copy_ptr_copied [OF 2] by auto
    have res: "p' = Some (length h2)" "h' = h2 @ [CRep mn' mx']"
      using assms(1) Some c 1 2 by (auto simp: ReplicaStruct_DeepCopy_def ReplicaStruct_DeepCopyInto_def new_cell_def)
    have mn: "copied h mn h' mn'" and mx: "copied h1 mx h' mx'"
      using p1 p2 res by (auto intro: copied_extend)
    have "view_int h' mn' = view_int h mn" "view_int h' mx' = view_int h mx"
      using copied_view(1) [OF mn] copied_view(1) [OF mx] view_frame(1) [OF p1(1) in_h(2)] by simp_all
    then have "view_rep h' p' = view_rep h p"
      using Some c res by (simp add: view_rep_def)
    moreover have "rep_addrs h' p' \<subseteq> {length h..<length h'}"
      using copied_fresh [OF mn] copied_fresh [OF mx] prefix_length_le [OF p1(1)] prefix_length_le [OF p2(1)] res
      by (auto simp: rep_addrs_def)
    moreover have "prefix h h'" using p1 p2 res by (auto intro: prefix_order.trans prefixI)
    ultimately show ?thesis by simp
  next
    case False
    then have "p' = Some (length h)" "h' = h @ [h ! a]"
      using assms(1) Some
      by (auto simp: ReplicaStruct_DeepCopy_def ReplicaStruct_DeepCopyInto_def new_cell_def split: cell.splits)
    with Some False show ?thesis
      by (auto simp: view_rep_def rep_addrs_def split: cell.splits)
  qed
qed (use assms in \<open>auto simp: ReplicaStruct_DeepCopy_def view_rep_def rep_addrs_def\<close>)


lemma spec_copy:
  assumes "HTTPScaledObjectSpec_DeepCopyInto s h = (s', h')" "allocated h s"
  shows "prefix h h' \<and> view_spec h' s' = view_spec h s \<and> own_addrs h' s' \<subseteq> {length h..<length h'} \<and>
    ps_Host s' = ps_Host s \<and> ps_Hosts s' = ps_Hosts s"
proof -
  obtain ref h1 where 1: "copy_ptr (ps_ScaleTargetRef s) h = (ref, h1)" by fastforce
  obtain rep h2 where 2: "ReplicaStruct_DeepCopy (ps_Replicas s) h1 = (rep, h2)" by fastforce
  obtain tpr h3 where 3: "copy_ptr (ps_TargetPendingRequests s) h2 = (tpr, h3)" by fastforce
  obtain cd h4 where 4: "copy_ptr (ps_CooldownPeriod s) h3 = (cd, h4)" by fastforce
  have res: "s' = s\<lparr>ps_ScaleTargetRef := ref, ps_Replicas := rep, ps_TargetPendingRequests := tpr, ps_CooldownPeriod := cd\<rparr>"
    "h' = h4"
    using assms(1) 1 2 3 4 by (auto simp: HTTPScaledObjectSpec_DeepCopyInto_def)
  have in_h: "set_option (ps_ScaleTargetRef s) \<subseteq> {..<length h}" "rep_addrs h (ps_Replicas s) \<subseteq> {..<length h}"
    "set_option (ps_TargetPendingRequests s) \<subseteq> {..<length h}" "set_option (ps_CooldownPeriod s) \<subseteq> {..<length h}"
    "set_option (ps_Host s) \<subseteq> {..<length h}" "set_option (ps_Hosts s) \<subseteq> {..<length h}"
    using assms(2) unfolding allocated_def own_addrs_def host_addrs_def by blast+
  have grow: "X \<subseteq> {..<length g} \<Longrightarrow> prefix g g' \<Longrightarrow> X \<subseteq> {..<length g'}" for X :: "nat set" and g g' :: "'a heap"
    using prefix_length_le [of g g'] by (auto dest: less_le_trans)
  have p1: "prefix h h1" "copied h (ps_ScaleTargetRef s) h1 ref" using copy_ptr_copied [OF 1 in_h(1)] by auto
  note r1 = rep_addrs_frame [OF p1(1) in_h(2)]
  have p2: "prefix h1 h2" "view_rep h2 rep = view_rep h (ps_Replicas s)" "rep_addrs h2 rep \<subseteq> {length h1..<length h2}"
    using ReplicaStruct_copied [OF 2] grow [OF in_h(2) p1(1)] by (auto simp: r1)
  have h2: "prefix h h2" using p1 p2 by (auto intro: prefix_order.trans)
  have p3: "prefix h2 h3" "copied h2 (ps_TargetPendingRequests s) h3 tpr"
    using copy_ptr_copied [OF 3 grow [OF in_h(3) h2]] by auto
  have h3: "prefix h h3" using h2 p3 by (auto intro: prefix_order.trans)
  have p4: "prefix h3 h4" "copied h3 (ps_CooldownPeriod s) h4 cd"
    using copy_ptr_copied [OF 4 grow [OF in_h(4) h3]] by auto
  have h4: "prefix h h4" "prefix h1 h4" "prefix h2 h4" using h3 p2 p3 p4 by (auto intro: prefix_order.trans)
  have rep: "rep_addrs h2 rep \<subseteq> {..<length h2}" using p2(3) by auto
  note r4 = rep_addrs_frame [OF h4(3) rep]
  have c: "copied h (ps_ScaleTargetRef s) h4 ref" "copied h2 (ps_TargetPendingRequests s) h4 tpr"
    using copied_extend [OF p1(2) h4(2)] copied_extend [OF p3(2) p4(1)] by auto
  have "view_spec h4 s' = view_spec h s"
    using view_frame [OF h4(1)] in_h copied_view [OF c(1)] copied_view [OF c(2)] copied_view [OF p4(2)] p2(2) r4
      view_frame(1) [OF h2 in_h(3)] view_frame(1) [OF h3 in_h(4)]
    by (simp add: view_spec_def res)
  moreover have "own_addrs h4 s' \<subseteq> {length h..<length h4}"
    using copied_fresh [OF c(1)] copied_fresh [OF c(2)] copied_fresh [OF p4(2)] p2(3) r4(1)
      prefix_length_le [OF p1(1)] prefix_length_le [OF p2(1)] prefix_length_le [OF p3(1)] prefix_length_le [OF p4(1)]
    by (fastforce simp: own_addrs_def res)
  ultimately show ?thesis using res h4(1) by simp
qed

text \<open>
  C35: The deep copy of a specification has the value of the original, and a write to any cell that
  the copy owns, its scale target, replicas with their bounds, target and cooldown, leaves the
  value of the original as it was.
\<close>

theorem DeepCopy_independent:
  assumes "HTTPScaledObjectSpec_DeepCopyInto s h = (s', h')" "allocated h s" "a \<in> own_addrs h' s'"
  shows "view_spec h' s' = view_spec h s \<and> view_spec (h'[a := c]) s = view_spec h s"
proof -
  note sc = spec_copy [OF assms(1,2)]
  then have "length h \<le> a" using assms(3) by auto
  then have pre: "prefix h (h'[a := c])" using sc by (auto simp: prefix_def list_update_append)
  have "set_option (ps_ScaleTargetRef s) \<subseteq> {..<length h}" "rep_addrs h (ps_Replicas s) \<subseteq> {..<length h}"
    "set_option (ps_TargetPendingRequests s) \<subseteq> {..<length h}" "set_option (ps_CooldownPeriod s) \<subseteq> {..<length h}"
    "set_option (ps_Host s) \<subseteq> {..<length h}" "set_option (ps_Hosts s) \<subseteq> {..<length h}"
    using assms(2) unfolding allocated_def own_addrs_def host_addrs_def by blast+
  then have "view_spec (h'[a := c]) s = view_spec h s"
    by (simp add: view_spec_def view_frame [OF pre] rep_addrs_frame [OF pre])
  with sc show ?thesis by simp
qed

definition sample_heap :: "unit heap" where
  "sample_heap = [CStrs [''a.com''], CRef \<lparr>ref_Deployment = ''d'', ref_Service = ''s'', ref_Port = 80\<rparr>, CInt 1,
     CRep (Some 2) None, CInt 100]"

definition sample_spec :: pSpec where
  "sample_spec = \<lparr>ps_Host = None, ps_Hosts = Some 0, ps_ScaleTargetRef = Some 1, ps_Replicas = Some 3,
     ps_TargetPendingRequests = Some 4, ps_CooldownPeriod = None\<rparr>"

lemma sample_allocated: "allocated sample_heap sample_spec"
  by (simp add: allocated_def own_addrs_def host_addrs_def rep_addrs_def sample_heap_def sample_spec_def)

theorem DeepCopy_independent_witness:
  "\<exists>s' h'. HTTPScaledObjectSpec_DeepCopyInto sample_spec sample_heap = (s', h') \<and>
     view_spec (h'[8 := CInt 7]) sample_spec = view_spec sample_heap sample_spec"
proof -
  obtain s' h' where c: "HTTPScaledObjectSpec_DeepCopyInto sample_spec sample_heap = (s', h')" by fastforce
  then have "ps_TargetPendingRequests s' = Some 8"
    by (simp add: HTTPScaledObjectSpec_DeepCopyInto_def ReplicaStruct_DeepCopy_def ReplicaStruct_DeepCopyInto_def
        copy_ptr_def new_cell_def sample_heap_def sample_spec_def)
      auto
  then have "8 \<in> own_addrs h' s'" by (simp add: own_addrs_def)
  from DeepCopy_independent [OF c sample_allocated this] c show ?thesis by blast
qed

text \<open>
  C36: The hosts are not copied: the copy of a specification has the same slice for \<open>hosts\<close> and the
  same pointer for \<open>host\<close>, so that writing a host through the copy changes the original.
\<close>

theorem DeepCopy_shares_hosts:
  assumes "HTTPScaledObjectSpec_DeepCopyInto s h = (s', h')" "allocated h s" "ps_Hosts s = Some a"
  shows "ps_Hosts s' = Some a \<and> ps_Host s' = ps_Host s \<and>
    spec_Hosts (view_spec (h'[a := CStrs hosts]) s) = Some hosts"
proof -
  have "a < length h" using assms(2,3) by (simp add: allocated_def host_addrs_def)
  moreover have "prefix h h'" using spec_copy [OF assms(1,2)] by simp
  ultimately have "a < length h'" using prefix_length_le less_le_trans by blast
  with spec_copy [OF assms(1,2)] assms(3) show ?thesis
    by (simp add: view_spec_def view_strs_def)
qed

theorem DeepCopy_shares_hosts_witness:
  "\<exists>s' h'. HTTPScaledObjectSpec_DeepCopyInto sample_spec sample_heap = (s', h') \<and> ps_Hosts s' = Some 0 \<and>
     spec_Hosts (view_spec (h'[0 := CStrs [''evil.com'']]) sample_spec) = Some [''evil.com'']"
proof -
  obtain s' h' where c: "HTTPScaledObjectSpec_DeepCopyInto sample_spec sample_heap = (s', h')" by fastforce
  from DeepCopy_shares_hosts [OF c sample_allocated, of 0] c show ?thesis
    by (auto simp: sample_spec_def)
qed


section \<open>Whole objects\<close>

text \<open>
  The copy of an object, for a copy of the metadata that only allocates: it is a new cell, whose
  specification has the value of the original's and whose conditions are a new slice.
\<close>

lemma allocated_frame: "allocated h s \<Longrightarrow> prefix h h' \<Longrightarrow> allocated h' s \<and> view_spec h' s = view_spec h s"
proof -
  assume "allocated h s" and pre: "prefix h h'"
  then have in_h: "set_option (ps_ScaleTargetRef s) \<subseteq> {..<length h}" "rep_addrs h (ps_Replicas s) \<subseteq> {..<length h}"
    "set_option (ps_TargetPendingRequests s) \<subseteq> {..<length h}" "set_option (ps_CooldownPeriod s) \<subseteq> {..<length h}"
    "set_option (ps_Host s) \<subseteq> {..<length h}" "set_option (ps_Hosts s) \<subseteq> {..<length h}"
    unfolding allocated_def own_addrs_def host_addrs_def by blast+
  moreover have "own_addrs h' s = own_addrs h s"
    using in_h by (simp add: own_addrs_def rep_addrs_frame [OF pre])
  ultimately show ?thesis
    using \<open>allocated h s\<close> prefix_length_le [OF pre]
    by (auto simp: view_spec_def view_frame [OF pre] rep_addrs_frame [OF pre] allocated_def)
qed

lemma object_copy:
  assumes meta: "\<And>m g. prefix g (snd (copyMeta m g))"
    and "h ! a = CObj x" "allocated h (po_Spec x)" "set_option (po_Conditions x) \<subseteq> {..<length h}"
    and c: "HTTPScaledObject_DeepCopy copyMeta (Some a) h = (p', h')"
  shows "\<exists>a' x'. p' = Some a' \<and> length h \<le> a' \<and> h' ! a' = CObj x' \<and>
    view_spec h' (po_Spec x') = view_spec h (po_Spec x) \<and> copied h (po_Conditions x) h' (po_Conditions x')"
proof -
  obtain m h1 where 1: "copyMeta (po_Meta x) h = (m, h1)" by fastforce
  obtain s h2 where 2: "HTTPScaledObjectSpec_DeepCopyInto (po_Spec x) h1 = (s, h2)" by fastforce
  obtain cs h3 where 3: "copy_ptr (po_Conditions x) h2 = (cs, h3)" by fastforce
  let ?x = "\<lparr>po_Meta = m, po_Spec = s, po_Conditions = cs\<rparr>"
  have res: "p' = Some (length h3)" "h' = h3 @ [CObj ?x]"
    using c assms(2) 1 2 3
    by (auto simp: HTTPScaledObject_DeepCopy_def HTTPScaledObject_DeepCopyInto_def HTTPScaledObjectStatus_DeepCopyInto_def
        new_cell_def)
  have p1: "prefix h h1" using meta [of h "po_Meta x"] 1 by simp
  note f1 = allocated_frame [OF assms(3) p1]
  have s2: "prefix h1 h2" "view_spec h2 s = view_spec h1 (po_Spec x)" "own_addrs h2 s \<subseteq> {length h1..<length h2}"
    "ps_Host s = ps_Host (po_Spec x)" "ps_Hosts s = ps_Hosts (po_Spec x)"
    using spec_copy [OF 2] f1 by auto
  have "allocated h2 s"
    using s2 f1 prefix_length_le [OF s2(1)] by (fastforce simp: allocated_def host_addrs_def)
  moreover have in2: "prefix h h2" using p1 s2 by (auto intro: prefix_order.trans)
  moreover have "prefix h2 h3 \<and> copied h2 (po_Conditions x) h3 cs"
    using assms(4) prefix_length_le [OF in2] by (intro copy_ptr_copied [OF 3]) auto
  ultimately have "view_spec h' s = view_spec h (po_Spec x)" "copied h2 (po_Conditions x) h' cs"
    using allocated_frame [of h2 s h'] s2 f1 res by (auto intro: copied_extend prefix_order.trans)
  moreover have "copied h (po_Conditions x) h' cs"
    using \<open>copied h2 (po_Conditions x) h' cs\<close> assms(4) prefix_nth [OF in2] prefix_length_le [OF in2]
    by (auto simp: copied_def split: option.splits)
  moreover have "length h \<le> length h3"
    using prefix_length_le [OF in2] \<open>prefix h2 h3 \<and> copied h2 (po_Conditions x) h3 cs\<close> prefix_length_le by fastforce
  ultimately show ?thesis using res by auto
qed

end
