(* ===== verification/Generated.thy ===== *)
theory Generated
  imports Operator
begin

text \<open>
  The generated client of the \<open>HTTPScaledObject\<close> resource under \<open>operator/generated\<close>: the typed client
  as the requests it makes of a REST client, the fake client as the actions it invokes, the shared
  informer factory as a record of its maps, and the listers over an indexer. The REST client, the
  object tracker behind the fake, informers and indexers are client-go's and parameters.
\<close>

section \<open>Group and version\<close>

record GroupVersionResource =
  gvr_Group :: string
  gvr_Version :: string
  gvr_Resource :: string

record GroupVersionKind =
  gvk_Group :: string
  gvk_Version :: string
  gvk_Kind :: string

definition SchemeGroupVersion :: "string \<times> string" where
  "SchemeGroupVersion = (''http.keda.sh'', ''v1alpha1'')"

definition WithResource :: "string \<times> string \<Rightarrow> string \<Rightarrow> GroupVersionResource" where
  "WithResource gv resource = \<lparr>gvr_Group = fst gv, gvr_Version = snd gv, gvr_Resource = resource\<rparr>"

definition Resource :: "string \<Rightarrow> string \<times> string" where
  "Resource resource =
     (let r = WithResource SchemeGroupVersion resource in (gvr_Group r, gvr_Resource r))"

section \<open>The typed client\<close>

record ListOptions =
  lo_LabelSelector :: string
  lo_TimeoutSeconds :: "gint option"
  lo_Watch :: bool

datatype rest_verb = GET | POST | PUT | DELETE | PATCH string

datatype rest_body = BodyObject HTTPScaledObject | BodyBytes string | BodyDeleteOptions string

datatype rest_params = ParamsNone | ParamsOptions string | ParamsList ListOptions

record RestRequest =
  rq_Verb :: rest_verb
  rq_Namespace :: string
  rq_Resource :: string
  rq_Name :: "string option"
  rq_SubResource :: "string list"
  rq_Params :: rest_params
  rq_Timeout :: gint
  rq_Body :: "rest_body option"

text \<open>\<open>Do(ctx).Into(result)\<close> for an object and for a list, \<open>Do(ctx).Error()\<close> and \<open>Watch(ctx)\<close>.\<close>

record ('w, 'v) RestClient =
  rest_object :: "RestRequest \<Rightarrow> 'w \<Rightarrow> 'w \<times> (error + HTTPScaledObject)"
  rest_list :: "RestRequest \<Rightarrow> 'w \<Rightarrow> 'w \<times> (error + HTTPScaledObject list)"
  rest_error :: "RestRequest \<Rightarrow> 'w \<Rightarrow> 'w \<times> error option"
  rest_watch :: "RestRequest \<Rightarrow> 'w \<Rightarrow> 'w \<times> (error + 'v)"

record ('w, 'v) hTTPScaledObjects =
  hso_client :: "('w, 'v) RestClient"
  hso_ns :: string

definition newHTTPScaledObjects :: "('w, 'v) RestClient \<Rightarrow> string \<Rightarrow> ('w, 'v) hTTPScaledObjects" where
  "newHTTPScaledObjects c namespace = \<lparr>hso_client = c, hso_ns = namespace\<rparr>"

definition rest_request :: "rest_verb \<Rightarrow> string \<Rightarrow> RestRequest" where
  "rest_request verb ns =
     \<lparr>rq_Verb = verb, rq_Namespace = ns, rq_Resource = ''httpscaledobjects'', rq_Name = None, rq_SubResource = [],
      rq_Params = ParamsNone, rq_Timeout = 0, rq_Body = None\<rparr>"

definition list_timeout :: "ListOptions \<Rightarrow> gint" where
  "list_timeout opts = (case lo_TimeoutSeconds opts of None \<Rightarrow> 0 | Some n \<Rightarrow> n * second)"

definition hso_Get :: "('w, 'v) hTTPScaledObjects \<Rightarrow> string \<Rightarrow> string \<Rightarrow> 'w \<Rightarrow> 'w \<times> (error + HTTPScaledObject)" where
  "hso_Get c name options w =
     rest_object (hso_client c)
       ((rest_request GET (hso_ns c))\<lparr>rq_Name := Some name, rq_Params := ParamsOptions options\<rparr>) w"

definition hso_List :: "('w, 'v) hTTPScaledObjects \<Rightarrow> ListOptions \<Rightarrow> 'w \<Rightarrow> 'w \<times> (error + HTTPScaledObject list)" where
  "hso_List c opts w =
     rest_list (hso_client c)
       ((rest_request GET (hso_ns c))\<lparr>rq_Params := ParamsList opts, rq_Timeout := list_timeout opts\<rparr>) w"

definition hso_Watch :: "('w, 'v) hTTPScaledObjects \<Rightarrow> ListOptions \<Rightarrow> 'w \<Rightarrow> 'w \<times> (error + 'v)" where
  "hso_Watch c opts w =
     rest_watch (hso_client c)
       ((rest_request GET (hso_ns c))\<lparr>rq_Params := ParamsList (opts\<lparr>lo_Watch := True\<rparr>), rq_Timeout := list_timeout opts\<rparr>) w"

definition hso_Create ::
    "('w, 'v) hTTPScaledObjects \<Rightarrow> HTTPScaledObject \<Rightarrow> string \<Rightarrow> 'w \<Rightarrow> 'w \<times> (error + HTTPScaledObject)" where
  "hso_Create c obj opts w =
     rest_object (hso_client c)
       ((rest_request POST (hso_ns c))\<lparr>rq_Params := ParamsOptions opts, rq_Body := Some (BodyObject obj)\<rparr>) w"

definition hso_Update ::
    "('w, 'v) hTTPScaledObjects \<Rightarrow> HTTPScaledObject \<Rightarrow> string \<Rightarrow> 'w \<Rightarrow> 'w \<times> (error + HTTPScaledObject)" where
  "hso_Update c obj opts w =
     rest_object (hso_client c)
       ((rest_request PUT (hso_ns c))\<lparr>rq_Name := Some (ho_Name obj), rq_Params := ParamsOptions opts,
         rq_Body := Some (BodyObject obj)\<rparr>) w"

definition hso_UpdateStatus ::
    "('w, 'v) hTTPScaledObjects \<Rightarrow> HTTPScaledObject \<Rightarrow> string \<Rightarrow> 'w \<Rightarrow> 'w \<times> (error + HTTPScaledObject)" where
  "hso_UpdateStatus c obj opts w =
     rest_object (hso_client c)
       ((rest_request PUT (hso_ns c))\<lparr>rq_Name := Some (ho_Name obj), rq_SubResource := [''status''],
         rq_Params := ParamsOptions opts, rq_Body := Some (BodyObject obj)\<rparr>) w"

definition hso_Delete :: "('w, 'v) hTTPScaledObjects \<Rightarrow> string \<Rightarrow> string \<Rightarrow> 'w \<Rightarrow> 'w \<times> error option" where
  "hso_Delete c name opts w =
     rest_error (hso_client c)
       ((rest_request DELETE (hso_ns c))\<lparr>rq_Name := Some name, rq_Body := Some (BodyDeleteOptions opts)\<rparr>) w"

definition hso_DeleteCollection :: "('w, 'v) hTTPScaledObjects \<Rightarrow> string \<Rightarrow> ListOptions \<Rightarrow> 'w \<Rightarrow> 'w \<times> error option" where
  "hso_DeleteCollection c opts listOpts w =
     rest_error (hso_client c)
       ((rest_request DELETE (hso_ns c))\<lparr>rq_Params := ParamsList listOpts, rq_Timeout := list_timeout listOpts,
         rq_Body := Some (BodyDeleteOptions opts)\<rparr>) w"

definition hso_Patch ::
    "('w, 'v) hTTPScaledObjects \<Rightarrow> string \<Rightarrow> string \<Rightarrow> string \<Rightarrow> string \<Rightarrow> string list \<Rightarrow> 'w \<Rightarrow> 'w \<times> (error + HTTPScaledObject)" where
  "hso_Patch c name pt data opts subresources w =
     rest_object (hso_client c)
       ((rest_request (PATCH pt) (hso_ns c))\<lparr>rq_Name := Some name, rq_SubResource := subresources,
         rq_Params := ParamsOptions opts, rq_Body := Some (BodyBytes data)\<rparr>) w"

section \<open>The fake client\<close>

datatype fake_action =
    GetAction GroupVersionResource string string
  | ListAction GroupVersionResource GroupVersionKind string ListOptions
  | WatchAction GroupVersionResource string ListOptions
  | CreateAction GroupVersionResource string HTTPScaledObject
  | UpdateAction GroupVersionResource string HTTPScaledObject
  | UpdateSubresourceAction GroupVersionResource string string HTTPScaledObject
  | DeleteAction GroupVersionResource string string string
  | DeleteCollectionAction GroupVersionResource string ListOptions
  | PatchSubresourceAction GroupVersionResource string string string string "string list"

datatype fake_object = FObject HTTPScaledObject | FList "HTTPScaledObject list" | FOther string

text \<open>\<open>Invokes\<close> returns an object, which may be nil, and an error.\<close>

type_synonym 'w invokes = "fake_action \<Rightarrow> 'w \<Rightarrow> 'w \<times> fake_object option \<times> error option"

definition httpscaledobjectsResource :: GroupVersionResource where
  "httpscaledobjectsResource = \<lparr>gvr_Group = ''http'', gvr_Version = ''v1alpha1'', gvr_Resource = ''httpscaledobjects''\<rparr>"

definition httpscaledobjectsKind :: GroupVersionKind where
  "httpscaledobjectsKind = \<lparr>gvk_Group = ''http'', gvk_Version = ''v1alpha1'', gvk_Kind = ''HTTPScaledObject''\<rparr>"

text \<open>The end that the methods for one object share: nil, or the object after the type assertion.\<close>

definition fake_result :: "'w \<times> fake_object option \<times> error option \<Rightarrow> ('w \<times> HTTPScaledObject option \<times> error option) go" where
  "fake_result r =
     (case r of
        (w, None, err) \<Rightarrow> Ret (w, None, err)
      | (w, Some (FObject obj), err) \<Rightarrow> Ret (w, Some obj, err)
      | _ \<Rightarrow> Panic ''interface conversion'')"

definition Fake_Get :: "'w invokes \<Rightarrow> string \<Rightarrow> string \<Rightarrow> 'w \<Rightarrow> ('w \<times> HTTPScaledObject option \<times> error option) go" where
  "Fake_Get invoke ns name w = fake_result (invoke (GetAction httpscaledobjectsResource ns name) w)"

text \<open>\<open>extract\<close> is the label selector of the options, as a test of an object; \<open>None\<close> is nil.\<close>

definition Fake_List ::
    "'w invokes \<Rightarrow> (ListOptions \<Rightarrow> (HTTPScaledObject \<Rightarrow> bool) option) \<Rightarrow> string \<Rightarrow> ListOptions \<Rightarrow> 'w \<Rightarrow>
     ('w \<times> HTTPScaledObject list option \<times> error option) go" where
  "Fake_List invoke extract ns opts w =
     (case invoke (ListAction httpscaledobjectsResource httpscaledobjectsKind ns opts) w of
        (w', None, err) \<Rightarrow> Ret (w', None, err)
      | (w', Some (FList items), err) \<Rightarrow>
          (let label = (case extract opts of None \<Rightarrow> (\<lambda>_. True) | Some l \<Rightarrow> l) in
           Ret (w', Some (filter label items), err))
      | _ \<Rightarrow> Panic ''interface conversion'')"

definition Fake_Watch :: "(fake_action \<Rightarrow> 'w \<Rightarrow> 'w \<times> (error + 'v)) \<Rightarrow> string \<Rightarrow> ListOptions \<Rightarrow> 'w \<Rightarrow> 'w \<times> (error + 'v)" where
  "Fake_Watch invWatch ns opts w = invWatch (WatchAction httpscaledobjectsResource ns opts) w"

definition Fake_Create :: "'w invokes \<Rightarrow> string \<Rightarrow> HTTPScaledObject \<Rightarrow> 'w \<Rightarrow> ('w \<times> HTTPScaledObject option \<times> error option) go" where
  "Fake_Create invoke ns obj w = fake_result (invoke (CreateAction httpscaledobjectsResource ns obj) w)"

definition Fake_Update :: "'w invokes \<Rightarrow> string \<Rightarrow> HTTPScaledObject \<Rightarrow> 'w \<Rightarrow> ('w \<times> HTTPScaledObject option \<times> error option) go" where
  "Fake_Update invoke ns obj w = fake_result (invoke (UpdateAction httpscaledobjectsResource ns obj) w)"

definition Fake_UpdateStatus :: "'w invokes \<Rightarrow> string \<Rightarrow> HTTPScaledObject \<Rightarrow> 'w \<Rightarrow> ('w \<times> HTTPScaledObject option \<times> error option) go" where
  "Fake_UpdateStatus invoke ns obj w =
     fake_result (invoke (UpdateSubresourceAction httpscaledobjectsResource ''status'' ns obj) w)"

definition Fake_Delete :: "'w invokes \<Rightarrow> string \<Rightarrow> string \<Rightarrow> string \<Rightarrow> 'w \<Rightarrow> 'w \<times> error option" where
  "Fake_Delete invoke ns name opts w =
     (case invoke (DeleteAction httpscaledobjectsResource ns name opts) w of (w', _, err) \<Rightarrow> (w', err))"

definition Fake_DeleteCollection :: "'w invokes \<Rightarrow> string \<Rightarrow> ListOptions \<Rightarrow> 'w \<Rightarrow> 'w \<times> error option" where
  "Fake_DeleteCollection invoke ns listOpts w =
     (case invoke (DeleteCollectionAction httpscaledobjectsResource ns listOpts) w of (w', _, err) \<Rightarrow> (w', err))"

definition Fake_Patch ::
    "'w invokes \<Rightarrow> string \<Rightarrow> string \<Rightarrow> string \<Rightarrow> string \<Rightarrow> string list \<Rightarrow> 'w \<Rightarrow>
     ('w \<times> HTTPScaledObject option \<times> error option) go" where
  "Fake_Patch invoke ns name pt data subresources w =
     fake_result (invoke (PatchSubresourceAction httpscaledobjectsResource ns name pt data subresources) w)"

section \<open>The informer factory\<close>

type_synonym tweak = "(ListOptions \<Rightarrow> ListOptions) option"

text \<open>
  Types are named by strings. \<open>running\<close> is the count of the wait group, and an informer of type
  \<open>'i\<close> is whatever client-go makes.
\<close>

record 'i sharedInformerFactory =
  fac_namespace :: string
  fac_tweakListOptions :: tweak
  fac_defaultResync :: gint
  fac_customResync :: "gint smap"
  fac_informers :: "'i smap"
  fac_startedInformers :: "bool smap"
  fac_running :: nat
  fac_shuttingDown :: bool

type_synonym 'i SharedInformerOption = "'i sharedInformerFactory \<Rightarrow> 'i sharedInformerFactory"

definition WithCustomResyncConfig :: "(string \<times> gint) list \<Rightarrow> 'i SharedInformerOption" where
  "WithCustomResyncConfig resyncConfig f =
     f\<lparr>fac_customResync := foldl (\<lambda>m (k, v). fmupd k v m) (fac_customResync f) resyncConfig\<rparr>"

definition WithTweakListOptions :: "tweak \<Rightarrow> 'i SharedInformerOption" where
  "WithTweakListOptions t f = f\<lparr>fac_tweakListOptions := t\<rparr>"

definition WithNamespace :: "string \<Rightarrow> 'i SharedInformerOption" where
  "WithNamespace namespace f = f\<lparr>fac_namespace := namespace\<rparr>"

definition NewSharedInformerFactoryWithOptions :: "gint \<Rightarrow> 'i SharedInformerOption list \<Rightarrow> 'i sharedInformerFactory" where
  "NewSharedInformerFactoryWithOptions defaultResync options =
     foldl (\<lambda>f opt. opt f)
       \<lparr>fac_namespace = [], fac_tweakListOptions = None, fac_defaultResync = defaultResync, fac_customResync = fmempty,
        fac_informers = fmempty, fac_startedInformers = fmempty, fac_running = 0, fac_shuttingDown = False\<rparr> options"

definition NewSharedInformerFactory :: "gint \<Rightarrow> 'i sharedInformerFactory" where
  "NewSharedInformerFactory defaultResync = NewSharedInformerFactoryWithOptions defaultResync []"

definition NewFilteredSharedInformerFactory :: "gint \<Rightarrow> string \<Rightarrow> tweak \<Rightarrow> 'i sharedInformerFactory" where
  "NewFilteredSharedInformerFactory defaultResync namespace t =
     NewSharedInformerFactoryWithOptions defaultResync [WithNamespace namespace, WithTweakListOptions t]"

definition is_started :: "'i sharedInformerFactory \<Rightarrow> string \<Rightarrow> bool" where
  "is_started f ty = (case fmlookup (fac_startedInformers f) ty of Some b \<Rightarrow> b | None \<Rightarrow> False)"

text \<open>The loop of \<open>Start\<close>, with the informers it runs, by type.\<close>

fun start_loop :: "(string \<times> 'i) list \<Rightarrow> 'i sharedInformerFactory \<Rightarrow> 'i sharedInformerFactory \<times> (string \<times> 'i) list" where
  "start_loop [] f = (f, [])"
| "start_loop ((ty, informer) # es) f =
     (if \<not> is_started f ty then
        (case start_loop es (f\<lparr>fac_running := fac_running f + 1,
            fac_startedInformers := fmupd ty True (fac_startedInformers f)\<rparr>) of
           (f', runs) \<Rightarrow> (f', (ty, informer) # runs))
      else start_loop es f)"

definition factory_Start :: "(string \<times> 'i) list \<Rightarrow> 'i sharedInformerFactory \<Rightarrow> 'i sharedInformerFactory \<times> (string \<times> 'i) list" where
  "factory_Start es f = (if fac_shuttingDown f then (f, []) else start_loop es f)"

text \<open>\<open>Shutdown\<close> up to its wait, and whether the wait returns at once.\<close>

definition factory_Shutdown :: "'i sharedInformerFactory \<Rightarrow> 'i sharedInformerFactory \<times> bool" where
  "factory_Shutdown f = (f\<lparr>fac_shuttingDown := True\<rparr>, fac_running f = 0)"

definition factory_WaitForCacheSync :: "('i \<Rightarrow> bool) \<Rightarrow> 'i sharedInformerFactory \<Rightarrow> bool smap" where
  "factory_WaitForCacheSync sync f = fmmap sync (fmfilter (is_started f) (fac_informers f))"

definition factory_InformerFor ::
    "string \<Rightarrow> (gint \<Rightarrow> 'i) \<Rightarrow> 'i sharedInformerFactory \<Rightarrow> 'i sharedInformerFactory \<times> 'i" where
  "factory_InformerFor informerType newFunc f =
     (case fmlookup (fac_informers f) informerType of
        Some informer \<Rightarrow> (f, informer)
      | None \<Rightarrow>
          (let resyncPeriod = (case fmlookup (fac_customResync f) informerType of
                 Some p \<Rightarrow> p | None \<Rightarrow> fac_defaultResync f);
               informer = newFunc resyncPeriod in
           (f\<lparr>fac_informers := fmupd informerType informer (fac_informers f)\<rparr>, informer)))"

section \<open>The informer of the resource\<close>

text \<open>\<open>newSharedIndexInformer\<close> is client-go's, of a list function, a watch function and a period.\<close>

definition NewFilteredHTTPScaledObjectInformer ::
    "((ListOptions \<Rightarrow> 'w \<Rightarrow> 'w \<times> (error + HTTPScaledObject list)) \<Rightarrow> (ListOptions \<Rightarrow> 'w \<Rightarrow> 'w \<times> (error + 'v)) \<Rightarrow> gint \<Rightarrow> 'i) \<Rightarrow>
     ('w, 'v) RestClient \<Rightarrow> string \<Rightarrow> gint \<Rightarrow> tweak \<Rightarrow> 'i" where
  "NewFilteredHTTPScaledObjectInformer newSharedIndexInformer client namespace resyncPeriod tweakListOptions =
     (let tw = (\<lambda>options. case tweakListOptions of None \<Rightarrow> options | Some t \<Rightarrow> t options) in
      newSharedIndexInformer
        (\<lambda>options. hso_List (newHTTPScaledObjects client namespace) (tw options))
        (\<lambda>options. hso_Watch (newHTTPScaledObjects client namespace) (tw options))
        resyncPeriod)"

definition HTTPScaledObjectType :: string where
  "HTTPScaledObjectType = ''*v1alpha1.HTTPScaledObject''"

text \<open>\<open>factory.Http().V1alpha1().HTTPScaledObjects().Informer()\<close>: the namespace and the filter are the factory's.\<close>

definition HTTPScaledObjects_Informer ::
    "((ListOptions \<Rightarrow> 'w \<Rightarrow> 'w \<times> (error + HTTPScaledObject list)) \<Rightarrow> (ListOptions \<Rightarrow> 'w \<Rightarrow> 'w \<times> (error + 'v)) \<Rightarrow> gint \<Rightarrow> 'i) \<Rightarrow>
     ('w, 'v) RestClient \<Rightarrow> 'i sharedInformerFactory \<Rightarrow> 'i sharedInformerFactory \<times> 'i" where
  "HTTPScaledObjects_Informer mk client f =
     factory_InformerFor HTTPScaledObjectType
       (\<lambda>resyncPeriod. NewFilteredHTTPScaledObjectInformer mk client (fac_namespace f) resyncPeriod (fac_tweakListOptions f)) f"

definition factory_ForResource ::
    "((ListOptions \<Rightarrow> 'w \<Rightarrow> 'w \<times> (error + HTTPScaledObject list)) \<Rightarrow> (ListOptions \<Rightarrow> 'w \<Rightarrow> 'w \<times> (error + 'v)) \<Rightarrow> gint \<Rightarrow> 'i) \<Rightarrow>
     ('w, 'v) RestClient \<Rightarrow> (GroupVersionResource \<Rightarrow> string) \<Rightarrow> GroupVersionResource \<Rightarrow> 'i sharedInformerFactory \<Rightarrow>
     'i sharedInformerFactory \<times> (error + (string \<times> string) \<times> 'i)" where
  "factory_ForResource mk client fmt_v resource f =
     (if resource = WithResource SchemeGroupVersion ''httpscaledobjects'' then
        (case HTTPScaledObjects_Informer mk client f of
           (f', informer) \<Rightarrow> (f', Inr ((gvr_Group resource, gvr_Resource resource), informer)))
      else (f, Inl (Errorf (''no informer found for '' @ fmt_v resource))))"

section \<open>Listers\<close>

text \<open>
  An indexer by what \<open>cache.ListAll\<close> and \<open>cache.ListAllByNamespace\<close> hand to their function for a selector, and by
  \<open>GetByKey\<close>.
\<close>

record 'q Indexer =
  ix_ListAll :: "'q \<Rightarrow> fake_object list \<times> error option"
  ix_ListAllByNamespace :: "string \<Rightarrow> 'q \<Rightarrow> fake_object list \<times> error option"
  ix_GetByKey :: "string \<Rightarrow> error + fake_object option"

fun cast_all :: "fake_object list \<Rightarrow> HTTPScaledObject list go" where
  "cast_all [] = Ret []"
| "cast_all (FObject obj # ms) = bind_go (cast_all ms) (\<lambda>ret. Ret (obj # ret))"
| "cast_all (_ # ms) = Panic ''interface conversion''"

definition Lister_List :: "'q Indexer \<Rightarrow> 'q \<Rightarrow> (HTTPScaledObject list \<times> error option) go" where
  "Lister_List ix selector =
     (case ix_ListAll ix selector of (ms, err) \<Rightarrow> bind_go (cast_all ms) (\<lambda>ret. Ret (ret, err)))"

definition NamespaceLister_List :: "'q Indexer \<Rightarrow> string \<Rightarrow> 'q \<Rightarrow> (HTTPScaledObject list \<times> error option) go" where
  "NamespaceLister_List ix namespace selector =
     (case ix_ListAllByNamespace ix namespace selector of (ms, err) \<Rightarrow> bind_go (cast_all ms) (\<lambda>ret. Ret (ret, err)))"

definition NamespaceLister_Get :: "'q Indexer \<Rightarrow> string \<Rightarrow> string \<Rightarrow> (error + HTTPScaledObject) go" where
  "NamespaceLister_Get ix namespace name =
     (case ix_GetByKey ix (namespace @ ''/'' @ name) of
        Inl err \<Rightarrow> Ret (Inl err)
      | Inr None \<Rightarrow> Ret (Inl (StatusNotFound (snd (Resource ''httpscaledobject'') @ ''.'' @ fst (Resource ''httpscaledobject'') @ '' '' @ name)))
      | Inr (Some (FObject obj)) \<Rightarrow> Ret (Inr obj)
      | Inr (Some _) \<Rightarrow> Panic ''interface conversion'')"


section \<open>Informers are shared and run once\<close>

text \<open>
  Calls on a factory, with the entries of the informer map in the order in which a \<open>Start\<close> ranges
  over them, and the informers that have been run, by type.
\<close>

datatype 'i factory_call = CallInformerFor string "gint \<Rightarrow> 'i" | CallStart "(string \<times> 'i) list" | CallShutdown

fun factory_do :: "'i factory_call \<Rightarrow> 'i sharedInformerFactory \<times> (string \<times> 'i) list \<Rightarrow> 'i sharedInformerFactory \<times> (string \<times> 'i) list" where
  "factory_do (CallInformerFor ty mk) (f, runs) = (fst (factory_InformerFor ty mk f), runs)"
| "factory_do (CallStart es) (f, runs) = (case factory_Start es f of (f', new) \<Rightarrow> (f', runs @ new))"
| "factory_do CallShutdown (f, runs) = (fst (factory_Shutdown f), runs)"

fun call_ok :: "'i factory_call \<Rightarrow> 'i sharedInformerFactory \<Rightarrow> bool" where
  "call_ok (CallStart es) f = enumerates es (fac_informers f)"
| "call_ok _ f = True"

inductive factory_reach :: "gint \<Rightarrow> 'i SharedInformerOption list \<Rightarrow> 'i sharedInformerFactory \<times> (string \<times> 'i) list \<Rightarrow> bool"
  for resync options where
  reach_new: "factory_reach resync options (NewSharedInformerFactoryWithOptions resync options, [])"
| reach_call: "factory_reach resync options s \<Longrightarrow> call_ok c (fst s) \<Longrightarrow> factory_reach resync options (factory_do c s)"

text \<open>The options that the package offers leave the maps of informers empty.\<close>

definition plain_option :: "'i SharedInformerOption \<Rightarrow> bool" where
  "plain_option opt \<longleftrightarrow> (\<forall>f. fac_informers (opt f) = fac_informers f \<and> fac_startedInformers (opt f) = fac_startedInformers f \<and>
     fac_running (opt f) = fac_running f \<and> fac_shuttingDown (opt f) = fac_shuttingDown f)"

lemma plain_options:
  "plain_option (WithCustomResyncConfig cfg)" "plain_option (WithTweakListOptions t)" "plain_option (WithNamespace ns)"
  by (simp_all add: plain_option_def WithCustomResyncConfig_def WithTweakListOptions_def WithNamespace_def)

definition runs_ok :: "'i sharedInformerFactory \<times> (string \<times> 'i) list \<Rightarrow> bool" where
  "runs_ok s \<longleftrightarrow> (case s of (f, runs) \<Rightarrow>
     distinct (map fst runs) \<and> (\<forall>ty. is_started f ty \<longleftrightarrow> ty \<in> fst ` set runs) \<and>
     (\<forall>ty i. (ty, i) \<in> set runs \<longrightarrow> fmlookup (fac_informers f) ty = Some i) \<and> fac_running f = length runs)"

lemma is_started_upd:
  "is_started (f\<lparr>fac_running := n, fac_startedInformers := fmupd ty True (fac_startedInformers f)\<rparr>) ty' \<longleftrightarrow>
   ty' = ty \<or> is_started f ty'"
  by (simp add: is_started_def)

lemma start_loop_result:
  assumes "start_loop es f = (f', new)" "distinct (map fst es)"
  shows "new = filter (\<lambda>e. \<not> is_started f (fst e)) es \<and> fac_informers f' = fac_informers f \<and>
    fac_shuttingDown f' = fac_shuttingDown f \<and> fac_running f' = fac_running f + length new \<and>
    (\<forall>ty. is_started f' ty \<longleftrightarrow> is_started f ty \<or> ty \<in> fst ` set es)"
  using assms
proof (induction es f arbitrary: f' new rule: start_loop.induct)
  case (2 ty informer es f)
  show ?case
  proof (cases "is_started f ty")
    case True
    with 2 show ?thesis by auto
  next
    case False
    let ?f = "f\<lparr>fac_running := fac_running f + 1, fac_startedInformers := fmupd ty True (fac_startedInformers f)\<rparr>"
    obtain f1 runs where 1: "start_loop es ?f = (f1, runs)" by fastforce
    have "filter (\<lambda>e. \<not> is_started ?f (fst e)) es = filter (\<lambda>e. \<not> is_started f (fst e)) es"
      using 2(4) by (intro filter_cong) (auto simp: is_started_upd)
    with 2(1) [OF False 1] 2(3,4) False 1 show ?thesis
      by (auto simp: is_started_upd)
  qed
qed auto

lemma runs_ok_new:
  assumes "list_all plain_option options"
  shows "runs_ok (NewSharedInformerFactoryWithOptions resync options, [])"
proof -
  have "fac_informers (foldl (\<lambda>f opt. opt f) f options) = fac_informers f \<and>
      fac_startedInformers (foldl (\<lambda>f opt. opt f) f options) = fac_startedInformers f \<and>
      fac_running (foldl (\<lambda>f opt. opt f) f options) = fac_running f" for f
    using assms by (induction options arbitrary: f) (auto simp: plain_option_def)
  then show ?thesis
    by (simp add: runs_ok_def NewSharedInformerFactoryWithOptions_def is_started_def)
qed

lemma runs_ok_start:
  assumes "runs_ok (f, runs)" "start_loop es f = (f', new)" "enumerates es (fac_informers f)"
  shows "runs_ok (f', runs @ new)"
proof -
  have es: "distinct (map fst es)" "map_of es = fmlookup (fac_informers f)"
    using assms(3) by (auto simp: enumerates_def)
  have ok: "distinct (map fst runs)" "\<And>ty. is_started f ty \<longleftrightarrow> ty \<in> fst ` set runs"
    "\<And>ty i. (ty, i) \<in> set runs \<Longrightarrow> fmlookup (fac_informers f) ty = Some i" "fac_running f = length runs"
    using assms(1) by (simp_all add: runs_ok_def)
  have r1: "new = filter (\<lambda>e. \<not> is_started f (fst e)) es" and r2: "fac_informers f' = fac_informers f"
    and r3: "fac_running f' = fac_running f + length new"
    and r4: "\<And>ty. is_started f' ty \<longleftrightarrow> is_started f ty \<or> ty \<in> fst ` set es"
    using start_loop_result [OF assms(2) es(1)] by simp_all
  have new_keys: "fst ` set new = {ty \<in> fst ` set es. \<not> is_started f ty}"
    unfolding r1 by auto
  have "fst ` set runs \<inter> fst ` set new = {}"
    unfolding new_keys using ok(2) by blast
  moreover have "distinct (map fst new)" unfolding r1 using es(1) by (rule distinct_map_filter)
  ultimately have "distinct (map fst (runs @ new))" using ok(1) by simp
  moreover have "is_started f' ty \<longleftrightarrow> ty \<in> fst ` set (runs @ new)" for ty
    using r4 [of ty] ok(2) [of ty] by (simp only: set_append image_Un new_keys) blast
  moreover have "fmlookup (fac_informers f') ty = Some i" if "(ty, i) \<in> set (runs @ new)" for ty i
  proof (cases "(ty, i) \<in> set runs")
    case True
    with ok(3) r2 show ?thesis by simp
  next
    case False
    with that have "(ty, i) \<in> set es" by (simp add: r1)
    with es have "fmlookup (fac_informers f) ty = Some i" by (metis map_of_is_SomeI)
    with r2 show ?thesis by simp
  qed
  ultimately show ?thesis
    using r3 ok(4) by (simp only: runs_ok_def prod.case length_append) blast
qed

lemma runs_ok_do:
  assumes "runs_ok (f, runs)" "call_ok c f"
  shows "runs_ok (factory_do c (f, runs))"
proof (cases c)
  case (CallInformerFor ty mk)
  show ?thesis
  proof (cases "fmlookup (fac_informers f) ty")
    case None
    define f' where "f' = fst (factory_InformerFor ty mk f)"
    have f': "is_started f' = is_started f" "fac_running f' = fac_running f"
      "\<And>k. k \<noteq> ty \<Longrightarrow> fmlookup (fac_informers f') k = fmlookup (fac_informers f) k"
      using None by (auto simp: f'_def factory_InformerFor_def is_started_def Let_def)
    have "fmlookup (fac_informers f') k = Some i" if "(k, i) \<in> set runs" for k i
      using assms(1) that f'(3) [of k] None by (fastforce simp: runs_ok_def)
    with assms(1) f'(1,2) CallInformerFor show ?thesis
      by (simp add: runs_ok_def f'_def)
  qed (use assms(1) CallInformerFor in \<open>simp add: factory_InformerFor_def\<close>)
next
  case (CallStart es)
  show ?thesis
  proof (cases "fac_shuttingDown f")
    case True
    with assms CallStart show ?thesis by (simp add: factory_Start_def)
  next
    case False
    obtain f' new where new: "start_loop es f = (f', new)" by fastforce
    have "runs_ok (f', runs @ new)"
      using assms CallStart by (intro runs_ok_start [OF _ new]) simp_all
    then show ?thesis using CallStart False new by (simp add: factory_Start_def)
  qed
next
  case CallShutdown
  with assms(1) show ?thesis by (auto simp: runs_ok_def factory_Shutdown_def is_started_def)
qed

lemma runs_ok_reach: "factory_reach resync options s \<Longrightarrow> list_all plain_option options \<Longrightarrow> runs_ok s"
proof (induction rule: factory_reach.induct)
  case (reach_call s c)
  then show ?case using runs_ok_do [of "fst s" "snd s" c] by simp
qed (rule runs_ok_new)

text \<open>After \<open>Shutdown\<close> nothing is run, and a \<open>Start\<close> before it leaves no informer out.\<close>

lemma shut_down_do: "fac_shuttingDown f \<Longrightarrow> fac_shuttingDown (fst (factory_do c (f, runs))) \<and> snd (factory_do c (f, runs)) = runs"
  by (cases c) (auto simp: factory_Start_def factory_Shutdown_def factory_InformerFor_def Let_def split: option.split)

lemma shut_down_runs: "fac_shuttingDown f \<Longrightarrow> snd (fold factory_do cs (f, runs)) = runs"
proof (induction cs arbitrary: f)
  case (Cons c cs)
  obtain f' runs' where "factory_do c (f, runs) = (f', runs')" by fastforce
  with Cons shut_down_do [of f c runs] show ?case by simp
qed simp

lemma start_runs_all:
  assumes "runs_ok (f, runs)" "enumerates es (fac_informers f)"
  shows "mset (runs @ snd (start_loop es f)) = mset es"
proof -
  have es: "distinct (map fst es)" "map_of es = fmlookup (fac_informers f)"
    using assms(2) by (auto simp: enumerates_def)
  obtain f' new where new: "start_loop es f = (f', new)" by fastforce
  have sub: "new = filter (\<lambda>e. \<not> is_started f (fst e)) es"
    using start_loop_result [OF new es(1)] by simp
  have ok: "runs_ok (f', runs @ new)" by (rule runs_ok_start [OF assms(1) new assms(2)])
  have run: "distinct (map fst runs)" "\<And>ty. is_started f ty \<longleftrightarrow> ty \<in> fst ` set runs"
    "\<And>ty i. (ty, i) \<in> set runs \<Longrightarrow> map_of es ty = Some i"
    using assms(1) es(2) by (simp_all add: runs_ok_def)
  have "set (runs @ new) = set es"
  proof (rule set_eqI)
    fix e :: "string \<times> 'a"
    obtain ty i where e: "e = (ty, i)" by fastforce
    show "e \<in> set (runs @ new) \<longleftrightarrow> e \<in> set es"
    proof (cases "is_started f ty")
      case True
      then obtain j where j: "(ty, j) \<in> set runs" using run(2) by auto
      then have "map_of es ty = Some j" by (rule run(3))
      then have "(ty, i) \<in> set es \<longleftrightarrow> i = j" using es(1) by (metis map_of_is_SomeI map_of_SomeD option.inject)
      moreover have "(ty, i) \<in> set runs \<longleftrightarrow> i = j" using j run(1) by (metis map_of_is_SomeI option.inject)
      ultimately show ?thesis using True by (simp add: e sub)
    next
      case False
      then have "(ty, i) \<notin> set runs" using run(2) by force
      with False show ?thesis by (simp add: e sub)
    qed
  qed
  moreover have "distinct (runs @ new)" "distinct es"
    using ok es(1) by (auto simp: runs_ok_def distinct_map)
  ultimately have "mset (runs @ new) = mset es" by (simp only: set_eq_iff_mset_eq_distinct)
  then show ?thesis using new by simp
qed

text \<open>
  C34: Informers are shared and started once. Whatever calls are made on a factory, no type of
  informer is run twice; what is run for a type is the informer that every request for the type
  returns; after a \<open>Start\<close> the informers that have been run are exactly those requested so far, each
  once; and once \<open>Shutdown\<close> is called no informer is run any more, whatever calls follow.
\<close>

theorem informers_run_once:
  assumes "factory_reach resync options (f, runs)" "list_all plain_option options"
  shows "distinct (map fst runs) \<and>
    (\<forall>(ty, i) \<in> set runs. \<forall>mk. snd (factory_InformerFor ty mk f) = i) \<and>
    (\<forall>es. enumerates es (fac_informers f) \<longrightarrow>
       (if fac_shuttingDown f then factory_Start es f = (f, [])
        else mset (snd (factory_do (CallStart es) (f, runs))) = mset es)) \<and>
    (\<forall>cs. snd (fold factory_do (CallShutdown # cs) (f, runs)) = runs)"
proof -
  have ok: "runs_ok (f, runs)" by (rule runs_ok_reach [OF assms])
  have "mset (snd (factory_do (CallStart es) (f, runs))) = mset es"
    if "enumerates es (fac_informers f)" "\<not> fac_shuttingDown f" for es
    using start_runs_all [OF ok that(1)] that(2) by (cases "start_loop es f") (simp add: factory_Start_def)
  moreover have "snd (fold factory_do (CallShutdown # cs) (f, runs)) = runs" for cs
    using shut_down_runs [of "fst (factory_Shutdown f)" cs runs] by (simp add: factory_Shutdown_def)
  ultimately show ?thesis
    using ok by (auto simp: runs_ok_def factory_Start_def factory_InformerFor_def)
qed

theorem informers_run_once_witness:
  "\<exists>f. factory_reach 60 [WithNamespace ''ns''] (f, [(''T'', 60)]) \<and> snd (factory_InformerFor ''T'' (\<lambda>_. 7 :: gint) f) = 60 \<and>
     snd (fold factory_do [CallShutdown, CallInformerFor ''U'' (\<lambda>p. p), CallStart [(''T'', 60), (''U'', 60)]] (f, [(''T'', 60)])) = [(''T'', 60)]"
proof -
  let ?new = "(NewSharedInformerFactoryWithOptions 60 [WithNamespace ''ns''], []) :: gint sharedInformerFactory \<times> (string \<times> gint) list"
  let ?s1 = "factory_do (CallInformerFor ''T'' (\<lambda>p. p)) ?new" and ?es = "[(''T'', 60 :: gint)]"
  have "factory_reach 60 [WithNamespace ''ns''] ?s1"
    by (rule reach_call [OF reach_new]) simp
  moreover have es: "call_ok (CallStart ?es) (fst ?s1)"
    by (auto simp: factory_InformerFor_def NewSharedInformerFactoryWithOptions_def WithNamespace_def enumerates_def Let_def)
  ultimately have reach: "factory_reach 60 [WithNamespace ''ns''] (factory_do (CallStart ?es) ?s1)"
    by (rule reach_call)
  obtain f where f: "factory_do (CallStart ?es) ?s1 = (f, [(''T'', 60)])"
    by (simp add: factory_InformerFor_def NewSharedInformerFactoryWithOptions_def WithNamespace_def factory_Start_def
        is_started_def Let_def)
  have "list_all plain_option [WithNamespace ''ns'' :: gint SharedInformerOption]" by (simp add: plain_options)
  note once = informers_run_once [OF reach [unfolded f] this]
  then have "\<forall>cs. snd (fold factory_do (CallShutdown # cs) (f, [(''T'', 60)])) = [(''T'', 60)]" by blast
  moreover from once have "snd (factory_InformerFor ''T'' (\<lambda>_. 7 :: gint) f) = 60" by simp
  ultimately show ?thesis using reach [unfolded f] by blast
qed

section \<open>Requests stay in their namespace\<close>

text \<open>
  A REST client that records the requests it gets: every method of the typed client makes
  exactly one request, for the resource and in the namespace of the client.
\<close>

definition recording :: "(RestRequest list, unit) RestClient" where
  "recording = \<lparr>rest_object = (\<lambda>r w. (w @ [r], Inl (Errorf []))), rest_list = (\<lambda>r w. (w @ [r], Inr [])),
     rest_error = (\<lambda>r w. (w @ [r], None)), rest_watch = (\<lambda>r w. (w @ [r], Inr ()))\<rparr>"

lemma typed_client_requests:
  assumes "c = newHTTPScaledObjects recording ns"
    and "out \<in> {fst (hso_Get c n p []), fst (hso_List c lo []), fst (hso_Watch c lo []), fst (hso_Create c obj p []),
      fst (hso_Update c obj p []), fst (hso_UpdateStatus c obj p []), fst (hso_Delete c n p []),
      fst (hso_DeleteCollection c p lo []), fst (hso_Patch c n pt d p subs [])}"
  shows "\<exists>r. out = [r] \<and> rq_Namespace r = ns \<and> rq_Resource r = ''httpscaledobjects''"
  using assms
  by (auto simp: newHTTPScaledObjects_def recording_def rest_request_def hso_Get_def hso_List_def hso_Watch_def
      hso_Create_def hso_Update_def hso_UpdateStatus_def hso_Delete_def hso_DeleteCollection_def hso_Patch_def)

text \<open>The fake names another API group than the resource has.\<close>

lemma fake_group_differs: "httpscaledobjectsResource \<noteq> WithResource SchemeGroupVersion ''httpscaledobjects''"
  by (simp add: httpscaledobjectsResource_def WithResource_def SchemeGroupVersion_def)

text \<open>
  An indexer that keeps objects under namespace and name: a namespace lister returns the object of
  that name, or the error NotFound, for namespaces and names without a slash.
\<close>

definition stored_indexer :: "HTTPScaledObject list \<Rightarrow> 'q Indexer" where
  "stored_indexer objs =
     \<lparr>ix_ListAll = (\<lambda>_. (map FObject objs, None)),
      ix_ListAllByNamespace = (\<lambda>ns _. (map FObject (filter (\<lambda>o1. ho_Namespace o1 = ns) objs), None)),
      ix_GetByKey = (\<lambda>k. Inr (map_option FObject (List.find (\<lambda>o1. ho_Namespace o1 @ ''/'' @ ho_Name o1 = k) objs)))\<rparr>"

lemma key_eq:
  "CHR ''/'' \<notin> set a \<Longrightarrow> CHR ''/'' \<notin> set c \<Longrightarrow> a @ ''/'' @ b = c @ ''/'' @ d \<longleftrightarrow> a = c \<and> b = d"
  by (auto simp: append_eq_append_conv2 append_eq_Cons_conv Cons_eq_append_conv)

lemma NamespaceLister_Get_stored:
  assumes "CHR ''/'' \<notin> set ns" "\<forall>o1 \<in> set objs. CHR ''/'' \<notin> set (ho_Namespace o1)"
  shows "(case List.find (\<lambda>o1. ho_Namespace o1 = ns \<and> ho_Name o1 = name) objs of
       Some obj \<Rightarrow> NamespaceLister_Get (stored_indexer objs) ns name = Ret (Inr obj)
     | None \<Rightarrow> (\<exists>s. NamespaceLister_Get (stored_indexer objs) ns name = Ret (Inl (StatusNotFound s))))"
proof -
  have "List.find (\<lambda>o1. ho_Namespace o1 @ ''/'' @ ho_Name o1 = ns @ ''/'' @ name) objs =
      List.find (\<lambda>o1. ho_Namespace o1 = ns \<and> ho_Name o1 = name) objs"
    using assms by (intro find_cong refl) (use key_eq in auto)
  then show ?thesis
    by (auto simp: NamespaceLister_Get_def stored_indexer_def split: option.split)
qed

end
