(* ===== verification/Clientset.thy ===== *)
theory Clientset
  imports Generated
begin

text \<open>
  The constructors of the generated clients of \<open>operator/generated\<close>: the client of the API group and
  the clientset around it, the fake clientset, and the accessors that lead from an informer factory
  to the informer and the lister of the resource. The constructors of client-go (HTTP clients, REST
  clients, discovery clients, rate limiters, object trackers) are parameters.
\<close>

section \<open>Configurations\<close>

text \<open>The fields of \<open>rest.Config\<close> that the constructors read or write; \<open>QPS\<close> in thousandths.\<close>

record 'rl RestConfig =
  rc_UserAgent :: string
  rc_QPS :: int
  rc_Burst :: gint
  rc_RateLimiter :: "'rl option"
  rc_GroupVersion :: "(string \<times> string) option"
  rc_APIPath :: string
  rc_NegotiatedSerializer :: "string option"

definition setConfigDefaults :: "string \<Rightarrow> 'rl RestConfig \<Rightarrow> 'rl RestConfig \<times> error option" where
  "setConfigDefaults defaultUserAgent config =
     (let config1 = config\<lparr>rc_GroupVersion := Some SchemeGroupVersion, rc_APIPath := ''/apis'',
            rc_NegotiatedSerializer := Some ''scheme.Codecs.WithoutConversion''\<rparr> in
      (if rc_UserAgent config1 = [] then config1\<lparr>rc_UserAgent := defaultUserAgent\<rparr> else config1, None))"

section \<open>The client of the group\<close>

record ('w, 'v) HttpV1alpha1Client =
  restClient :: "('w, 'v) RestClient"

text \<open>What the constructors call of client-go.\<close>

record ('rl, 'h, 'd, 'w, 'v) RestLib =
  lib_UserAgent :: string
  lib_HTTPClientFor :: "'rl RestConfig \<Rightarrow> error + 'h"
  lib_RESTClientFor :: "'rl RestConfig \<Rightarrow> 'h \<Rightarrow> error + ('w, 'v) RestClient"
  lib_DiscoveryFor :: "'rl RestConfig \<Rightarrow> 'h \<Rightarrow> error + 'd"
  lib_NewDiscovery :: "('w, 'v) RestClient \<Rightarrow> 'd"
  lib_RateLimiter :: "int \<Rightarrow> gint \<Rightarrow> 'rl"

definition typed_NewForConfigAndClient ::
    "('rl, 'h, 'd, 'w, 'v) RestLib \<Rightarrow> 'rl RestConfig \<Rightarrow> 'h \<Rightarrow> error + ('w, 'v) HttpV1alpha1Client" where
  "typed_NewForConfigAndClient L c h =
     (case setConfigDefaults (lib_UserAgent L) c of
        (config, Some err) \<Rightarrow> Inl err
      | (config, None) \<Rightarrow>
          (case lib_RESTClientFor L config h of Inl err \<Rightarrow> Inl err | Inr client \<Rightarrow> Inr \<lparr>restClient = client\<rparr>))"

definition typed_NewForConfig ::
    "('rl, 'h, 'd, 'w, 'v) RestLib \<Rightarrow> 'rl RestConfig \<Rightarrow> error + ('w, 'v) HttpV1alpha1Client" where
  "typed_NewForConfig L c =
     (case setConfigDefaults (lib_UserAgent L) c of
        (config, Some err) \<Rightarrow> Inl err
      | (config, None) \<Rightarrow>
          (case lib_HTTPClientFor L config of
             Inl err \<Rightarrow> Inl err | Inr httpClient \<Rightarrow> typed_NewForConfigAndClient L config httpClient))"

definition typed_NewForConfigOrDie ::
    "('rl, 'h, 'd, 'w, 'v) RestLib \<Rightarrow> 'rl RestConfig \<Rightarrow> ('w, 'v) HttpV1alpha1Client go" where
  "typed_NewForConfigOrDie L c =
     (case typed_NewForConfig L c of Inl err \<Rightarrow> Panic (error_text err) | Inr client \<Rightarrow> Ret client)"

definition typed_New :: "('w, 'v) RestClient \<Rightarrow> ('w, 'v) HttpV1alpha1Client" where
  "typed_New c = \<lparr>restClient = c\<rparr>"

definition typed_RESTClient :: "('w, 'v) HttpV1alpha1Client option \<Rightarrow> ('w, 'v) RestClient option" where
  "typed_RESTClient c = map_option restClient c"

text \<open>A method on a nil client is a nil dereference at its first request.\<close>

definition typed_HTTPScaledObjects ::
    "('w, 'v) HttpV1alpha1Client \<Rightarrow> string \<Rightarrow> ('w, 'v) hTTPScaledObjects" where
  "typed_HTTPScaledObjects c namespace = newHTTPScaledObjects (restClient c) namespace"

section \<open>The clientset\<close>

record ('d, 'w, 'v) Clientset =
  DiscoveryClient :: 'd
  httpV1alpha1 :: "('w, 'v) HttpV1alpha1Client"

definition Clientset_HttpV1alpha1 :: "('d, 'w, 'v) Clientset \<Rightarrow> ('w, 'v) HttpV1alpha1Client" where
  "Clientset_HttpV1alpha1 c = httpV1alpha1 c"

definition Clientset_Discovery :: "('d, 'w, 'v) Clientset option \<Rightarrow> 'd option" where
  "Clientset_Discovery c = (case c of None \<Rightarrow> None | Some cs \<Rightarrow> Some (DiscoveryClient cs))"

definition burst_error :: error where
  "burst_error = Errorf ''burst is required to be greater than 0 when RateLimiter is not set and QPS is set to greater than 0''"

definition Clientset_NewForConfigAndClient ::
    "('rl, 'h, 'd, 'w, 'v) RestLib \<Rightarrow> 'rl RestConfig \<Rightarrow> 'h \<Rightarrow> error + ('d, 'w, 'v) Clientset" where
  "Clientset_NewForConfigAndClient L c httpClient =
     (if rc_RateLimiter c = None \<and> 0 < rc_QPS c \<and> rc_Burst c \<le>s 0 then Inl burst_error
      else
        (let configShallowCopy =
               (if rc_RateLimiter c = None \<and> 0 < rc_QPS c
                then c\<lparr>rc_RateLimiter := Some (lib_RateLimiter L (rc_QPS c) (rc_Burst c))\<rparr> else c) in
         case typed_NewForConfigAndClient L configShallowCopy httpClient of
           Inl err \<Rightarrow> Inl err
         | Inr http \<Rightarrow>
             (case lib_DiscoveryFor L configShallowCopy httpClient of
                Inl err \<Rightarrow> Inl err
              | Inr disc \<Rightarrow> Inr \<lparr>DiscoveryClient = disc, httpV1alpha1 = http\<rparr>)))"

definition Clientset_NewForConfig ::
    "('rl, 'h, 'd, 'w, 'v) RestLib \<Rightarrow> 'rl RestConfig \<Rightarrow> error + ('d, 'w, 'v) Clientset" where
  "Clientset_NewForConfig L c =
     (let configShallowCopy = (if rc_UserAgent c = [] then c\<lparr>rc_UserAgent := lib_UserAgent L\<rparr> else c) in
      case lib_HTTPClientFor L configShallowCopy of
        Inl err \<Rightarrow> Inl err
      | Inr httpClient \<Rightarrow> Clientset_NewForConfigAndClient L configShallowCopy httpClient)"

definition Clientset_NewForConfigOrDie ::
    "('rl, 'h, 'd, 'w, 'v) RestLib \<Rightarrow> 'rl RestConfig \<Rightarrow> ('d, 'w, 'v) Clientset go" where
  "Clientset_NewForConfigOrDie L c =
     (case Clientset_NewForConfig L c of Inl err \<Rightarrow> Panic (error_text err) | Inr cs \<Rightarrow> Ret cs)"

definition Clientset_New :: "('rl, 'h, 'd, 'w, 'v) RestLib \<Rightarrow> ('w, 'v) RestClient \<Rightarrow> ('d, 'w, 'v) Clientset" where
  "Clientset_New L c = \<lparr>DiscoveryClient = lib_NewDiscovery L c, httpV1alpha1 = typed_New c\<rparr>"

section \<open>From the factory to informer and lister\<close>

record 'f informer_access =
  ia_factory :: 'f
  ia_namespace :: string
  ia_tweakListOptions :: tweak

text \<open>The group, the version and the informer of the resource hand the same three fields on.\<close>

definition group_New :: "'f \<Rightarrow> string \<Rightarrow> tweak \<Rightarrow> 'f informer_access" where
  "group_New f namespace t = \<lparr>ia_factory = f, ia_namespace = namespace, ia_tweakListOptions = t\<rparr>"

definition version_New :: "'f \<Rightarrow> string \<Rightarrow> tweak \<Rightarrow> 'f informer_access" where
  "version_New f namespace t = \<lparr>ia_factory = f, ia_namespace = namespace, ia_tweakListOptions = t\<rparr>"

definition group_V1alpha1 :: "'f informer_access \<Rightarrow> 'f informer_access" where
  "group_V1alpha1 g = version_New (ia_factory g) (ia_namespace g) (ia_tweakListOptions g)"

definition version_HTTPScaledObjects :: "'f informer_access \<Rightarrow> 'f informer_access" where
  "version_HTTPScaledObjects v =
     \<lparr>ia_factory = ia_factory v, ia_namespace = ia_namespace v, ia_tweakListOptions = ia_tweakListOptions v\<rparr>"

definition factory_Http :: "'i sharedInformerFactory \<Rightarrow> 'i sharedInformerFactory informer_access" where
  "factory_Http f = group_New f (fac_namespace f) (fac_tweakListOptions f)"

type_synonym ('w, 'v, 'i) informer_maker =
  "(ListOptions \<Rightarrow> 'w \<Rightarrow> 'w \<times> (error + HTTPScaledObject list)) \<Rightarrow> (ListOptions \<Rightarrow> 'w \<Rightarrow> 'w \<times> (error + 'v)) \<Rightarrow> gint \<Rightarrow> 'i"

definition NewHTTPScaledObjectInformer ::
    "('w, 'v, 'i) informer_maker \<Rightarrow> ('w, 'v) RestClient \<Rightarrow> string \<Rightarrow> gint \<Rightarrow> 'i" where
  "NewHTTPScaledObjectInformer mk client namespace resyncPeriod =
     NewFilteredHTTPScaledObjectInformer mk client namespace resyncPeriod None"

definition defaultInformer ::
    "('w, 'v, 'i) informer_maker \<Rightarrow> ('w, 'v) RestClient \<Rightarrow> 'i sharedInformerFactory informer_access \<Rightarrow> gint \<Rightarrow> 'i" where
  "defaultInformer mk client a resyncPeriod =
     NewFilteredHTTPScaledObjectInformer mk client (ia_namespace a) resyncPeriod (ia_tweakListOptions a)"

definition access_Informer ::
    "('w, 'v, 'i) informer_maker \<Rightarrow> ('w, 'v) RestClient \<Rightarrow> 'i sharedInformerFactory informer_access \<Rightarrow>
     'i sharedInformerFactory \<times> 'i" where
  "access_Informer mk client a = factory_InformerFor HTTPScaledObjectType (defaultInformer mk client a) (ia_factory a)"

record 'q hTTPScaledObjectLister =
  lister_indexer :: "'q Indexer"

record 'q hTTPScaledObjectNamespaceLister =
  nslister_indexer :: "'q Indexer"
  nslister_namespace :: string

definition NewHTTPScaledObjectLister :: "'q Indexer \<Rightarrow> 'q hTTPScaledObjectLister" where
  "NewHTTPScaledObjectLister indexer = \<lparr>lister_indexer = indexer\<rparr>"

definition Lister_HTTPScaledObjects :: "'q hTTPScaledObjectLister \<Rightarrow> string \<Rightarrow> 'q hTTPScaledObjectNamespaceLister" where
  "Lister_HTTPScaledObjects s namespace = \<lparr>nslister_indexer = lister_indexer s, nslister_namespace = namespace\<rparr>"

definition access_Lister ::
    "('i \<Rightarrow> 'q Indexer) \<Rightarrow> ('w, 'v, 'i) informer_maker \<Rightarrow> ('w, 'v) RestClient \<Rightarrow> 'i sharedInformerFactory informer_access \<Rightarrow>
     'i sharedInformerFactory \<times> 'q hTTPScaledObjectLister" where
  "access_Lister getIndexer mk client a =
     (case access_Informer mk client a of (f', informer) \<Rightarrow> (f', NewHTTPScaledObjectLister (getIndexer informer)))"

record 'i genericInformer =
  gi_informer :: 'i
  gi_resource :: "string \<times> string"

definition genericInformer_Lister :: "('i \<Rightarrow> 'x) \<Rightarrow> ('x \<Rightarrow> string \<times> string \<Rightarrow> 'l) \<Rightarrow> 'i genericInformer \<Rightarrow> 'l" where
  "genericInformer_Lister getIndexer newGenericLister f = newGenericLister (getIndexer (gi_informer f)) (gi_resource f)"

section \<open>The fake clientset\<close>

primrec action_resource :: "fake_action \<Rightarrow> GroupVersionResource" where
  "action_resource (GetAction r ns n) = r"
| "action_resource (ListAction r k ns opts) = r"
| "action_resource (WatchAction r ns opts) = r"
| "action_resource (CreateAction r ns obj) = r"
| "action_resource (UpdateAction r ns obj) = r"
| "action_resource (UpdateSubresourceAction r sub ns obj) = r"
| "action_resource (DeleteAction r ns n opts) = r"
| "action_resource (DeleteCollectionAction r ns opts) = r"
| "action_resource (PatchSubresourceAction r ns n pt d subs) = r"

primrec action_namespace :: "fake_action \<Rightarrow> string" where
  "action_namespace (GetAction r ns n) = ns"
| "action_namespace (ListAction r k ns opts) = ns"
| "action_namespace (WatchAction r ns opts) = ns"
| "action_namespace (CreateAction r ns obj) = ns"
| "action_namespace (UpdateAction r ns obj) = ns"
| "action_namespace (UpdateSubresourceAction r sub ns obj) = ns"
| "action_namespace (DeleteAction r ns n opts) = ns"
| "action_namespace (DeleteCollectionAction r ns opts) = ns"
| "action_namespace (PatchSubresourceAction r ns n pt d subs) = ns"

text \<open>
  A tracker \<open>'tr\<close> of client-go with what the clientset calls of it: \<open>Add\<close>, \<open>Watch\<close> and the reaction
  \<open>ObjectReaction\<close> makes of it. A reactor is a verb and resource pattern with a reaction.
\<close>

record ('tr, 'v) TrackerLib =
  trk_New :: 'tr
  trk_Add :: "fake_object \<Rightarrow> 'tr \<Rightarrow> error + 'tr"
  trk_Watch :: "GroupVersionResource \<Rightarrow> string \<Rightarrow> 'tr \<Rightarrow> error + 'v"
  trk_Reaction :: "'tr invokes"

record ('tr, 'v) FakeClientset =
  fcs_tracker :: 'tr
  fcs_reactors :: "(string \<times> string \<times> 'tr invokes) list"
  fcs_watchReactors :: "(string \<times> (fake_action \<Rightarrow> 'tr \<Rightarrow> bool \<times> 'v option \<times> error option)) list"

fun add_objects :: "('tr, 'v) TrackerLib \<Rightarrow> fake_object list \<Rightarrow> 'tr \<Rightarrow> 'tr go" where
  "add_objects T [] o1 = Ret o1"
| "add_objects T (obj # objects) o1 =
     (case trk_Add T obj o1 of Inl err \<Rightarrow> Panic (error_text err) | Inr o2 \<Rightarrow> add_objects T objects o2)"

definition watch_reaction ::
    "('tr, 'v) TrackerLib \<Rightarrow> fake_action \<Rightarrow> 'tr \<Rightarrow> bool \<times> 'v option \<times> error option" where
  "watch_reaction T action o1 =
     (let gvr = action_resource action; ns = action_namespace action in
      case trk_Watch T gvr ns o1 of
        Inl err \<Rightarrow> (False, None, Some err)
      | Inr w \<Rightarrow> (True, Some w, None))"

definition NewSimpleClientset :: "('tr, 'v) TrackerLib \<Rightarrow> fake_object list \<Rightarrow> ('tr, 'v) FakeClientset go" where
  "NewSimpleClientset T objects =
     bind_go (add_objects T objects (trk_New T)) (\<lambda>o1.
       Ret \<lparr>fcs_tracker = o1, fcs_reactors = [(''*'', ''*'', trk_Reaction T)],
         fcs_watchReactors = [(''*'', watch_reaction T)]\<rparr>)"

definition FakeClientset_Tracker :: "('tr, 'v) FakeClientset \<Rightarrow> 'tr" where
  "FakeClientset_Tracker c = fcs_tracker c"

text \<open>
  The fake client of the group: its \<open>RESTClient\<close> is an interface that is not nil and holds a nil
  pointer.
\<close>

definition FakeHttpV1alpha1_RESTClient :: "'c option option" where
  "FakeHttpV1alpha1_RESTClient = Some None"

section \<open>Clients talk to the group of the resource\<close>

text \<open>
  What a clientset is built from. With any configuration the REST client of the group is made
  for \<open>http.keda.sh/v1alpha1\<close> under \<open>/apis\<close>, with the user agent of the configuration or the
  default, and with a rate limiter whenever a rate is set, and the discovery client shares its
  HTTP client; a rate without a positive burst and without a limiter is refused, before any
  client is made.
\<close>

theorem clientset_from_config:
  "case Clientset_NewForConfig L c of
     Inr cs \<Rightarrow> \<exists>cfg cfg' h. lib_HTTPClientFor L cfg' = Inr h \<and>
       lib_RESTClientFor L cfg h = Inr (restClient (httpV1alpha1 cs)) \<and>
       rc_GroupVersion cfg = Some (''http.keda.sh'', ''v1alpha1'') \<and> rc_APIPath cfg = ''/apis'' \<and>
       rc_UserAgent cfg = (if rc_UserAgent c = [] then lib_UserAgent L else rc_UserAgent c) \<and>
       (rc_RateLimiter cfg = None \<longleftrightarrow> rc_RateLimiter c = None \<and> rc_QPS c \<le> 0) \<and>
       (\<exists>cfg2. lib_DiscoveryFor L cfg2 h = Inr (DiscoveryClient cs) \<and> rc_RateLimiter cfg2 = rc_RateLimiter cfg)
   | Inl err \<Rightarrow> (\<exists>cfg. lib_HTTPClientFor L cfg = Inl err) \<or>
       (rc_RateLimiter c = None \<and> 0 < rc_QPS c \<and> sint (rc_Burst c) \<le> 0 \<and> err = burst_error) \<or>
       (\<exists>cfg h. lib_RESTClientFor L cfg h = Inl err) \<or> (\<exists>cfg h. lib_DiscoveryFor L cfg h = Inl err)"
proof -
  define c1 where "c1 = (if rc_UserAgent c = [] then c\<lparr>rc_UserAgent := lib_UserAgent L\<rparr> else c)"
  have c1: "rc_RateLimiter c1 = rc_RateLimiter c" "rc_QPS c1 = rc_QPS c" "rc_Burst c1 = rc_Burst c"
    "rc_UserAgent c1 = (if rc_UserAgent c = [] then lib_UserAgent L else rc_UserAgent c)"
    by (simp_all add: c1_def)
  define c2 where "c2 = (if rc_RateLimiter c = None \<and> 0 < rc_QPS c
    then c1\<lparr>rc_RateLimiter := Some (lib_RateLimiter L (rc_QPS c) (rc_Burst c))\<rparr> else c1)"
  define c3 where "c3 = fst (setConfigDefaults (lib_UserAgent L) c2)"
  have c2: "rc_UserAgent c2 = rc_UserAgent c1" "rc_RateLimiter c2 = None \<longleftrightarrow> rc_RateLimiter c = None \<and> rc_QPS c \<le> 0"
    by (auto simp: c2_def c1)
  have c3: "rc_GroupVersion c3 = Some (''http.keda.sh'', ''v1alpha1'')" "rc_APIPath c3 = ''/apis''"
    "rc_UserAgent c3 = rc_UserAgent c1" "rc_RateLimiter c3 = rc_RateLimiter c2"
    using c1(4) by (simp_all add: c3_def setConfigDefaults_def SchemeGroupVersion_def c2(1) Let_def)
  have n1: "Clientset_NewForConfig L c =
      (case lib_HTTPClientFor L c1 of Inl err \<Rightarrow> Inl err | Inr h \<Rightarrow> Clientset_NewForConfigAndClient L c1 h)"
    unfolding Clientset_NewForConfig_def Let_def c1_def by (rule refl)
  have n2: "Clientset_NewForConfigAndClient L c1 h =
      (if rc_RateLimiter c = None \<and> 0 < rc_QPS c \<and> rc_Burst c \<le>s 0 then Inl burst_error
       else case typed_NewForConfigAndClient L c2 h of Inl err \<Rightarrow> Inl err
         | Inr http \<Rightarrow> (case lib_DiscoveryFor L c2 h of Inl err \<Rightarrow> Inl err
             | Inr disc \<Rightarrow> Inr \<lparr>DiscoveryClient = disc, httpV1alpha1 = http\<rparr>))" for h
    unfolding Clientset_NewForConfigAndClient_def Let_def c2_def c1 by (rule refl)
  have n3: "typed_NewForConfigAndClient L c2 h =
      (case lib_RESTClientFor L c3 h of Inl err \<Rightarrow> Inl err | Inr client \<Rightarrow> Inr \<lparr>restClient = client\<rparr>)" for h
    by (simp add: typed_NewForConfigAndClient_def c3_def setConfigDefaults_def Let_def)
  show ?thesis
  proof (cases "lib_HTTPClientFor L c1")
    case (Inl err)
    then show ?thesis unfolding n1 by auto
  next
    case h: (Inr h)
    show ?thesis
    proof (cases "Clientset_NewForConfigAndClient L c1 h")
      case (Inl err)
      then show ?thesis
        unfolding n1 h n2 n3 by (auto simp: word_sle_eq split: if_splits sum.splits)
    next
      case (Inr cs)
      then have "lib_RESTClientFor L c3 h = Inr (restClient (httpV1alpha1 cs))" "lib_DiscoveryFor L c2 h = Inr (DiscoveryClient cs)"
        unfolding n2 n3 by (auto split: if_splits sum.splits)
      then show ?thesis
        unfolding n1 h sum.case Inr using h c1(4) c2(2) c3 by (intro exI [of _ c3] exI [of _ c1] exI [of _ h]) auto
    qed
  qed
qed

section \<open>The fake misses what it was seeded with\<close>

text \<open>
  What client-go documents of the tracker: an object is stored under the resource of the group,
  version and kind that the scheme has for its type, with its namespace and name, and a get finds
  what is stored under its resource, namespace and name, or returns the error NotFound.
\<close>

definition tracker_laws :: "('tr, 'v) TrackerLib \<Rightarrow> ('tr \<Rightarrow> GroupVersionResource \<times> string \<times> string \<Rightarrow> fake_object option) \<Rightarrow> bool" where
  "tracker_laws T stored \<longleftrightarrow>
     stored (trk_New T) = Map.empty \<and>
     (\<forall>obj t t'. trk_Add T (FObject obj) t = Inr t' \<longrightarrow>
        stored t' = (stored t)((WithResource SchemeGroupVersion ''httpscaledobjects'', ho_Namespace obj, ho_Name obj) \<mapsto> FObject obj)) \<and>
     (\<forall>r ns name t. trk_Reaction T (GetAction r ns name) t =
        (case stored t (r, ns, name) of
           Some x \<Rightarrow> (t, Some x, None) | None \<Rightarrow> (t, None, Some (StatusNotFound name))))"

lemma add_objects_group:
  assumes "tracker_laws T stored" "add_objects T (map FObject objs) t = Ret t'"
    and "\<forall>k \<in> dom (stored t). gvr_Group (fst k) = ''http.keda.sh''"
  shows "\<forall>k \<in> dom (stored t'). gvr_Group (fst k) = ''http.keda.sh''"
  using assms(2,3)
proof (induction objs arbitrary: t)
  case (Cons obj objs)
  then obtain t1 where t1: "trk_Add T (FObject obj) t = Inr t1" "add_objects T (map FObject objs) t1 = Ret t'"
    by (auto split: sum.splits)
  have "stored t1 = (stored t)((WithResource SchemeGroupVersion ''httpscaledobjects'', ho_Namespace obj, ho_Name obj) \<mapsto> FObject obj)"
    using assms(1) t1(1) unfolding tracker_laws_def by blast
  then have "\<forall>k \<in> dom (stored t1). gvr_Group (fst k) = ''http.keda.sh''"
    using Cons.prems(2) by (auto simp: WithResource_def SchemeGroupVersion_def)
  with Cons.IH t1(2) show ?case by blast
qed simp

text \<open>
  C38: The fake client does not find the objects of its clientset. A fake clientset that was made
  with some objects answers every \<open>Get\<close> of its client with NotFound, also for those objects: the
  tracker keeps them under the group \<open>http.keda.sh\<close> and the client asks for the group \<open>http\<close>.
\<close>

theorem fake_misses_seeded_objects:
  assumes "tracker_laws T stored" "NewSimpleClientset T (map FObject objs) = Ret cs"
  shows "fcs_reactors cs = [(''*'', ''*'', trk_Reaction T)] \<and>
    Fake_Get (trk_Reaction T) ns name (FakeClientset_Tracker cs) =
      Ret (FakeClientset_Tracker cs, None, Some (StatusNotFound name))"
proof -
  have add: "add_objects T (map FObject objs) (trk_New T) = Ret (fcs_tracker cs)"
    "fcs_reactors cs = [(''*'', ''*'', trk_Reaction T)]"
    using assms(2) by (cases "add_objects T (map FObject objs) (trk_New T)"; auto simp: NewSimpleClientset_def)+
  have "stored (trk_New T) = Map.empty" using assms(1) by (simp add: tracker_laws_def)
  then have "\<forall>k \<in> dom (stored (fcs_tracker cs)). gvr_Group (fst k) = ''http.keda.sh''"
    by (intro add_objects_group [OF assms(1) add(1)]) simp
  then have "stored (fcs_tracker cs) (httpscaledobjectsResource, ns, name) = None"
    by (force simp: httpscaledobjectsResource_def)
  moreover have "trk_Reaction T (GetAction httpscaledobjectsResource ns name) (fcs_tracker cs) =
      (case stored (fcs_tracker cs) (httpscaledobjectsResource, ns, name) of
         Some x \<Rightarrow> (fcs_tracker cs, Some x, None) | None \<Rightarrow> (fcs_tracker cs, None, Some (StatusNotFound name)))"
    using assms(1) unfolding tracker_laws_def by blast
  ultimately show ?thesis using add(2) by (simp add: Fake_Get_def FakeClientset_Tracker_def fake_result_def)
qed

text \<open>A tracker as a map.\<close>

definition map_tracker :: "(GroupVersionResource \<times> string \<times> string \<Rightarrow> fake_object option, unit) TrackerLib" where
  "map_tracker =
     \<lparr>trk_New = Map.empty,
      trk_Add = (\<lambda>x t. case x of
        FObject obj \<Rightarrow> Inr (t((WithResource SchemeGroupVersion ''httpscaledobjects'', ho_Namespace obj, ho_Name obj) \<mapsto> x))
      | _ \<Rightarrow> Inl (Errorf ''no kind'')),
      trk_Watch = (\<lambda>_ _ _. Inr ()),
      trk_Reaction = (\<lambda>a t. case a of
        GetAction r ns name \<Rightarrow> (case t (r, ns, name) of
          Some x \<Rightarrow> (t, Some x, None) | None \<Rightarrow> (t, None, Some (StatusNotFound name)))
      | _ \<Rightarrow> (t, None, None))\<rparr>"

theorem fake_misses_seeded_objects_witness:
  "\<exists>cs t. NewSimpleClientset map_tracker [FObject sample_object] = Ret cs \<and>
     Fake_Get (trk_Reaction map_tracker) ''ns'' ''xkcd'' (FakeClientset_Tracker cs) = Ret (t, None, Some (StatusNotFound ''xkcd''))"
proof -
  have laws: "tracker_laws map_tracker id" by (auto simp: tracker_laws_def map_tracker_def)
  obtain cs where cs: "NewSimpleClientset map_tracker (map FObject [sample_object]) = Ret cs"
    by (simp add: NewSimpleClientset_def map_tracker_def)
  from fake_misses_seeded_objects [OF laws cs, of "''ns''" "''xkcd''"] cs show ?thesis by auto
qed

end
