(* ===== verification/Schemes.thy ===== *)
theory Schemes
  imports Clientset
begin

text \<open>
  The registration of the resource with schemes: \<open>groupversion_info.go\<close> and the \<open>init\<close> functions of
  the API package, of the generated clientset and its fake, and of \<open>operator/main.go\<close>. Schemes and
  their builders belong to apimachinery and controller-runtime and are parameters; a Go type is its
  name.
\<close>

section \<open>The libraries\<close>

text \<open>
  A builder of controller-runtime for a group and version, to which objects are registered; the
  list of functions that apimachinery calls a scheme builder; and the registrations of other packages.
\<close>

type_synonym 'sch add_to_scheme = "'sch \<Rightarrow> 'sch \<times> error option"

record ('b, 'sch) SchemeLib =
  sl_NewBuilder :: "string \<times> string \<Rightarrow> 'b"
  sl_Register :: "string list \<Rightarrow> 'b \<Rightarrow> 'b"
  sl_AddToScheme :: "'b \<Rightarrow> 'sch add_to_scheme"
  sl_RunAll :: "'sch add_to_scheme list \<Rightarrow> 'sch add_to_scheme"
  sl_NewScheme :: 'sch
  sl_AddToGroupVersion :: "string \<times> string \<Rightarrow> 'sch \<Rightarrow> 'sch"
  sl_clientgo :: "'sch add_to_scheme"
  sl_keda :: "'sch add_to_scheme"

definition Must :: "'sch \<times> error option \<Rightarrow> 'sch go" where
  "Must res = (case res of (sch, None) \<Rightarrow> Ret sch | (sch, Some err) \<Rightarrow> Panic (error_text err))"

section \<open>Registration\<close>

definition SchemeBuilder :: "('b, 'sch) SchemeLib \<Rightarrow> 'b" where
  "SchemeBuilder L = sl_NewBuilder L SchemeGroupVersion"

text \<open>The \<open>init\<close> of the API package, which registers the object and its list with the builder.\<close>

definition v1alpha1_init :: "('b, 'sch) SchemeLib \<Rightarrow> 'b \<Rightarrow> 'b" where
  "v1alpha1_init L b = sl_Register L [''HTTPScaledObject'', ''HTTPScaledObjectList''] b"

text \<open>\<open>AddToScheme\<close> is bound to the builder itself, so that it sees what \<open>init\<close> registers.\<close>

definition v1alpha1_AddToScheme :: "('b, 'sch) SchemeLib \<Rightarrow> 'sch add_to_scheme" where
  "v1alpha1_AddToScheme L = sl_AddToScheme L (v1alpha1_init L (SchemeBuilder L))"

definition localSchemeBuilder :: "('b, 'sch) SchemeLib \<Rightarrow> 'sch add_to_scheme list" where
  "localSchemeBuilder L = [v1alpha1_AddToScheme L]"

definition clientset_AddToScheme :: "('b, 'sch) SchemeLib \<Rightarrow> 'sch add_to_scheme" where
  "clientset_AddToScheme L = sl_RunAll L (localSchemeBuilder L)"

definition clientset_scheme_init :: "('b, 'sch) SchemeLib \<Rightarrow> 'sch go" where
  "clientset_scheme_init L =
     Must (clientset_AddToScheme L (sl_AddToGroupVersion L ([], ''v1'') (sl_NewScheme L)))"

definition fake_localSchemeBuilder :: "('b, 'sch) SchemeLib \<Rightarrow> 'sch add_to_scheme list" where
  "fake_localSchemeBuilder L = [v1alpha1_AddToScheme L]"

definition fake_scheme_init :: "('b, 'sch) SchemeLib \<Rightarrow> 'sch go" where
  "fake_scheme_init L =
     Must (sl_RunAll L (fake_localSchemeBuilder L) (sl_AddToGroupVersion L ([], ''v1'') (sl_NewScheme L)))"

definition operator_init :: "('b, 'sch) SchemeLib \<Rightarrow> 'sch go" where
  "operator_init L =
     bind_go (Must (sl_clientgo L (sl_NewScheme L))) (\<lambda>s1.
     bind_go (Must (v1alpha1_AddToScheme L s1)) (\<lambda>s2.
     Must (sl_keda L s2)))"

section \<open>The fake client of the group\<close>

text \<open>The fake shares the recorder of actions of its clientset with the client of every namespace.\<close>

record 'tr FakeHttpV1alpha1 =
  fh_Fake :: "'tr invokes"

record 'tr FakeHTTPScaledObjects =
  fho_Fake :: "'tr FakeHttpV1alpha1"
  fho_ns :: string

definition FakeClientset_HttpV1alpha1 :: "'tr invokes \<Rightarrow> 'tr FakeHttpV1alpha1" where
  "FakeClientset_HttpV1alpha1 fake = \<lparr>fh_Fake = fake\<rparr>"

definition FakeHttpV1alpha1_HTTPScaledObjects :: "string \<Rightarrow> 'tr FakeHttpV1alpha1 \<Rightarrow> 'tr FakeHTTPScaledObjects" where
  "FakeHttpV1alpha1_HTTPScaledObjects namespace c = \<lparr>fho_Fake = c, fho_ns = namespace\<rparr>"

section \<open>What the schemes know\<close>

text \<open>
  What is assumed of the libraries, where \<open>knows\<close> is what a scheme recognises and a type is known
  under a group, a version and its name. Objects that were registered with a new builder are added
  under its group and version, without an error for a scheme that does not know them yet; a builder
  also adds the types of \<open>metav1\<close>, as \<open>AddToGroupVersion\<close> does, under any version of its own group (the
  internal one among them) and under the group without a name, and nothing else. A list of one
  function runs that function. The types of client-go are added to a new scheme without an error,
  none of them in a group of KEDA; those of KEDA are added without an error to a scheme that knows no
  type of their group. Nothing that is added takes a type away.
\<close>

definition scheme_laws :: "('b, 'sch) SchemeLib \<Rightarrow> ('sch \<Rightarrow> (string \<times> string) \<times> string \<Rightarrow> bool) \<Rightarrow> bool" where
  "scheme_laws L knows \<longleftrightarrow>
     (\<forall>gv objs sch. (\<forall>x \<in> set objs. \<not> knows sch (gv, x)) \<longrightarrow>
        (\<exists>sch'. sl_AddToScheme L (sl_Register L objs (sl_NewBuilder L gv)) sch = (sch', None) \<and>
          (\<forall>x \<in> set objs. knows sch' (gv, x)) \<and>
          (\<forall>g v x. knows sch' ((g, v), x) \<longrightarrow> knows sch ((g, v), x) \<or> g = fst gv \<or> g = []))) \<and>
     (\<forall>f sch. sl_RunAll L [f] sch = f sch) \<and>
     (\<forall>k. \<not> knows (sl_NewScheme L) k) \<and>
     (\<forall>gv g v x sch. knows (sl_AddToGroupVersion L gv sch) ((g, v), x) \<longrightarrow> knows sch ((g, v), x) \<or> g = fst gv \<or> g = []) \<and>
     (\<exists>sch'. sl_clientgo L (sl_NewScheme L) = (sch', None) \<and>
        (\<forall>g v x. g \<in> {''keda.sh'', ''http.keda.sh''} \<longrightarrow> \<not> knows sch' ((g, v), x))) \<and>
     (\<forall>sch. (\<forall>v x. \<not> knows sch ((''keda.sh'', v), x)) \<longrightarrow>
        (\<exists>sch'. sl_keda L sch = (sch', None) \<and> (\<forall>k. knows sch k \<longrightarrow> knows sch' k)))"

lemmas scheme_lawsD = scheme_laws_def [THEN iffD1]

lemmas law_AddToScheme = scheme_lawsD [THEN conjunct1, THEN spec, THEN spec, THEN spec, THEN mp]
  and law_RunAll = scheme_lawsD [THEN conjunct2, THEN conjunct1, THEN spec, THEN spec]
  and law_NewScheme = scheme_lawsD [THEN conjunct2, THEN conjunct2, THEN conjunct1, THEN spec]
  and law_AddToGroupVersion = scheme_lawsD [THEN conjunct2, THEN conjunct2, THEN conjunct2, THEN conjunct1, rule_format]
  and law_clientgo = scheme_lawsD [THEN conjunct2, THEN conjunct2, THEN conjunct2, THEN conjunct2, THEN conjunct1]
  and law_keda = scheme_lawsD [THEN conjunct2, THEN conjunct2, THEN conjunct2, THEN conjunct2, THEN conjunct2, THEN spec, THEN mp]

abbreviation knows_resource :: "('sch \<Rightarrow> (string \<times> string) \<times> string \<Rightarrow> bool) \<Rightarrow> 'sch \<Rightarrow> bool" where
  "knows_resource knows sch \<equiv> knows sch ((''http.keda.sh'', ''v1alpha1''), ''HTTPScaledObject'') \<and>
     knows sch ((''http.keda.sh'', ''v1alpha1''), ''HTTPScaledObjectList'')"

lemma v1alpha1_AddToScheme_knows:
  assumes "scheme_laws L knows" "\<And>v x. \<not> knows sch ((''http.keda.sh'', v), x)"
  obtains sch' where "v1alpha1_AddToScheme L sch = (sch', None)" "knows_resource knows sch'"
    "\<forall>v x. knows sch' ((''keda.sh'', v), x) \<longrightarrow> knows sch ((''keda.sh'', v), x)"
proof -
  let ?objs = "[''HTTPScaledObject'', ''HTTPScaledObjectList'']"
  have gv: "SchemeGroupVersion = (''http.keda.sh'', ''v1alpha1'')" by (simp add: SchemeGroupVersion_def)
  have "\<forall>x \<in> set ?objs. \<not> knows sch (SchemeGroupVersion, x)" using assms(2) by (simp add: gv)
  from law_AddToScheme [OF assms(1) this] obtain sch' where
    "sl_AddToScheme L (sl_Register L ?objs (sl_NewBuilder L SchemeGroupVersion)) sch = (sch', None)"
    "\<forall>x \<in> set ?objs. knows sch' (SchemeGroupVersion, x)"
    "\<forall>g v x. knows sch' ((g, v), x) \<longrightarrow> knows sch ((g, v), x) \<or> g = fst SchemeGroupVersion \<or> g = []"
    by blast
  then show thesis
    by (intro that [of sch']) (auto simp: v1alpha1_AddToScheme_def v1alpha1_init_def SchemeBuilder_def gv)
qed

text \<open>
  C37: Every scheme knows the resource. The initialisation of the operator, of the clientset and of the
  fake clientset does not panic, and the schemes they leave know both the object and its list under
  the group \<open>http.keda.sh\<close> and the version \<open>v1alpha1\<close>.
\<close>

theorem schemes_know_the_resource:
  assumes "scheme_laws L knows"
    and "scheme \<in> {operator_init L, clientset_scheme_init L, fake_scheme_init L}"
  shows "\<exists>sch. scheme = Ret sch \<and> knows sch ((''http.keda.sh'', ''v1alpha1''), ''HTTPScaledObject'') \<and>
    knows sch ((''http.keda.sh'', ''v1alpha1''), ''HTTPScaledObjectList'')"
proof -
  note run = law_RunAll [OF assms(1)]
  have "\<not> knows (sl_AddToGroupVersion L ([], ''v1'') (sl_NewScheme L)) ((''http.keda.sh'', v), x)" for v x
    using law_AddToGroupVersion [OF assms(1)] law_NewScheme [OF assms(1)] by fastforce
  then obtain s1 where s1: "v1alpha1_AddToScheme L (sl_AddToGroupVersion L ([], ''v1'') (sl_NewScheme L)) = (s1, None)"
    "knows_resource knows s1" by (rule v1alpha1_AddToScheme_knows [OF assms(1)])
  obtain o1 where o1: "sl_clientgo L (sl_NewScheme L) = (o1, None)"
    "\<And>v x. \<not> knows o1 ((''http.keda.sh'', v), x)" "\<And>v x. \<not> knows o1 ((''keda.sh'', v), x)"
    using law_clientgo [OF assms(1)] by auto
  from o1(2) obtain o2 where o2: "v1alpha1_AddToScheme L o1 = (o2, None)" "knows_resource knows o2"
    "\<forall>v x. knows o2 ((''keda.sh'', v), x) \<longrightarrow> knows o1 ((''keda.sh'', v), x)"
    by (rule v1alpha1_AddToScheme_knows [OF assms(1)])
  have "\<forall>v x. \<not> knows o2 ((''keda.sh'', v), x)" using o1(3) o2(3) by blast
  from law_keda [OF assms(1) this] obtain o3 where o3: "sl_keda L o2 = (o3, None)" "\<forall>k. knows o2 k \<longrightarrow> knows o3 k" by blast
  have "clientset_scheme_init L = Ret s1" "fake_scheme_init L = Ret s1" "operator_init L = Ret o3"
    using s1(1) o1(1) o2(1) o3(1) run
    by (simp_all add: clientset_scheme_init_def fake_scheme_init_def operator_init_def clientset_AddToScheme_def
        localSchemeBuilder_def fake_localSchemeBuilder_def Must_def)
  with assms(2) s1(2) o2(2) o3(2) show ?thesis by blast
qed

text \<open>Schemes as sets of types, for which the assumptions hold.\<close>

fun run_all :: "'sch add_to_scheme list \<Rightarrow> 'sch add_to_scheme" where
  "run_all [] sch = (sch, None)"
| "run_all (f # fs) sch = (case f sch of (sch', None) \<Rightarrow> run_all fs sch' | (sch', Some err) \<Rightarrow> (sch', Some err))"

definition meta_types :: "string \<times> string \<Rightarrow> ((string \<times> string) \<times> string) set" where
  "meta_types gv = {(gv, ''WatchEvent''), (gv, ''ListOptions''), ((fst gv, ''__internal''), ''WatchEvent''), (([], ''v1''), ''Status'')}"

definition set_schemes :: "((string \<times> string) \<times> string list, ((string \<times> string) \<times> string) set) SchemeLib" where
  "set_schemes =
     \<lparr>sl_NewBuilder = \<lambda>gv. (gv, []), sl_Register = \<lambda>objs b. (fst b, snd b @ objs),
      sl_AddToScheme = \<lambda>b sch. (sch \<union> Pair (fst b) ` set (snd b) \<union> meta_types (fst b), None), sl_RunAll = run_all,
      sl_NewScheme = {}, sl_AddToGroupVersion = \<lambda>gv sch. sch \<union> meta_types gv,
      sl_clientgo = \<lambda>sch. (insert (([], ''v1''), ''ConfigMap'') sch, None),
      sl_keda = \<lambda>sch. (insert ((''keda.sh'', ''v1alpha1''), ''ScaledObject'') sch, None)\<rparr>"

lemma set_schemes_laws: "scheme_laws set_schemes (\<lambda>sch k. k \<in> sch)"
  by (auto simp: scheme_laws_def set_schemes_def meta_types_def split: prod.split option.split)

theorem schemes_know_the_resource_witness:
  "\<exists>sch. operator_init set_schemes = Ret sch \<and> ((''http.keda.sh'', ''v1alpha1''), ''HTTPScaledObject'') \<in> sch"
  using schemes_know_the_resource [OF set_schemes_laws, of "operator_init set_schemes"] by blast

end
