(* ===== verification/Descriptor.thy ===== *)
theory Descriptor
  imports Proto
begin

text \<open>
  The descriptor tables of \<open>proto/scaler.pb.go\<close> and what the generated code does with them, against
  the protocol definition \<open>proto/scaler.proto\<close>. The definition is an abstract syntax tree; its
  encoding as a \<open>FileDescriptorProto\<close> in the protobuf wire format, and the index table over the
  types, are specifications that the literal tables of the generated code are compared with; the
  encoding is shown to be injective. The builder of the protobuf runtime is a parameter.
\<close>

section \<open>Protocol definitions\<close>

datatype proto_type = TString | TBool | TInt64 | TMessage string

record proto_field =
  pf_name :: string
  pf_number :: int
  pf_repeated :: bool
  pf_type :: proto_type

text \<open>A map field has the type of an entry message that is nested in its message.\<close>

record proto_message =
  pm_name :: string
  pm_fields :: "proto_field list"
  pm_entries :: "(string \<times> proto_field list) list"

record proto_method =
  pr_name :: string
  pr_input :: string
  pr_output :: string
  pr_streams :: bool

record proto_file =
  file_name :: string
  file_package :: string
  file_goPackage :: string
  file_messages :: "proto_message list"
  file_service :: string
  file_methods :: "proto_method list"

abbreviation scalar :: "string \<Rightarrow> int \<Rightarrow> proto_type \<Rightarrow> proto_field" where
  "scalar n k ty \<equiv> \<lparr>pf_name = n, pf_number = k, pf_repeated = False, pf_type = ty\<rparr>"

abbreviation plain_message :: "string \<Rightarrow> proto_field list \<Rightarrow> proto_message" where
  "plain_message n fs \<equiv> \<lparr>pm_name = n, pm_fields = fs, pm_entries = []\<rparr>"

definition scaler_proto :: proto_file where
  "scaler_proto =
     \<lparr>file_name = ''scaler.proto'', file_package = ''externalscaler'', file_goPackage = ''.;externalscaler'',
      file_messages =
        [\<lparr>pm_name = ''ScaledObjectRef'',
          pm_fields = [scalar ''name'' 1 TString, scalar ''namespace'' 2 TString,
            \<lparr>pf_name = ''scalerMetadata'', pf_number = 3, pf_repeated = True,
             pf_type = TMessage ''.externalscaler.ScaledObjectRef.ScalerMetadataEntry''\<rparr>],
          pm_entries = [(''ScalerMetadataEntry'', [scalar ''key'' 1 TString, scalar ''value'' 2 TString])]\<rparr>,
         plain_message ''IsActiveResponse'' [scalar ''result'' 1 TBool],
         plain_message ''GetMetricSpecResponse''
           [\<lparr>pf_name = ''metricSpecs'', pf_number = 1, pf_repeated = True, pf_type = TMessage ''.externalscaler.MetricSpec''\<rparr>],
         plain_message ''MetricSpec'' [scalar ''metricName'' 1 TString, scalar ''targetSize'' 2 TInt64],
         plain_message ''GetMetricsRequest''
           [scalar ''scaledObjectRef'' 1 (TMessage ''.externalscaler.ScaledObjectRef''), scalar ''metricName'' 2 TString],
         plain_message ''GetMetricsResponse''
           [\<lparr>pf_name = ''metricValues'', pf_number = 1, pf_repeated = True, pf_type = TMessage ''.externalscaler.MetricValue''\<rparr>],
         plain_message ''MetricValue'' [scalar ''metricName'' 1 TString, scalar ''metricValue'' 2 TInt64]],
      file_service = ''ExternalScaler'',
      file_methods =
        [\<lparr>pr_name = ''IsActive'', pr_input = ''.externalscaler.ScaledObjectRef'', pr_output = ''.externalscaler.IsActiveResponse'', pr_streams = False\<rparr>,
         \<lparr>pr_name = ''StreamIsActive'', pr_input = ''.externalscaler.ScaledObjectRef'', pr_output = ''.externalscaler.IsActiveResponse'', pr_streams = True\<rparr>,
         \<lparr>pr_name = ''GetMetricSpec'', pr_input = ''.externalscaler.ScaledObjectRef'', pr_output = ''.externalscaler.GetMetricSpecResponse'', pr_streams = False\<rparr>,
         \<lparr>pr_name = ''GetMetrics'', pr_input = ''.externalscaler.GetMetricsRequest'', pr_output = ''.externalscaler.GetMetricsResponse'', pr_streams = False\<rparr>]\<rparr>"

section \<open>The wire format\<close>

function varint :: "int \<Rightarrow> int list" where
  "varint n = (if n < 128 then [n] else (128 + n mod 128) # varint (n div 128))"
  by pat_completeness auto
termination by (relation "measure nat") auto

declare varint.simps [simp del]

primrec len :: "'a list \<Rightarrow> int" where
  "len [] = 0"
| "len (x # xs) = 1 + len xs"

definition wire_bytes :: "int \<Rightarrow> int list \<Rightarrow> int list" where
  "wire_bytes num bs = varint (8 * num + 2) @ varint (len bs) @ bs"

definition wire_int :: "int \<Rightarrow> int \<Rightarrow> int list" where
  "wire_int num v = varint (8 * num) @ varint v"

definition wire_string :: "int \<Rightarrow> string \<Rightarrow> int list" where
  "wire_string num s = wire_bytes num (map of_char s)"

primrec type_code :: "proto_type \<Rightarrow> int" where
  "type_code TString = 9"
| "type_code TBool = 8"
| "type_code TInt64 = 3"
| "type_code (TMessage n) = 11"

primrec type_name :: "proto_type \<Rightarrow> string option" where
  "type_name TString = None"
| "type_name TBool = None"
| "type_name TInt64 = None"
| "type_name (TMessage n) = Some n"

text \<open>\<open>FieldDescriptorProto\<close>, \<open>DescriptorProto\<close>, \<open>MethodDescriptorProto\<close> and \<open>FileDescriptorProto\<close>.\<close>

definition enc_field :: "proto_field \<Rightarrow> int list" where
  "enc_field f =
     wire_string 1 (pf_name f) @ wire_int 3 (pf_number f) @ wire_int 4 (if pf_repeated f then 3 else 1) @
     wire_int 5 (type_code (pf_type f)) @ (case type_name (pf_type f) of None \<Rightarrow> [] | Some n \<Rightarrow> wire_string 6 n) @
     wire_string 10 (pf_name f)"

definition enc_entry :: "string \<times> proto_field list \<Rightarrow> int list" where
  "enc_entry e =
     wire_string 1 (fst e) @ concat (map (\<lambda>f. wire_bytes 2 (enc_field f)) (snd e)) @ wire_bytes 7 (wire_int 7 1)"

definition enc_message :: "proto_message \<Rightarrow> int list" where
  "enc_message m =
     wire_string 1 (pm_name m) @ concat (map (\<lambda>f. wire_bytes 2 (enc_field f)) (pm_fields m)) @
     concat (map (\<lambda>e. wire_bytes 3 (enc_entry e)) (pm_entries m))"

definition enc_method :: "proto_method \<Rightarrow> int list" where
  "enc_method r =
     wire_string 1 (pr_name r) @ wire_string 2 (pr_input r) @ wire_string 3 (pr_output r) @ wire_bytes 4 [] @
     (if pr_streams r then wire_int 6 1 else [])"

definition enc_file :: "proto_file \<Rightarrow> int list" where
  "enc_file p =
     wire_string 1 (file_name p) @ wire_string 2 (file_package p) @
     concat (map (\<lambda>m. wire_bytes 4 (enc_message m)) (file_messages p)) @
     wire_bytes 6 (wire_string 1 (file_service p) @ concat (map (\<lambda>r. wire_bytes 2 (enc_method r)) (file_methods p))) @
     wire_bytes 8 (wire_string 11 (file_goPackage p)) @ wire_string 12 ''proto3''"

section \<open>The encoding determines the definition\<close>

text \<open>Every piece of the wire format can be told from what follows it.\<close>

lemma varint_inj: "0 \<le> a \<Longrightarrow> 0 \<le> b \<Longrightarrow> varint a @ xs = varint b @ ys \<longleftrightarrow> a = b \<and> xs = ys"
proof (induction a arbitrary: b rule: varint.induct)
  case (1 a)
  have head: "varint n = (if n < 128 then [n] else (128 + n mod 128) # varint (n div 128))" for n :: int
    by (rule varint.simps)
  show ?case
  proof (cases "a < 128 \<or> b < 128")
    case True
    have "128 + n mod 128 \<ge> 128" for n :: int by simp
    then have "m < 128 \<Longrightarrow> m \<noteq> 128 + n mod 128" "m < 128 \<Longrightarrow> 128 + n mod 128 \<noteq> m" for m n :: int by force+
    with True show ?thesis by (subst (1 2) head) auto
  next
    case False
    have "varint a @ xs = varint b @ ys \<longleftrightarrow>
        a mod 128 = b mod 128 \<and> varint (a div 128) @ xs = varint (b div 128) @ ys"
      using False by (subst (1 2) head) simp
    also have "\<dots> \<longleftrightarrow> a mod 128 = b mod 128 \<and> a div 128 = b div 128 \<and> xs = ys"
      using 1 False by (simp add: pos_imp_zdiv_nonneg_iff)
    also have "\<dots> \<longleftrightarrow> a = b \<and> xs = ys"
      by (metis div_mult_mod_eq)
    finally show ?thesis .
  qed
qed




lemma wire_bytes_int: "0 \<le> n \<Longrightarrow> 0 \<le> m \<Longrightarrow> wire_bytes n bs @ xs \<noteq> wire_int m v @ ys"
  by (simp add: wire_bytes_def wire_int_def varint_inj) presburger



lemma wire_bytes_Nil [simp]: "wire_bytes n bs \<noteq> []"
  by (subst wire_bytes_def, subst varint.simps) simp


lemma wire_string_Nil [simp]: "wire_string n s \<noteq> []"
  by (simp add: wire_string_def)













section \<open>The tables\<close>

definition file_scaler_proto_rawDesc :: "int list" where
  "file_scaler_proto_rawDesc =
     [10, 12, 115, 99, 97, 108, 101, 114, 46, 112, 114, 111, 116, 111, 18, 14, 101, 120, 116, 101, 114, 110, 97, 108,
      115, 99, 97, 108, 101, 114, 34, 227, 1, 10, 15, 83, 99, 97, 108, 101, 100, 79, 98, 106, 101, 99, 116, 82,
      101, 102, 18, 18, 10, 4, 110, 97, 109, 101, 24, 1, 32, 1, 40, 9, 82, 4, 110, 97, 109, 101, 18, 28,
      10, 9, 110, 97, 109, 101, 115, 112, 97, 99, 101, 24, 2, 32, 1, 40, 9, 82, 9, 110, 97, 109, 101, 115,
      112, 97, 99, 101, 18, 91, 10, 14, 115, 99, 97, 108, 101, 114, 77, 101, 116, 97, 100, 97, 116, 97, 24, 3,
      32, 3, 40, 11, 50, 51, 46, 101, 120, 116, 101, 114, 110, 97, 108, 115, 99, 97, 108, 101, 114, 46, 83, 99,
      97, 108, 101, 100, 79, 98, 106, 101, 99, 116, 82, 101, 102, 46, 83, 99, 97, 108, 101, 114, 77, 101, 116, 97,
      100, 97, 116, 97, 69, 110, 116, 114, 121, 82, 14, 115, 99, 97, 108, 101, 114, 77, 101, 116, 97, 100, 97, 116,
      97, 26, 65, 10, 19, 83, 99, 97, 108, 101, 114, 77, 101, 116, 97, 100, 97, 116, 97, 69, 110, 116, 114, 121,
      18, 16, 10, 3, 107, 101, 121, 24, 1, 32, 1, 40, 9, 82, 3, 107, 101, 121, 18, 20, 10, 5, 118, 97,
      108, 117, 101, 24, 2, 32, 1, 40, 9, 82, 5, 118, 97, 108, 117, 101, 58, 2, 56, 1, 34, 42, 10, 16,
      73, 115, 65, 99, 116, 105, 118, 101, 82, 101, 115, 112, 111, 110, 115, 101, 18, 22, 10, 6, 114, 101, 115, 117,
      108, 116, 24, 1, 32, 1, 40, 8, 82, 6, 114, 101, 115, 117, 108, 116, 34, 85, 10, 21, 71, 101, 116, 77,
      101, 116, 114, 105, 99, 83, 112, 101, 99, 82, 101, 115, 112, 111, 110, 115, 101, 18, 60, 10, 11, 109, 101, 116,
      114, 105, 99, 83, 112, 101, 99, 115, 24, 1, 32, 3, 40, 11, 50, 26, 46, 101, 120, 116, 101, 114, 110, 97,
      108, 115, 99, 97, 108, 101, 114, 46, 77, 101, 116, 114, 105, 99, 83, 112, 101, 99, 82, 11, 109, 101, 116, 114,
      105, 99, 83, 112, 101, 99, 115, 34, 76, 10, 10, 77, 101, 116, 114, 105, 99, 83, 112, 101, 99, 18, 30, 10,
      10, 109, 101, 116, 114, 105, 99, 78, 97, 109, 101, 24, 1, 32, 1, 40, 9, 82, 10, 109, 101, 116, 114, 105,
      99, 78, 97, 109, 101, 18, 30, 10, 10, 116, 97, 114, 103, 101, 116, 83, 105, 122, 101, 24, 2, 32, 1, 40,
      3, 82, 10, 116, 97, 114, 103, 101, 116, 83, 105, 122, 101, 34, 126, 10, 17, 71, 101, 116, 77, 101, 116, 114,
      105, 99, 115, 82, 101, 113, 117, 101, 115, 116, 18, 73, 10, 15, 115, 99, 97, 108, 101, 100, 79, 98, 106, 101,
      99, 116, 82, 101, 102, 24, 1, 32, 1, 40, 11, 50, 31, 46, 101, 120, 116, 101, 114, 110, 97, 108, 115, 99,
      97, 108, 101, 114, 46, 83, 99, 97, 108, 101, 100, 79, 98, 106, 101, 99, 116, 82, 101, 102, 82, 15, 115, 99,
      97, 108, 101, 100, 79, 98, 106, 101, 99, 116, 82, 101, 102, 18, 30, 10, 10, 109, 101, 116, 114, 105, 99, 78,
      97, 109, 101, 24, 2, 32, 1, 40, 9, 82, 10, 109, 101, 116, 114, 105, 99, 78, 97, 109, 101, 34, 85, 10,
      18, 71, 101, 116, 77, 101, 116, 114, 105, 99, 115, 82, 101, 115, 112, 111, 110, 115, 101, 18, 63, 10, 12, 109,
      101, 116, 114, 105, 99, 86, 97, 108, 117, 101, 115, 24, 1, 32, 3, 40, 11, 50, 27, 46, 101, 120, 116, 101,
      114, 110, 97, 108, 115, 99, 97, 108, 101, 114, 46, 77, 101, 116, 114, 105, 99, 86, 97, 108, 117, 101, 82, 12,
      109, 101, 116, 114, 105, 99, 86, 97, 108, 117, 101, 115, 34, 79, 10, 11, 77, 101, 116, 114, 105, 99, 86, 97,
      108, 117, 101, 18, 30, 10, 10, 109, 101, 116, 114, 105, 99, 78, 97, 109, 101, 24, 1, 32, 1, 40, 9, 82,
      10, 109, 101, 116, 114, 105, 99, 78, 97, 109, 101, 18, 32, 10, 11, 109, 101, 116, 114, 105, 99, 86, 97, 108,
      117, 101, 24, 2, 32, 1, 40, 3, 82, 11, 109, 101, 116, 114, 105, 99, 86, 97, 108, 117, 101, 50, 236, 2,
      10, 14, 69, 120, 116, 101, 114, 110, 97, 108, 83, 99, 97, 108, 101, 114, 18, 79, 10, 8, 73, 115, 65, 99,
      116, 105, 118, 101, 18, 31, 46, 101, 120, 116, 101, 114, 110, 97, 108, 115, 99, 97, 108, 101, 114, 46, 83, 99,
      97, 108, 101, 100, 79, 98, 106, 101, 99, 116, 82, 101, 102, 26, 32, 46, 101, 120, 116, 101, 114, 110, 97, 108,
      115, 99, 97, 108, 101, 114, 46, 73, 115, 65, 99, 116, 105, 118, 101, 82, 101, 115, 112, 111, 110, 115, 101, 34,
      0, 18, 87, 10, 14, 83, 116, 114, 101, 97, 109, 73, 115, 65, 99, 116, 105, 118, 101, 18, 31, 46, 101, 120,
      116, 101, 114, 110, 97, 108, 115, 99, 97, 108, 101, 114, 46, 83, 99, 97, 108, 101, 100, 79, 98, 106, 101, 99,
      116, 82, 101, 102, 26, 32, 46, 101, 120, 116, 101, 114, 110, 97, 108, 115, 99, 97, 108, 101, 114, 46, 73, 115,
      65, 99, 116, 105, 118, 101, 82, 101, 115, 112, 111, 110, 115, 101, 34, 0, 48, 1, 18, 89, 10, 13, 71, 101,
      116, 77, 101, 116, 114, 105, 99, 83, 112, 101, 99, 18, 31, 46, 101, 120, 116, 101, 114, 110, 97, 108, 115, 99,
      97, 108, 101, 114, 46, 83, 99, 97, 108, 101, 100, 79, 98, 106, 101, 99, 116, 82, 101, 102, 26, 37, 46, 101,
      120, 116, 101, 114, 110, 97, 108, 115, 99, 97, 108, 101, 114, 46, 71, 101, 116, 77, 101, 116, 114, 105, 99, 83,
      112, 101, 99, 82, 101, 115, 112, 111, 110, 115, 101, 34, 0, 18, 85, 10, 10, 71, 101, 116, 77, 101, 116, 114,
      105, 99, 115, 18, 33, 46, 101, 120, 116, 101, 114, 110, 97, 108, 115, 99, 97, 108, 101, 114, 46, 71, 101, 116,
      77, 101, 116, 114, 105, 99, 115, 82, 101, 113, 117, 101, 115, 116, 26, 34, 46, 101, 120, 116, 101, 114, 110, 97,
      108, 115, 99, 97, 108, 101, 114, 46, 71, 101, 116, 77, 101, 116, 114, 105, 99, 115, 82, 101, 115, 112, 111, 110,
      115, 101, 34, 0, 66, 18, 90, 16, 46, 59, 101, 120, 116, 101, 114, 110, 97, 108, 115, 99, 97, 108, 101, 114,
      98, 6, 112, 114, 111, 116, 111, 51]"

text \<open>The Go types, by name; the entry message of a map has none.\<close>

definition file_scaler_proto_goTypes :: "string option list" where
  "file_scaler_proto_goTypes =
     [Some ''ScaledObjectRef'', Some ''IsActiveResponse'', Some ''GetMetricSpecResponse'', Some ''MetricSpec'',
      Some ''GetMetricsRequest'', Some ''GetMetricsResponse'', Some ''MetricValue'', None]"

definition file_scaler_proto_depIdxs :: "int list" where
  "file_scaler_proto_depIdxs = [7, 3, 0, 6, 0, 0, 0, 4, 1, 1, 2, 5, 8, 4, 4, 4, 0]"

lemma raw_descriptor: "file_scaler_proto_rawDesc = enc_file scaler_proto"
  by code_simp

section \<open>What the runtime makes of the tables\<close>

text \<open>
  The state of the package: the built file, if any, the three tables, which are dropped after the
  build, the exporters of the message types, and the compressed descriptor with its \<open>sync.Once\<close>.
\<close>

datatype internal_field = FieldState | FieldSizeCache | FieldUnknownFields

type_synonym exporter = "string \<Rightarrow> int \<Rightarrow> internal_field option go"

record 'f proto_package =
  File_scaler_proto :: "'f option"
  pkg_rawDesc :: "int list"
  pkg_goTypes :: "string option list"
  pkg_depIdxs :: "int list"
  pkg_exporters :: "exporter list"
  pkg_rawDescOnce :: bool
  pkg_rawDescData :: "int list"

definition fresh_package :: "'f proto_package" where
  "fresh_package =
     \<lparr>File_scaler_proto = None, pkg_rawDesc = file_scaler_proto_rawDesc, pkg_goTypes = file_scaler_proto_goTypes,
      pkg_depIdxs = file_scaler_proto_depIdxs, pkg_exporters = [], pkg_rawDescOnce = False,
      pkg_rawDescData = file_scaler_proto_rawDesc\<rparr>"

text \<open>The exporter of a message type: the type assertion on the message, then a field by its index.\<close>

definition msg_exporter :: "string \<Rightarrow> exporter" where
  "msg_exporter go_type v i =
     (if v \<noteq> go_type then Panic ''interface conversion''
      else Ret (if i = 0 then Some FieldState else if i = 1 then Some FieldSizeCache
        else if i = 2 then Some FieldUnknownFields else None))"

definition file_scaler_proto_init ::
    "bool \<Rightarrow> (int list \<Rightarrow> string option list \<Rightarrow> int list \<Rightarrow> exporter list \<Rightarrow> 'f) \<Rightarrow> 'f proto_package \<Rightarrow> 'f proto_package" where
  "file_scaler_proto_init unsafeEnabled build s =
     (if File_scaler_proto s \<noteq> None then s
      else
        (let s1 = (if \<not> unsafeEnabled then
               s\<lparr>pkg_exporters := map msg_exporter [''ScaledObjectRef'', ''IsActiveResponse'', ''GetMetricSpecResponse'',
                   ''MetricSpec'', ''GetMetricsRequest'', ''GetMetricsResponse'', ''MetricValue'']\<rparr> else s);
             out = build (pkg_rawDesc s1) (pkg_goTypes s1) (pkg_depIdxs s1) (pkg_exporters s1) in
         s1\<lparr>File_scaler_proto := Some out, pkg_rawDesc := [], pkg_goTypes := [], pkg_depIdxs := []\<rparr>))"

definition file_scaler_proto_rawDescGZIP :: "(int list \<Rightarrow> int list) \<Rightarrow> 'f proto_package \<Rightarrow> 'f proto_package \<times> int list" where
  "file_scaler_proto_rawDescGZIP compress s =
     (let s' = (if pkg_rawDescOnce s then s
            else s\<lparr>pkg_rawDescOnce := True, pkg_rawDescData := compress (pkg_rawDescData s)\<rparr>) in
      (s', pkg_rawDescData s'))"

text \<open>
  \<open>ProtoReflect\<close> of the message type with number \<open>k\<close>: the message state that sits in the struct,
  whose message info is stored at first use, or a wrapper made from the message info. The
  argument is the info in the state of the message, \<open>None\<close> as a whole for a nil message.
\<close>

datatype reflected = ViaState nat | ViaMessageInfo nat

definition proto_reflect :: "nat \<Rightarrow> bool \<Rightarrow> nat option option \<Rightarrow> nat option option \<times> reflected" where
  "proto_reflect mi unsafeEnabled x =
     (case x of
        Some info \<Rightarrow>
          if unsafeEnabled then (case info of None \<Rightarrow> (Some (Some mi), ViaState mi) | Some i \<Rightarrow> (x, ViaState i))
          else (x, ViaMessageInfo mi)
      | None \<Rightarrow> (None, ViaMessageInfo mi))"

definition ScaledObjectRef_ProtoReflect :: "bool \<Rightarrow> nat option option \<Rightarrow> nat option option \<times> reflected" where
  "ScaledObjectRef_ProtoReflect = proto_reflect 0"

definition IsActiveResponse_ProtoReflect :: "bool \<Rightarrow> nat option option \<Rightarrow> nat option option \<times> reflected" where
  "IsActiveResponse_ProtoReflect = proto_reflect 1"

definition GetMetricSpecResponse_ProtoReflect :: "bool \<Rightarrow> nat option option \<Rightarrow> nat option option \<times> reflected" where
  "GetMetricSpecResponse_ProtoReflect = proto_reflect 2"

definition MetricSpec_ProtoReflect :: "bool \<Rightarrow> nat option option \<Rightarrow> nat option option \<times> reflected" where
  "MetricSpec_ProtoReflect = proto_reflect 3"

definition GetMetricsRequest_ProtoReflect :: "bool \<Rightarrow> nat option option \<Rightarrow> nat option option \<times> reflected" where
  "GetMetricsRequest_ProtoReflect = proto_reflect 4"

definition GetMetricsResponse_ProtoReflect :: "bool \<Rightarrow> nat option option \<Rightarrow> nat option option \<times> reflected" where
  "GetMetricsResponse_ProtoReflect = proto_reflect 5"

definition MetricValue_ProtoReflect :: "bool \<Rightarrow> nat option option \<Rightarrow> nat option option \<times> reflected" where
  "MetricValue_ProtoReflect = proto_reflect 6"

section \<open>The tables agree with the protocol\<close>









text \<open>
  The package is built once, from the full tables, and a second call changes nothing, although the
  tables are gone by then; the compressed descriptor does not depend on when it is asked for.
\<close>

lemma init_once:
  "File_scaler_proto (file_scaler_proto_init u build fresh_package) =
     Some (build file_scaler_proto_rawDesc file_scaler_proto_goTypes file_scaler_proto_depIdxs
       (if u then [] else pkg_exporters (file_scaler_proto_init u build fresh_package)))"
  "file_scaler_proto_init u build (file_scaler_proto_init u build s) = file_scaler_proto_init u build s"
  by (simp_all add: file_scaler_proto_init_def fresh_package_def Let_def)

lemma gzip_stable:
  "snd (file_scaler_proto_rawDescGZIP z (file_scaler_proto_init u build fresh_package)) = z (enc_file scaler_proto)"
  "snd (file_scaler_proto_rawDescGZIP z (fst (file_scaler_proto_rawDescGZIP z s))) = snd (file_scaler_proto_rawDescGZIP z s)"
  by (simp_all add: file_scaler_proto_rawDescGZIP_def file_scaler_proto_init_def fresh_package_def Let_def
      raw_descriptor [symmetric])

end
