(* ===== verification/Testkit.thy ===== *)
theory Testkit
  imports Errgroup Interceptor Scaler
begin

text \<open>
  What the repository's tests are built on: the helpers of \<open>pkg/test\<close>, \<open>pkg/http/test_utils.go\<close>,
  \<open>pkg/net/mock_server.go\<close> and \<open>scaler/queue_pinger_fake.go\<close> that start or fill a server, and the
  helpers of the end-to-end tests under \<open>e2e/\<close>, and the methods of the fakes that only panic or return
  nil. Running a command, listening on a socket and the Kubernetes client are parameters.
\<close>

section \<open>Helpers of the unit tests\<close>

text \<open>The encoder and decoder are those of the two types; the decoder may leave a changed target beside an error.\<close>

definition JSONRoundTrip :: "('a \<Rightarrow> error + string) \<Rightarrow> (string \<Rightarrow> 'b \<Rightarrow> 'b \<times> error option) \<Rightarrow> 'a \<Rightarrow> 'b \<Rightarrow> 'b \<times> error option" where
  "JSONRoundTrip marshal unmarshal src target =
     (case marshal src of
        Inl err \<Rightarrow> (target, Some err)
      | Inr srcBytes \<Rightarrow> unmarshal srcBytes target)"

definition NewTestCtx :: "(string \<Rightarrow> string \<Rightarrow> Request) \<Rightarrow> string \<Rightarrow> string \<Rightarrow> Request \<times> ResponseWriter" where
  "NewTestCtx newRequest method path = (newRequest method path, NewRecorder)"

text \<open>\<open>newServer\<close> starts a server for a handler and gives its URL, \<open>parse\<close> is \<open>url.Parse\<close>.\<close>

definition StartTestServer ::
    "('h \<Rightarrow> 'srv \<times> string) \<Rightarrow> (string \<Rightarrow> error + URL) \<Rightarrow> 'h \<Rightarrow> error + 'srv \<times> URL" where
  "StartTestServer newServer parse handler =
     (let (srv, url) = newServer handler in case parse url of Inl err \<Rightarrow> Inl err | Inr u \<Rightarrow> Inr (srv, u))"

definition startFakeQueueEndpointServer ::
    "((ResponseWriter \<Rightarrow> ResponseWriter) ServeMux \<Rightarrow> 'srv \<times> string) \<Rightarrow> (string \<Rightarrow> error + URL) \<Rightarrow> string \<Rightarrow>
     Counts \<times> error option \<Rightarrow> gint \<Rightarrow> (error + 'srv \<times> URL \<times> Endpoints) go" where
  "startFakeQueueEndpointServer newServer parse svcName q numEndpoints =
     bind_go (AddCountsRoute [] q) (\<lambda>mux.
       case StartTestServer newServer parse mux of
         Inl err \<Rightarrow> Ret (Inl err)
       | Inr (srv, srvURL) \<Rightarrow>
           bind_go (FakeEndpointsForURL srvURL ''testns'' svcName numEndpoints) (\<lambda>eps.
             Ret (case eps of Inl err \<Rightarrow> Inl err | Inr endpoints \<Rightarrow> Inr (srv, srvURL, endpoints))))"

section \<open>Waiting in the end-to-end tests\<close>

text \<open>
  One element of the list is one turn of the loop: whether the context is done, and what the
  function returns otherwise. The result is \<open>None\<close> while the loop polls on.
\<close>

fun waitUntil_loop :: "gint \<Rightarrow> error \<Rightarrow> (bool \<times> error option) list \<Rightarrow> error option option" where
  "waitUntil_loop dur lastErr [] = None"
| "waitUntil_loop dur lastErr ((ctxDone, r) # turns) =
     (if ctxDone then
        Some (Some (Errorf (''timed out after '' @ Duration_String dur @ ''. last error: '' @ error_text lastErr)))
      else (case r of None \<Rightarrow> Some None | Some err \<Rightarrow> waitUntil_loop dur err turns))"

definition waitUntil :: "gint \<Rightarrow> (bool \<times> error option) list \<Rightarrow> error option option" where
  "waitUntil dur turns =
     waitUntil_loop dur (Errorf (''timeout after '' @ Duration_String dur @ '' waiting for condition'')) turns"

record DeploymentStatus = Deployment +
  depl_UnavailableReplicas :: i32

text \<open>\<open>dones\<close> tells for each turn whether the context is done; the deployment is read before the first turn.\<close>

definition waitUntilDeployment ::
    "(ObjectKey \<Rightarrow> error + DeploymentStatus) \<Rightarrow> gint \<Rightarrow> string \<Rightarrow> string \<Rightarrow> (DeploymentStatus \<Rightarrow> error option) \<Rightarrow> bool list \<Rightarrow>
     error option option" where
  "waitUntilDeployment get dur ns name fn dones =
     (case get (ObjKey ns name) of
        Inl err \<Rightarrow> Some (Some err)
      | Inr depl \<Rightarrow> waitUntil dur (map (\<lambda>ctxDone. (ctxDone, fn depl)) dones))"

definition waitUntilDeploymentAvailable ::
    "(ObjectKey \<Rightarrow> error + DeploymentStatus) \<Rightarrow> gint \<Rightarrow> string \<Rightarrow> string \<Rightarrow> bool list \<Rightarrow> error option option" where
  "waitUntilDeploymentAvailable get dur ns name dones =
     waitUntilDeployment get dur ns name (\<lambda>depl.
       if depl_UnavailableReplicas depl = 0 then None
       else Some (Errorf (''deployment keda-operator still has '' @ fmt_d32 (depl_UnavailableReplicas depl) @
         '' unavailable replicas''))) dones"

text \<open>The names in the order in which their goroutines return.\<close>

definition waitUntilDeplomentsAvailable ::
    "(ObjectKey \<Rightarrow> error + DeploymentStatus) \<Rightarrow> gint \<Rightarrow> string \<Rightarrow> (string \<times> bool list) list \<Rightarrow> error option option" where
  "waitUntilDeplomentsAvailable get dur ns names =
     (let rets = map (\<lambda>(name, dones). waitUntilDeploymentAvailable get dur ns name dones) names in
      if None \<in> set rets then None else Some (grp_Wait (map the rets)))"

definition remainingDurInTest :: "gotime option \<Rightarrow> gotime \<Rightarrow> gint \<Rightarrow> gint" where
  "remainingDurInTest deadline now def =
     (case deadline of
        None \<Rightarrow> def
      | Some expireTime \<Rightarrow> if expireTime < now then 0 else word_of_int (expireTime - now))"

section \<open>Commands of the end-to-end tests\<close>

text \<open>\<open>run\<close> runs a command line on the state of the cluster.\<close>

type_synonym 'w runner = "string list \<Rightarrow> 'w \<Rightarrow> 'w \<times> error option"

definition helmDelete :: "'w runner \<Rightarrow> string \<Rightarrow> string \<Rightarrow> 'w \<Rightarrow> 'w \<times> error option" where
  "helmDelete run namespace chartName = run [''helm'', ''delete'', ''-n'', namespace, chartName]"

definition helmRepoAdd :: "'w runner \<Rightarrow> string \<Rightarrow> string \<Rightarrow> 'w \<Rightarrow> 'w \<times> error option" where
  "helmRepoAdd run name url = run [''helm'', ''repo'', ''add'', name, url]"

definition helmRepoUpdate :: "'w runner \<Rightarrow> 'w \<Rightarrow> 'w \<times> error option" where
  "helmRepoUpdate run = run [''helm'', ''repo'', ''update'']"

definition emptyHelmVars :: "string smap" where
  "emptyHelmVars = fmempty"

text \<open>\<open>vars\<close> are the variables in the order in which the range has them.\<close>

definition helmInstall :: "'w runner \<Rightarrow> string \<Rightarrow> string \<Rightarrow> string \<Rightarrow> (string \<times> string) list \<Rightarrow> 'w \<Rightarrow> 'w \<times> error option" where
  "helmInstall run namespace chartName chartLoc vars =
     run (''helm'' # [''install'', chartName, chartLoc, ''-n'', namespace, ''--create-namespace''] @
       map (\<lambda>(k, v). ''--set '' @ k @ ''='' @ v) vars)"

definition deleteNS :: "'w runner \<Rightarrow> string \<Rightarrow> 'w \<Rightarrow> 'w \<times> error option" where
  "deleteNS run ns = run [''kubectl'', ''delete'', ''namespace'', ns]"

record e2e_config =
  e2e_Namespace :: string
  e2e_RunSetupTeardown :: bool
  e2e_AddonChartLocation :: string
  e2e_ExampleAppChartLocation :: string
  e2e_OperatorImg :: string
  e2e_InterceptorImg :: string
  e2e_ScalerImg :: string
  e2e_HTTPAddOnImageTag :: string
  e2e_NumReqsAgainstProxy :: gint

definition set_image :: "string \<Rightarrow> string \<Rightarrow> string smap \<Rightarrow> string smap" where
  "set_image k img ret = (if img \<noteq> [] then fmupd k (hd (Split img CHR '':'')) ret else ret)"

definition httpAddOnHelmVars :: "e2e_config \<Rightarrow> string smap" where
  "httpAddOnHelmVars c =
     (let ret = set_image ''images.scaler'' (e2e_ScalerImg c) (set_image ''images.interceptor'' (e2e_InterceptorImg c)
            (set_image ''images.operator'' (e2e_OperatorImg c) fmempty)) in
      if e2e_HTTPAddOnImageTag c \<noteq> [] then fmupd ''images.tag'' (e2e_HTTPAddOnImageTag c) ret else ret)"

text \<open>Commands run one after the other, whichever of them fails; the second component has the failures.\<close>

fun run_all :: "('w \<Rightarrow> 'w \<times> error option) list \<Rightarrow> 'w \<Rightarrow> 'w \<times> error list" where
  "run_all [] w = (w, [])"
| "run_all (c # cs) w =
     (case c w of (w1, err) \<Rightarrow> case run_all cs w1 of (w2, errs) \<Rightarrow>
        (w2, case err of None \<Rightarrow> errs | Some e \<Rightarrow> e # errs))"

definition setup_cluster :: "'w runner \<Rightarrow> string \<Rightarrow> e2e_config \<Rightarrow> 'w \<Rightarrow> 'w \<times> error list" where
  "setup_cluster run ns cfg =
     run_all [helmRepoAdd run ''kedacore'' ''https://kedacore.github.io/charts'', helmRepoUpdate run,
       helmInstall run ns ''keda'' ''kedacore/keda'' (sorted_list_of_fmap emptyHelmVars),
       helmInstall run ns ''http-add-on'' (e2e_AddonChartLocation cfg) (sorted_list_of_fmap (httpAddOnHelmVars cfg)),
       helmInstall run ns ''xkcd'' (e2e_ExampleAppChartLocation cfg) (sorted_list_of_fmap emptyHelmVars)]"

definition teardown :: "'w runner \<Rightarrow> string \<Rightarrow> 'w \<Rightarrow> 'w \<times> error list" where
  "teardown run ns =
     run_all [helmDelete run ns ''xkcd'', helmDelete run ns ''http-add-on'', helmDelete run ns ''keda'', deleteNS run ns]"

text \<open>The results of the requests to the service, in the order in which they come back.\<close>

definition makeRequestsToSvc ::
    "(error + 'cl) \<Rightarrow> ('cl \<Rightarrow> string \<Rightarrow> string \<Rightarrow> nat \<Rightarrow> error option) \<Rightarrow> string \<Rightarrow> string \<Rightarrow> gint \<Rightarrow> gint \<Rightarrow> error option" where
  "makeRequestsToSvc newForConfig proxyGet ns svcName svcPort numReqs =
     (case newForConfig of
        Inl err \<Rightarrow> Some err
      | Inr cls \<Rightarrow> grp_Wait (map (proxyGet cls ns (svcName @ '':'' @ fmt_d svcPort)) [0..<nat (sint numReqs)]))"

section \<open>Properties\<close>

text \<open>A wait succeeds exactly when the function succeeds in a turn before the context is done.\<close>

lemma waitUntil_loop_ok:
  "waitUntil_loop dur err turns = Some None \<longleftrightarrow> (False, None) \<in> set (takeWhile (\<lambda>t. \<not> fst t) turns)"
  by (induction dur err turns rule: waitUntil_loop.induct) (auto split: option.split)

lemma waitUntil_ok: "waitUntil dur turns = Some None \<longleftrightarrow> (False, None) \<in> set (takeWhile (\<lambda>t. \<not> fst t) turns)"
  by (simp add: waitUntil_def waitUntil_loop_ok)

text \<open>
  Waiting for a deployment does not wait for it. The deployment is read once, before the first
  turn: a deployment that has unavailable replicas at that moment is never seen available, so the
  wait polls until its time is over and fails, and a deployment that has none is accepted at once.
\<close>

theorem wait_deployment_stale:
  assumes "get (ObjKey ns name) = Inr depl"
  shows "waitUntilDeploymentAvailable get dur ns name dones = Some None \<longleftrightarrow>
      depl_UnavailableReplicas depl = 0 \<and> (\<exists>rest. dones = False # rest)"
    and "depl_UnavailableReplicas depl \<noteq> 0 \<Longrightarrow> waitUntilDeploymentAvailable get dur ns name dones \<noteq> None \<longleftrightarrow> True \<in> set dones"
proof -
  show "waitUntilDeploymentAvailable get dur ns name dones = Some None \<longleftrightarrow>
      depl_UnavailableReplicas depl = 0 \<and> (\<exists>rest. dones = False # rest)"
    using assms by (cases dones) (auto simp: waitUntilDeploymentAvailable_def waitUntilDeployment_def waitUntil_ok takeWhile_map comp_def)
  assume un: "depl_UnavailableReplicas depl \<noteq> 0"
  have "waitUntil_loop dur err (map (\<lambda>d. (d, Some e)) dones) \<noteq> None \<longleftrightarrow> True \<in> set dones" for err e
    by (induction dones arbitrary: err) auto
  with un assms show "waitUntilDeploymentAvailable get dur ns name dones \<noteq> None \<longleftrightarrow> True \<in> set dones"
    by (simp add: waitUntilDeploymentAvailable_def waitUntilDeployment_def waitUntil_def del: not_None_eq)
qed

text \<open>Set-up and tear-down run all their commands, in this order, whatever fails.\<close>

definition recorder :: "(string list \<Rightarrow> error option) \<Rightarrow> string list list runner" where
  "recorder outcome cmd w = (w @ [cmd], outcome cmd)"

lemma teardown_runs_all:
  "fst (teardown (recorder outcome) ns []) =
     [[''helm'', ''delete'', ''-n'', ns, ''xkcd''], [''helm'', ''delete'', ''-n'', ns, ''http-add-on''],
      [''helm'', ''delete'', ''-n'', ns, ''keda''], [''kubectl'', ''delete'', ''namespace'', ns]]"
  by (simp add: teardown_def recorder_def helmDelete_def deleteNS_def)

text \<open>The image of a registry with a port loses everything after the port's colon.\<close>

lemma image_registry_port:
  "fmlookup (httpAddOnHelmVars (c\<lparr>e2e_OperatorImg := ''localhost:5000/op:main'', e2e_InterceptorImg := [], e2e_ScalerImg := [],
     e2e_HTTPAddOnImageTag := []\<rparr>)) ''images.operator'' = Some ''localhost''"
  by (simp add: httpAddOnHelmVars_def set_image_def)

text \<open>A value that decodes to itself survives \<open>JSONRoundTrip\<close>, as the routing table does.\<close>

lemma JSONRoundTrip_ok:
  "(\<And>s. marshal src = Inr s \<Longrightarrow> unmarshal s target = (src, None)) \<Longrightarrow> isl (marshal src) = False \<Longrightarrow>
   JSONRoundTrip marshal unmarshal src target = (src, None)"
  by (auto simp: JSONRoundTrip_def split: sum.split)

section \<open>Fakes that are not implemented\<close>

text \<open>The other methods of the count reader of the tests, and of the fake client of controller-runtime.\<close>

definition FakeCountReader_ShouldPostponeResize :: "FakeCountReader \<Rightarrow> bool go" where
  "FakeCountReader_ShouldPostponeResize f = unimplemented"

definition FakeCountReader_Count :: "string \<Rightarrow> FakeCountReader \<Rightarrow> gint go" where
  "FakeCountReader_Count host f = unimplemented"

definition FakeCountReader_PostponeDuration :: "FakeCountReader \<Rightarrow> gint go" where
  "FakeCountReader_PostponeDuration f = unimplemented"

definition FakeRuntimeStatusClient_Scheme :: "'sch option" where
  "FakeRuntimeStatusClient_Scheme = None"

definition FakeRuntimeClientReader_RESTMapper :: "'m option" where
  "FakeRuntimeClientReader_RESTMapper = None"

definition FakeRuntimeStatusClient_Status :: "'w option" where
  "FakeRuntimeStatusClient_Status = None"

definition FakeRuntimeClient_SubResource :: "string \<Rightarrow> 'o FakeRuntimeClient \<Rightarrow> 'c go" where
  "FakeRuntimeClient_SubResource subResource f = unimplemented"

end
