(* ===== verification/Spec2Isabelle.thy ===== *)
theory Spec2Isabelle
  imports Fleet Manager DeepCopy Schemes Descriptor Testkit
begin

text \<open>
  A verification of the KEDA HTTP add-on: the interceptor that proxies requests and counts them,
  the external scaler that reports the counts to KEDA, and the operator that turns
  \<open>HTTPScaledObject\<close> resources into KEDA ScaledObjects and a routing table. File names below are
  relative to \<open>src/\<close>.

  How the parts interact. The operator keeps a routing table from hosts to targets, saves it as
  JSON in a ConfigMap and creates a ScaledObject whose trigger names the hosts. Interceptors
  follow the ConfigMap. A request passes the counting middleware, which adds one to the counter of
  its host, then the forwarding handler, which looks the host up, waits until the deployment has a
  replica and proxies the request; the count drops when the request is done, or after a cooldown.
  The scaler asks every interceptor for its counts, adds them up and answers KEDA over gRPC.

  \<^descr>[Prelude, Json, Http] What the code uses of Go and its library: 64-bit and 32-bit
    two's complement integers as words, maps that may be nil, panics, error values, \<open>strings\<close> and
    \<open>strconv\<close>, an encoder and parser for JSON with their round trip, response writers, request
    multiplexers, durations and \<open>url.Parse\<close>. They model no file of the repository.
  \<^descr>[Queue] \<open>pkg/queue\<close>: the counter \<open>Memory\<close> as a record of its two maps, one definition per
    method, a turn of \<open>ProcessPostponedResizes\<close> as \<open>process_turn\<close>, the fakes, and the counts RPC.
    The locale \<open>counter\<close> is the contract of a counter, interpreted on \<open>Memory\<close>; the counter refines
    a total function from hosts to numbers, and the RPC returns what the counter holds.
  \<^descr>[K8s] \<open>pkg/k8s\<close>: ScaledObjects, endpoints, ConfigMap access, the informer-backed caches
    with their handlers and watches, and the fakes with their lock. Watches deliver exactly the
    events of their object; the locale \<open>deployment_store\<close> is interpreted on the fake cache.
  \<^descr>[Routing] \<open>pkg/routing\<close>: the table, its JSON form, the ConfigMap, the routes and the updater
    loop over the events it receives. The locale \<open>table_reader\<close> is the interface the scaler uses,
    interpreted on the table. Saving and fetching a table is the identity, look-ups fall back to the
    host without its port, and the updater holds the last table that decoded.
  \<^descr>[Net] \<open>pkg/net\<close>, \<open>pkg/env\<close>, \<open>pkg/http\<close>, \<open>pkg/build\<close> and \<open>interceptor/config\<close>: dialling with
    retries, the total backoff, environment variables, admin routes and the validation of timeouts.
  \<^descr>[Interceptor] \<open>interceptor/\<close>: host resolution, the counting middleware over any counter, the
    wait for a replica over the events of a watch, the reverse proxy with retries, the forwarding
    handler and the admin routes. Shown: callers of a tenant stay in their namespace, the count is
    balanced, waiting and retrying end and their results, the request that goes out, the answers.
  \<^descr>[Pending] The middleware's goroutines and the goroutine of postponed resizes as a step
    relation on the shared counter, one step per section under the lock. The count of a host is the
    number of its requests in flight, plus one while a postponed resize is due; with the two lock
    sections of the code apart, a run that loses a request is exhibited.
  \<^descr>[Proto, Descriptor] \<open>proto/\<close>: messages, getters, client stubs, handlers and service description,
    and the descriptor tables of the generated code. The stubs reach the methods of their name, and
    the tables are shown to be the wire encoding of \<open>scaler.proto\<close>, which is injective, and its
    index table.
  \<^descr>[Scaler] \<open>scaler/\<close>: the pinger, the goroutines and channels of \<open>fetchCounts\<close> as a step
    relation, and the gRPC handlers over a table reader. Every schedule ends with the sum of all
    answers or with an error of an endpoint, the aggregate is the total of the counts, and
    \<open>IsActive\<close>, \<open>GetMetrics\<close> and \<open>GetMetricSpec\<close> agree with the counts and the table.
  \<^descr>[Operator] \<open>operator/controllers\<close>, the resource types and parts of \<open>operator/main.go\<close>: the
    reconciler over a client of an API server. A reconciliation that succeeds has published, or
    withdrawn, the hosts of the object; the three reasons for which one can panic are stated, and
    what goes wrong on deletion.
  \<^descr>[DeepCopy] \<open>operator/apis/http/v1alpha1/zz_generated.deepcopy.go\<close>: the deep copies on a heap
    with explicit pointers. A copy has the value of the original and owns what the code allocates;
    the hosts stay shared.
  \<^descr>[Generated, Clientset] \<open>operator/generated\<close>: the constructors of the clients, the typed client
    as the requests it makes of a REST client, the fake clientset and client, the informer factory
    with its accessors, and the listers. Informers are shared and run once, clients are made for the
    group of the resource, and the fake does not find what its clientset was made with.
  \<^descr>[Schemes] The registration of the resource types in \<open>operator/apis\<close>, in \<open>operator/generated\<close> and
    in the operator's \<open>init\<close>, over the scheme library: no \<open>init\<close> panics, and every scheme knows the
    resource.
  \<^descr>[Errgroup, Process] The three \<open>main.go\<close>, \<open>pkg/http/server.go\<close> and \<open>NewClientset\<close>: the start-up
    of each program with its exits, the handler of the proxy server as the middleware around the
    forwarding handler, and the goroutines that \<open>main\<close> waits for as a step relation. The locales
    \<open>service_group\<close> and \<open>failing_group\<close> state what a group needs of its tasks, and are interpreted on
    the tasks of the three programs: a program stops as a whole. A tenant's request stays with the
    hosts of the tenant through the whole proxy.
  \<^descr>[Settings] The tags of the configuration structs, the functions that read them over the
    \<open>envconfig\<close> library, and the environments of the manifests under \<open>config/\<close>. The manifests fit the
    programs and one another, and an interceptor that is started without the cooldown counts exactly.
  \<^descr>[Manager] The rest of \<open>operator/main.go\<close>: the flags and their parser, the options of the manager,
    \<open>SetupWithManager\<close>, and the whole start from the command line. The operator of the manifests
    starts.
  \<^descr>[Fleet] The operator, its restarts, and any number of interceptors and scalers that follow its
    ConfigMap, as one step relation over the definitions of the other theories. An invariant relates
    every table to the objects that the operator has read: requests only go to services that an
    object names, and after a reconciliation all followers come to the operator's table.
  \<^descr>[Testkit] What the tests are built on: helpers of the unit tests, the methods of the fakes that
    only panic or return nil, and the waiting loops, commands and configuration of \<open>e2e/\<close>.
  \<^descr>[Spec2Isabelle] The properties that span the programs.

  Code that is not in the repository is a parameter: the network (a function from a URL or a
  request to an answer), reverse DNS, the clock, the API server (a record of operations on its
  state), the REST client, indexer, informers and tracker of client-go, the controller manager,
  \<open>envconfig\<close>, schemes, listeners and gRPC. Laws of them that theorems need are definitions, each with
  an instance that satisfies it: \<open>api_server\<close> and \<open>object_server\<close> of Operator (\<open>memory_client\<close>),
  \<open>tracker_laws\<close> of Clientset (\<open>map_tracker\<close>), \<open>versioned\<close> and \<open>utf8_objects\<close> of Fleet, for the
  versions of the ConfigMap that informers see and the encoding of stored objects (\<open>keep_versions\<close>),
  \<open>envconfig_laws\<close> of Settings (\<open>read_all\<close>), and \<open>scheme_laws\<close> of Schemes (\<open>set_schemes\<close>).

  Bounds. The JSON parser runs on fuel, twice the length of its input and one more; more fuel is
  shown to change nothing.
  Endless loops are functions of the list of events they receive. \<open>retryRequest\<close> is a total
  function with a measure. In Pending fewer than \<open>2 ^ 62\<close> requests are open at once, so that no
  64-bit count overflows. Runs of \<open>fetchCounts\<close> have at most three steps per endpoint and three
  more; a group of goroutines has at most one step per task and one for a signal. Loops over Go maps
  take the entries in sorted order where one order has to be chosen; the theorems on the counter's
  sums, its turns and \<open>fetchCounts\<close> hold for every order.

  Simplifications. Reverse DNS is a function, so the two lookups that the middleware and the
  forwarding handler make for one request agree; the endpoints of the interceptors' service are a
  function that a pinger keeps. \<open>Memory.Current\<close> gives the counts by value, where the code hands out the
  live map. The step relation of \<open>fetchCounts\<close> also lets a fetch end because the group was cancelled,
  which the code, whose requests do not carry the context, never does. In Pending the parameter
  \<open>split\<close> of \<open>pstep\<close> is true for the lock sections of the code; false joins the two sections of a turn,
  for the one theorem that says so. In Fleet a reconciliation is one step, whose intermediate versions
  of the ConfigMap stay deliverable, and only the operator writes the ConfigMap.

  Not modelled: loggers and metrics, among them \<open>pkg/log\<close> and the flags that the logger defines, which
  are a parameter of the parser; the textual form of protobuf messages, made by the protobuf runtime;
  upgraded connections in the reverse proxy; interface declarations without a body; the seeding of
  random numbers in \<open>init\<close>; of the manifests everything but environments, arguments, the ConfigMap
  and the services; and the end-to-end tests themselves. A panic that crosses a deferred call is
  modelled in the middleware only.
\<close>

section \<open>From the interceptors' counters to KEDA\<close>

text \<open>
  The hosts that the operator writes into the trigger of a ScaledObject are the hosts that the
  scaler reads from it.
\<close>

definition trigger_ref :: "ScaledObject \<Rightarrow> ScaledObjectRef" where
  "trigger_ref so = \<lparr>sor_Name = so_Name so, sor_Namespace = so_Namespace so,
     sor_ScalerMetadata = Some (tr_Metadata (hd (so_Triggers so)))\<rparr>"

lemma trigger_hosts:
  "map_get (sor_ScalerMetadata (trigger_ref (NewScaledObject ns name depl addr hosts mn mx cd))) ''hosts'' = Some (Join hosts CHR '','')"
  by (simp add: trigger_ref_def NewScaledObject_def mkHosts_def mkScalerAddress_def)

text \<open>
  The network between the scaler and the interceptors: a request for the counts of the \<open>i\<close>-th
  address is answered by the size handler of the \<open>i\<close>-th interceptor, from its counter.
\<close>

definition serves_counts :: "(string \<Rightarrow> error + string) \<Rightarrow> nat \<Rightarrow> EndpointAddress \<Rightarrow> Memory \<Rightarrow> bool" where
  "serves_counts get port a r \<longleftrightarrow>
     get (URL_String ((http_url (ea_IP a @ '':'' @ show_int (int port)))\<lparr>Path := countsPath\<rparr>)) =
       Inr (rw_body (newSizeHandler (\<lparr>Counts_m = Some (countMap r)\<rparr>, None) NewRecorder))"

lemma GetCounts_served:
  assumes "serves_counts get port a r" "valid_hosts (Some (countMap r))"
  shows "GetCounts get (http_url (ea_IP a @ '':'' @ show_int (int port))) = Inr \<lparr>Counts_m = Some (countMap r)\<rparr>"
  by (rule GetCounts_answer [where cur = "\<lparr>Counts_m = Some (countMap r)\<rparr>"])
    (use assms in \<open>simp_all add: serves_counts_def Memory_Current_def NewCounts_def\<close>)

lemma fetchCounts_served:
  assumes "endpointsFn ns svc = Inr eps"
    and "list_all (\<lambda>ss. list_all (\<lambda>a. list_all dns_char (ea_IP a)) (Addresses ss)) (Subsets eps)"
    and "list_all2 (serves_counts get port) (concat (map Addresses (Subsets eps))) rs"
    and "list_all (\<lambda>r. valid_hosts (Some (countMap r))) rs"
  shows "fetchCounts get endpointsFn ns svc (show_int (int port)) =
    Inr (collect_counts (map (\<lambda>r. \<lparr>Counts_m = Some (countMap r)\<rparr>) rs))"
proof -
  let ?url = "\<lambda>a. http_url (ea_IP a @ '':'' @ show_int (int port))" and ?c = "\<lambda>r. \<lparr>Counts_m = Some (countMap r)\<rparr>"
  have "EndpointsForService ns svc (show_int (int port)) endpointsFn =
      Inr (map ?url (concat (map Addresses (Subsets eps))))"
    using EndpointsForService_all [of endpointsFn, OF assms(1,2)] by simp
  moreover have "map (GetCounts get) (map ?url (concat (map Addresses (Subsets eps)))) = map Inr (map ?c rs)"
    using assms(3,4) by (induction rule: list_all2_induct) (simp_all add: GetCounts_served [simplified])
  moreover have "fetch_results (map Inr (map ?c rs)) = Inr (collect_counts (map projr (map Inr (map ?c rs) :: (error + Counts) list)))"
    by (rule fetch_results_ok) simp
  ultimately show ?thesis
    by (simp add: fetchCounts_def comp_def)
qed

lemma count_of_collect: "count_of (fst (collect_counts cs)) h = (\<Sum>c \<leftarrow> cs. count_in c h)"
  by (simp add: collect_counts_entries sum_for_count_entries)

text \<open>The scaler's answers after a fetch, from the counters that the interceptors serve.\<close>

lemma metrics_served:
  assumes "getEndpointsFn p (interceptorNS p) (interceptorSvcName p) = Inr eps" "adminPort p = show_int (int port)"
    and "list_all (\<lambda>ss. list_all (\<lambda>a. list_all dns_char (ea_IP a)) (Addresses ss)) (Subsets eps)"
    and "list_all2 (serves_counts get port) (concat (map Addresses (Subsets eps))) rs"
    and "list_all (\<lambda>r. valid_hosts (Some (countMap r))) rs"
    and "hosts \<noteq> []" "list_all (\<lambda>h. CHR '','' \<notin> set h \<and> Table_HasHost t h) hosts" "interceptor_host \<notin> set hosts"
    and "v = (\<Sum>h \<leftarrow> hosts. \<Sum>r \<leftarrow> rs. Memory_Count h r)"
    and "ref = trigger_ref (NewScaledObject ns name depl addr hosts mn mx cd)"
  shows "\<exists>p'. fetchAndSaveCounts get now p = (p', None) \<and>
    impl_GetMetrics (newImpl p' Table_Reader t d di) (Some \<lparr>gmr_ScaledObjectRef = Some ref, gmr_MetricName = nm\<rparr>) =
      Ret (Inr \<lparr>gmr_MetricValues = [\<lparr>mv_MetricName = httpRequests, mv_MetricValue = v\<rparr>]\<rparr>) \<and>
    impl_IsActive (newImpl p' Table_Reader t d di) (Some ref) = Ret (Inr \<lparr>iar_Result = (0 <s v)\<rparr>)"
proof -
  let ?cs = "map (\<lambda>r. \<lparr>Counts_m = Some (countMap r)\<rparr>) rs"
  define p' where "p' = p\<lparr>allCounts := fst (collect_counts ?cs), aggregateCount := snd (collect_counts ?cs), lastPingTime := now\<rparr>"
  have save: "fetchAndSaveCounts get now p = (p', None)"
    using fetchCounts_served [of "getEndpointsFn p", OF assms(1,3-5)] assms(2)
    by (simp add: fetchAndSaveCounts_def p'_def case_prod_beta)
  let ?e = "newImpl p' Table_Reader t d di"
  have known: "\<forall>h \<in> set hosts. known ?e h"
    using assms(7) by (auto simp: known_def getHostCount_def newImpl_def Table_Reader_def list_all_iff split: option.split)
  have count: "count_of (queuePinger_counts (pinger ?e)) h = (\<Sum>r \<leftarrow> rs. Memory_Count h r)" for h
    by (simp add: newImpl_def queuePinger_counts_def p'_def count_of_collect comp_def count_in_def Memory_Count_def)
  have split: "Split (Join hosts CHR '','') CHR '','' = hosts"
    using assms(6,7) by (intro Split_Join) (auto simp: list_all_iff)
  have loop: "metrics_loop ?e hosts 0 httpRequests = Inr (v, httpRequests)"
    using metrics_loop_known [OF known, of 0 httpRequests] by (simp add: assms(9) count)
  show ?thesis
    using save getHosts_Some [OF trigger_hosts, of ns name depl addr hosts mn mx cd] loop
      isActive_loop_metrics [OF assms(8), of ?e 0 httpRequests]
    by (simp add: assms(10) impl_GetMetrics_def impl_IsActive_def split)
qed

text \<open>
  C1: What KEDA scales on is what is in flight. Let every interceptor serve its counter at its address,
  in any state that its requests and its enforcer can reach with the cooldown off, by any
  interleaving of their lock sections. Then after one fetch the scaler answers \<open>GetMetrics\<close>, for the
  ScaledObject that the operator builds for some hosts of the routing table, with the number of
  requests in flight for those hosts in all interceptors, and \<open>IsActive\<close> says whether there is one: an
  application with a pending request is never reported idle, and an idle one never active.
\<close>

theorem metrics_count_inflight:
  assumes "getEndpointsFn p (interceptorNS p) (interceptorSvcName p) = Inr eps" "adminPort p = show_int (int port)"
    and "list_all (\<lambda>ss. list_all (\<lambda>a. list_all dns_char (ea_IP a)) (Addresses ss)) (Subsets eps)"
    and "list_all2 (\<lambda>a s. serves_counts get port a (mem s)) (concat (map Addresses (Subsets eps))) ss"
    and "list_all (\<lambda>s. preach True cool False s \<and> valid_hosts (Some (countMap (mem s)))) ss"
    and "hosts \<noteq> []" "list_all (\<lambda>h. CHR '','' \<notin> set h \<and> Table_HasHost t h) hosts" "interceptor_host \<notin> set hosts"
    and "pending = (\<Sum>h \<leftarrow> hosts. \<Sum>s \<leftarrow> ss. inflight h s)" "pending < 2 ^ 63"
    and "ref = trigger_ref (NewScaledObject ns name depl addr hosts mn mx cd)"
  shows "\<exists>p' v. fetchAndSaveCounts get now p = (p', None) \<and> sint v = int pending \<and>
    impl_GetMetrics (newImpl p' Table_Reader t d di) (Some \<lparr>gmr_ScaledObjectRef = Some ref, gmr_MetricName = nm\<rparr>) =
      Ret (Inr \<lparr>gmr_MetricValues = [\<lparr>mv_MetricName = httpRequests, mv_MetricValue = v\<rparr>]\<rparr>) \<and>
    impl_IsActive (newImpl p' Table_Reader t d di) (Some ref) = Ret (Inr \<lparr>iar_Result = (0 < pending)\<rparr>)"
proof -
  have count: "Memory_Count h (mem s) = of_nat (inflight h s)" if "s \<in> set ss" for h s
    using that assms(5) exact_off_reach by (auto simp: list_all_iff exact_off_def)
  let ?v = "\<Sum>h \<leftarrow> hosts. \<Sum>r \<leftarrow> map mem ss. Memory_Count h r"
  have "(\<Sum>s \<leftarrow> ss. Memory_Count h (mem s)) = of_nat (\<Sum>s \<leftarrow> ss. inflight h s)" for h
    using count by (induction ss) simp_all
  then have "?v = of_nat pending" unfolding assms(9) by (induction hosts) (simp_all add: comp_def)
  then have v: "sint ?v = int pending" using assms(10) sint_of_nat_64 by simp
  then have pos: "(0 <s ?v) \<longleftrightarrow> 0 < pending" by (simp add: word_sless_alt)
  have "list_all2 (serves_counts get port) (concat (map Addresses (Subsets eps))) (map mem ss)"
    using assms(4) by (simp add: list_all2_map2)
  moreover have "list_all (\<lambda>r. valid_hosts (Some (countMap r))) (map mem ss)"
    using assms(5) by (auto simp: list_all_iff)
  ultimately show ?thesis
    using metrics_served [OF assms(1-3) _ _ assms(6-8) refl assms(11), of get "map mem ss" now d di nm] v unfolding pos by blast
qed

definition sample_endpoints :: Endpoints where
  "sample_endpoints = \<lparr>ep_Namespace = ''ns'', ep_Name = ''svc'', Subsets = [\<lparr>Addresses =
     [\<lparr>ea_Hostname = [], ea_IP = ''10.0.0.1''\<rparr>, \<lparr>ea_Hostname = [], ea_IP = ''10.0.0.2''\<rparr>], Ports = []\<rparr>]\<rparr>"

definition routed_a :: Table where
  "routed_a = \<lparr>tm = Some (fmap_of_list [(''a'', sample_target)])\<rparr>"

theorem metrics_count_inflight_witness:
  "\<exists>p' v. fetchAndSaveCounts
      (\<lambda>_. Inr (rw_body (newSizeHandler (\<lparr>Counts_m = Some (countMap (mem (served 20 False)))\<rparr>, None) NewRecorder))) 0
      (sample_pinger\<lparr>getEndpointsFn := (\<lambda>_ _. Inr sample_endpoints), adminPort := show_int (int 9090)\<rparr>) = (p', None) \<and>
    sint v = 2 \<and>
    impl_GetMetrics (newImpl p' Table_Reader routed_a 100 200)
      (Some \<lparr>gmr_ScaledObjectRef = Some (trigger_ref (NewScaledObject ''ns'' ''n'' ''d'' ''s:1'' [''a''] None None None)),
        gmr_MetricName = []\<rparr>) =
      Ret (Inr \<lparr>gmr_MetricValues = [\<lparr>mv_MetricName = httpRequests, mv_MetricValue = v\<rparr>]\<rparr>) \<and>
    impl_IsActive (newImpl p' Table_Reader routed_a 100 200)
      (Some (trigger_ref (NewScaledObject ''ns'' ''n'' ''d'' ''s:1'' [''a''] None None None))) = Ret (Inr \<lparr>iar_Result = True\<rparr>)"
proof -
  let ?s = "served 20 False"
  let ?get = "\<lambda>_. Inr (rw_body (newSizeHandler (\<lparr>Counts_m = Some (countMap (mem ?s))\<rparr>, None) NewRecorder))"
  let ?p = "sample_pinger\<lparr>getEndpointsFn := (\<lambda>_ _. Inr sample_endpoints), adminPort := show_int (int 9090)\<rparr>"
  have "list_all (\<lambda>ss. list_all (\<lambda>a. list_all dns_char (ea_IP a)) (Addresses ss)) (Subsets sample_endpoints)"
    by code_simp
  moreover have "list_all2 (\<lambda>a s. serves_counts ?get 9090 a (mem s)) (concat (map Addresses (Subsets sample_endpoints))) [?s, ?s]"
    by (simp add: sample_endpoints_def serves_counts_def)
  moreover have "valid_hosts (Some (countMap (mem ?s)))"
    by code_simp
  then have "list_all (\<lambda>s. preach True 20 False s \<and> valid_hosts (Some (countMap (mem s)))) [?s, ?s]"
    using preach_served by simp
  moreover have "list_all (\<lambda>h. CHR '','' \<notin> set h \<and> Table_HasHost routed_a h) [''a'']" "interceptor_host \<notin> set [''a'']"
    by code_simp+
  moreover have "(\<Sum>h \<leftarrow> [''a'']. \<Sum>s \<leftarrow> [?s, ?s]. inflight h s) = 2"
    by (simp add: served_def inflight_def)
  ultimately show ?thesis
    using metrics_count_inflight [of ?p sample_endpoints 9090 ?get "[?s, ?s]" 20 "[''a'']" routed_a 2 _ "''ns''" "''n''" "''d''"
        "''s:1''" None None None 0 100 200 "[]", OF _ _ _ _ _ _ _ _ _ _ refl]
    by simp
qed

section \<open>From the operator to the interceptors\<close>

lemma GetTable_published:
  assumes "published cl ns w = Inr t"
  shows "GetTable (\<lambda>name. cl_GetConfigMap cl (ns, name) w) old = (t, None)"
  using assms by (cases t) (auto simp: GetTable_def published_def Table_Replace_def split: sum.splits)

text \<open>
  A request reaches the service of the object that names its host. After a reconciliation of a
  live object has succeeded, an interceptor that reads the routing table from the ConfigMap, whatever
  table it had, finds for every host of the object that was not routed before the target that the
  operator made from the object, with its namespace, service, port and deployment.
\<close>

theorem reconciled_hosts_are_routed:
  assumes "api_server cl"
    and "cl_GetHTTPScaledObject cl req w = Inr httpso" "ho_DeletionTimestamp httpso = None"
    and "valid_object httpso" "valid_table t" "tm t \<noteq> None"
    and "Reconcile r cl now req t w = Ret (t', w', ra, None)"
    and "h \<in> set (effective_hosts (ho_Spec httpso))" "\<not> Table_HasHost t h"
    and "getter = (\<lambda>name. cl_GetConfigMap cl (base_CurrentNamespace (rc_BaseConfig r), name) w')"
  shows "\<exists>seen ref tg. GetTable getter old = (seen, None) \<and> spec_ScaleTargetRef (ho_Spec httpso) = Some ref \<and>
    Table_Lookup seen h = Inr tg \<and> Namespace tg = ho_Namespace httpso \<and> Service tg = ref_Service ref \<and>
    sint (Port tg) = sint (ref_Port ref) \<and> Deployment tg = ref_Deployment ref"
  using reconciled_target [OF assms(1-9)] GetTable_published [of cl "base_CurrentNamespace (rc_BaseConfig r)" w' t' old]
  unfolding assms(10) by blast

theorem reconciled_hosts_are_routed_witness:
  "\<exists>t' w' ra seen tg. sample_reconcile sample_object NewTable = Ret (t', w', ra, None) \<and>
     GetTable (\<lambda>name. cl_GetConfigMap memory_client (''keda'', name) w') NewTable = (seen, None) \<and>
     Table_Lookup seen ''b.com'' = Inr tg \<and> Service tg = ''svc'' \<and> sint (Port tg) = 8080"
proof -
  obtain t' w' ra where ok: "sample_reconcile sample_object NewTable = Ret (t', w', ra, None)"
    using sample_reconcile_ok by blast
  have "valid_object sample_object" "valid_table NewTable" "tm NewTable \<noteq> None" "\<not> Table_HasHost NewTable ''b.com''"
    "''b.com'' \<in> set (effective_hosts (ho_Spec sample_object))" by code_simp+
  moreover have "ho_DeletionTimestamp sample_object = None" "sint (8080 :: i32) = 8080" by (simp_all add: sample_object_def)
  ultimately show ?thesis
    using reconciled_hosts_are_routed [OF memory_client_api sample_deletion_get [of sample_object] _ _ _ _
        ok [unfolded sample_reconcile_def] _ _ refl, where h = "''b.com''" and old = NewTable] ok
    by (auto simp: sample_reconciler_def sample_object_def)
qed

section \<open>From an object to its service\<close>

text \<open>
  C2: A request reaches the service of the object that names its host, through all programs. After
  the operator has reconciled a live object, an interceptor that starts up and reads the ConfigMap
  of the operator's namespace forwards every request for a host of the object, that was not routed
  before and whose header has no port, to \<open>http://service.namespace:port\<close> of the object's scale
  target, once the wait for the target's deployment succeeds.
\<close>

theorem request_reaches_service:
  assumes "api_server cl"
    and "cl_GetHTTPScaledObject cl k w = Inr httpso" "ho_DeletionTimestamp httpso = None"
    and "valid_object httpso" "valid_table t" "tm t \<noteq> None"
    and "Reconcile r cl stamp k t w = Ret (t', w', ra, None)"
    and "h \<in> set (effective_hosts (ho_Spec httpso))" "\<not> Table_HasHost t h"
    and "interceptor_main loggerErr parseTimeouts parseServing inCluster newForConfig configMaps = Ret (Started p)"
    and "\<And>kc name. configMaps kc (CurrentNamespace (ip_serving p)) name =
      cl_GetConfigMap cl (base_CurrentNamespace (rc_BaseConfig r), name) w'"
    and "spec_ScaleTargetRef (ho_Spec httpso) = Some ref"
    and "list_all dns_char (ref_Service ref)" "list_all dns_char (ho_Namespace httpso)" "0 \<le> sint (ref_Port ref)"
    and "getHost lookupAddr req = Inr h" "CHR '':'' \<notin> set (req_Host req)"
    and "waitFunc (DeploymentReplicas (ip_timeouts p)) (ho_Namespace httpso) (ref_Deployment ref) = (replicas, None)"
  shows "\<exists>w1 w2 s' n' panicked.
    runProxyServer_handler lookupAddr Memory_Counter now waitFunc (ip_table p) (ip_timeouts p) mkTransport defaultTransport
      req wr (s, n) = Ret (w2, (s', n'), panicked) \<and>
    forwardRequest
      (mkTransport (NewNetDialer (Connect (ip_timeouts p)) (KeepAlive (ip_timeouts p)))
         (DialContextWithRetry (DefaultBackoff (ip_timeouts p))) (newForwardingConfigFromTimeouts (ip_timeouts p)))
      defaultTransport
      (http_url (ref_Service ref @ ''.'' @ ho_Namespace httpso @ '':'' @ show_int (sint (ref_Port ref))))
      (ServiceUnavailableRetry (ip_timeouts p)) req w1 n = (n', w2, panicked)"
proof -
  from reconciled_target [OF assms(1-9)] assms(12) obtain tg where
    pub: "published cl (base_CurrentNamespace (rc_BaseConfig r)) w' = Inr t'" and look: "Table_Lookup t' h = Inr tg"
    and tg: "Namespace tg = ho_Namespace httpso" "Service tg = ref_Service ref" "sint (Port tg) = sint (ref_Port ref)"
      "Deployment tg = ref_Deployment ref"
    by auto
  have table: "ip_table p = t'"
    using assms(10,11) pub by (auto simp: interceptor_main_iff published_def split: sum.splits)
  have url: "ServiceURL tg = Inr (http_url (ref_Service ref @ ''.'' @ ho_Namespace httpso @ '':'' @ show_int (sint (ref_Port ref))))"
    using ServiceURL_host [of tg] assms(13-15) tg by (simp add: fmt_d_def)
  have wait: "waitFunc (DeploymentReplicas (ip_timeouts p)) (Namespace tg) (Deployment tg) = (replicas, None)"
    using assms(18) tg by simp
  show ?thesis unfolding table using assms(16,17) look url wait by (rule proxy_forwards)
qed

text \<open>An interceptor's configuration.\<close>

definition keda_serving :: Serving where
  "keda_serving = \<lparr>CurrentNamespace = ''keda'', ProxyPort = 8080, AdminPort = 9090, ConfigMapCacheRsyncPeriod = 0,
     DeploymentCachePollIntervalMS = 0, RequestQueueCooldown = 0, RequestQueueCooldownEnforcerInterval = 0,
     EnableRequestQueueCooldown = False\<rparr>"

lemma tenant_reconcile_ok: "\<exists>t' w' ra. sample_reconcile tenant_object NewTable = Ret (t', w', ra, None)"
  by (simp add: tenant_object_def sample_defs operator_defs NewTable_def NewScaledObject_def Let_def)

lemma sample_interceptor_starts:
  assumes "published memory_client ''keda'' w = Inr t"
  shows "interceptor_main None (Ret sample_timeouts) (Ret keda_serving) (Inr ()) Inr
      (\<lambda>kc ns name. cl_GetConfigMap memory_client (ns, name) w) =
    Ret (Started \<lparr>ip_timeouts = sample_timeouts, ip_serving = keda_serving, ip_q = NewMemory 0 False, ip_table = t\<rparr>)"
proof -
  have "sint (DeploymentCachePollIntervalMS keda_serving * millisecond) \<le> sint (DeploymentReplicas sample_timeouts)" by code_simp
  with assms show ?thesis
    by (auto simp: interceptor_main_iff published_def keda_serving_def split: sum.splits)
qed

theorem request_reaches_service_witness:
  "\<exists>t' w' ra p w1 w2 s' n' panicked. sample_reconcile tenant_object NewTable = Ret (t', w', ra, None) \<and>
     interceptor_main None (Ret sample_timeouts) (Ret keda_serving) (Inr ()) Inr
       (\<lambda>kc ns name. cl_GetConfigMap memory_client (ns, name) w') = Ret (Started p) \<and>
     runProxyServer_handler sample_lookup Memory_Counter 100 (\<lambda>_ _ _. (1, None)) (ip_table p) (ip_timeouts p) sample_maker
       (\<lambda>r n. (Suc n, Inl ContextCanceled)) (sample_request ''db'') NewRecorder (NewMemory 0 False, 0 :: nat) =
       Ret (w2, (s', n'), panicked) \<and>
     forwardRequest (\<lambda>r n. (Suc n, Inl ContextCanceled)) (\<lambda>r n. (Suc n, Inl ContextCanceled)) (http_url ''svc.ns:8080'')
       (ServiceUnavailableRetry (ip_timeouts p)) (sample_request ''db'') w1 0 = (n', w2, panicked)"
proof -
  let ?cms = "\<lambda>w' kc ns name. cl_GetConfigMap memory_client (ns, name) w'"
  obtain t' w' ra where ok: "sample_reconcile tenant_object NewTable = Ret (t', w', ra, None)"
    using tenant_reconcile_ok by blast
  have valid: "valid_object tenant_object" "valid_table NewTable" "tm NewTable \<noteq> None"
    "''db.dp-acme'' \<in> set (effective_hosts (ho_Spec tenant_object))" "\<not> Table_HasHost NewTable ''db.dp-acme''" by code_simp+
  have live: "ho_DeletionTimestamp tenant_object = None" by (simp add: tenant_object_def sample_object_def)
  note rec = memory_client_api sample_deletion_get [of tenant_object] live valid(1-3) ok [unfolded sample_reconcile_def] valid(4,5)
  from reconciled_target [OF rec] have "published memory_client ''keda'' w' = Inr t'"
    by (auto simp: sample_reconciler_def)
  note main = sample_interceptor_starts [OF this]
  let ?p = "\<lparr>ip_timeouts = sample_timeouts, ip_serving = keda_serving, ip_q = NewMemory 0 False, ip_table = t'\<rparr>"
  have cms: "?cms w' kc (CurrentNamespace (ip_serving ?p)) name =
      cl_GetConfigMap memory_client (base_CurrentNamespace (rc_BaseConfig sample_reconciler), name) w'" for kc name
    by (simp add: keda_serving_def sample_reconciler_def)
  let ?ref = "\<lparr>ref_Deployment = ''depl'', ref_Service = ''svc'', ref_Port = 8080\<rparr>"
  have ref: "spec_ScaleTargetRef (ho_Spec tenant_object) = Some ?ref"
    by (simp add: tenant_object_def sample_object_def)
  have "list_all dns_char (''svc'' :: string)" "list_all dns_char (''ns'' :: string)" by code_simp+
  then have names: "list_all dns_char (ref_Service ?ref)" "list_all dns_char (ho_Namespace tenant_object)"
    by (simp_all add: tenant_object_def sample_object_def)
  have names2:
    "getHost sample_lookup (sample_request ''db'') = Inr ''db.dp-acme''" "CHR '':'' \<notin> set (req_Host (sample_request ''db''))"
    "digit 8 = CHR ''8''" "digit 0 = CHR ''0''" by code_simp+
  then have port_text: "show_int 8080 = ''8080''" by (simp add: show_int_def show_nat.simps)
  have port: "sint (ref_Port ?ref) = 8080" "0 \<le> sint (ref_Port ?ref)" by simp_all
  have url: "ref_Service ?ref @ ''.'' @ ho_Namespace tenant_object @ '':'' @ show_int (sint (ref_Port ?ref)) = ''svc.ns:8080''"
    unfolding port(1) port_text by (simp add: tenant_object_def sample_object_def)
  have maker: "sample_maker d dial cfg = (\<lambda>r n. (Suc n, Inl ContextCanceled))" for d dial cfg
    by (simp add: sample_maker_def fun_eq_iff)
  from request_reaches_service [OF rec main cms ref names port(2) names2(1,2), where waitFunc = "\<lambda>_ _ _. (1, None)" and
      replicas = 1 and mkTransport = sample_maker and defaultTransport = "\<lambda>r n. (Suc n, Inl ContextCanceled)" and now = 100 and
      wr = NewRecorder and s = "NewMemory 0 False" and n = 0, OF refl, unfolded url maker] ok main
  show ?thesis unfolding maker by blast
qed

section \<open>A restart of the operator\<close>

text \<open>
  C15: A restarted operator forgets the routes of the others. The operator starts with an empty
  table and does not read the ConfigMap; the first object that it reconciles successfully makes it
  write that table back, so that whatever the ConfigMap had before, an interceptor that reads it
  then finds the hosts of that one object and no other host.
\<close>

theorem restart_forgets_routes:
  assumes "operator_main getenv newBase managerErr setupErr healthzErr readyzErr newClientset = Started p"
    and "api_server cl"
    and "cl_GetHTTPScaledObject cl k w = Inr httpso" "ho_DeletionTimestamp httpso = None" "valid_object httpso"
    and "Reconcile (op_reconciler p) cl stamp k (op_table p) w = Ret (t', w', ra, None)"
    and "getter = (\<lambda>name. cl_GetConfigMap cl (base_CurrentNamespace (rc_BaseConfig (op_reconciler p)), name) w')"
  shows "\<exists>seen. GetTable getter old = (seen, None) \<and>
    (\<forall>h. Table_HasHost seen h \<longleftrightarrow> h \<in> set (effective_hosts (ho_Spec httpso)))"
proof -
  have empty: "op_table p = NewTable" using assms(1) by (rule operator_starts_empty)
  have "valid_table NewTable" "tm NewTable \<noteq> None" by code_simp+
  from Reconcile_routes [OF assms(2-5) this assms(6) [unfolded empty]] obtain tg where
    look: "\<And>h. map_get (tm t') h = (case map_get (tm NewTable) h of
       Some old \<Rightarrow> Some old | None \<Rightarrow> if h \<in> set (effective_hosts (ho_Spec httpso)) then Some tg else None)"
    and pub: "published cl (base_CurrentNamespace (rc_BaseConfig (op_reconciler p))) w' = Inr t'"
    by blast
  have "map_get (tm NewTable) h = None" for h by (simp add: NewTable_def map_get_def)
  with look have "Table_HasHost t' h \<longleftrightarrow> h \<in> set (effective_hosts (ho_Spec httpso))" for h
    by (simp add: Table_HasHost_def)
  with GetTable_published [OF pub, of old] show ?thesis unfolding assms(7) by blast
qed

text \<open>A state in which the ConfigMap routes \<open>c.com\<close>, and the environment of an operator.\<close>

definition other_table :: Table where
  "other_table = \<lparr>tm = Some (fmap_of_list [(''c.com'', sample_target)])\<rparr>"

definition other_state :: api_state where
  "other_state = (sample_state sample_object)\<lparr>st_cm := (\<lambda>k. if k = (''keda'', ConfigMapRoutingTableName)
     then Some \<lparr>cm_Namespace = ''keda'', cm_Name = ConfigMapRoutingTableName, cm_Labels = None,
       cm_Data = Some (fmupd configMapRoutingTableKey (json_print (Table_json other_table) @ [newline]) fmempty)\<rparr>
     else None)\<rparr>"

definition sample_started :: "operator_proc started" where
  "sample_started = operator_main (\<lambda>k. ''svc'')
     (Inr \<lparr>base_TargetPendingRequests = 100, base_CurrentNamespace = ''keda'', base_WatchNamespace = []\<rparr>)
     None None None None (Inr (\<lambda>ns name. Inr sample_cm))"

theorem restart_forgets_routes_witness:
  "\<exists>p t' w' ra seen. sample_started = Started p \<and>
     published memory_client ''keda'' other_state = Inr other_table \<and> Table_HasHost other_table ''c.com'' \<and>
     Reconcile (op_reconciler p) memory_client (\<lambda>_. []) (''ns'', ''xkcd'') (op_table p) other_state = Ret (t', w', ra, None) \<and>
     GetTable (\<lambda>name. cl_GetConfigMap memory_client (''keda'', name) w') NewTable = (seen, None) \<and>
     \<not> Table_HasHost seen ''c.com''"
proof -
  obtain p where p: "sample_started = Started p" "base_CurrentNamespace (rc_BaseConfig (op_reconciler p)) = ''keda''"
    "op_table p = NewTable"
    by (simp add: sample_started_def operator_main_def NewInterceptorFromEnv_def NewExternalScalerFromEnv_def env_Get_def
        ensureConfigMap_def)
  obtain t' w' ra where ok: "Reconcile (op_reconciler p) memory_client (\<lambda>_. []) (''ns'', ''xkcd'') (op_table p) other_state =
      Ret (t', w', ra, None)"
    using p by (simp add: other_state_def sample_defs operator_defs NewTable_def NewScaledObject_def Let_def)
  have get: "cl_GetHTTPScaledObject memory_client (''ns'', ''xkcd'') other_state = Inr sample_object"
    by (simp add: other_state_def sample_defs)
  have v: "valid_object sample_object" "ho_DeletionTimestamp sample_object = None" "valid_table other_table"
    "Table_HasHost other_table ''c.com''" "''c.com'' \<notin> set (effective_hosts (ho_Spec sample_object))"
    by code_simp+
  have pub: "published memory_client ''keda'' other_state = Inr other_table"
    using Fetch_Save [OF v(3), of "zero_ConfigMap\<lparr>cm_Data := Some fmempty\<rparr>"]
    by (simp add: published_def other_state_def memory_client_def get_or_404_def SaveTableToConfigMap_def Table_MarshalJSON_def
        FetchTableFromConfigMap_def)
  from restart_forgets_routes [OF p(1) [unfolded sample_started_def] memory_client_api get v(2,1) ok refl, of NewTable]
    p ok pub v(4,5) show ?thesis by auto
qed

end
